(* ===== verification/Prelude.thy ===== *)
theory Prelude
  imports Main "HOL-Library.State_Monad"
begin

text \<open>
  What every component of the development shares: the collections of proof hints, generic facts
  about lists and insertion into association lists, and the locale of transition systems, whose
  one lemma (an invariant kept by every step holds in every reachable state) is interpreted by
  each component with state.
\<close>

section \<open>Collections of hints\<close>

named_theorems wf_intros \<open>operations that keep a component's invariant\<close>
named_theorems op_defs \<open>definitions of operations, unfolded when a single call is analysed\<close>

section \<open>Lists\<close>

lemma distinct_map_filterI: "distinct (map f xs) \<Longrightarrow> distinct (map f (filter P xs))"
  by (induction xs) auto

lemma find_SomeD: "find P xs = Some x \<Longrightarrow> P x \<and> x \<in> set xs"
  by (induction xs) (auto split: if_splits)

lemma find_exists: "x \<in> set xs \<Longrightarrow> P x \<Longrightarrow> \<exists>y. find P xs = Some y"
  by (induction xs) auto

lemma find_unique_key:
  assumes "distinct (map key xs)" and "x \<in> set xs"
  shows "find (\<lambda>y. key y = key x) xs = Some x"
  using assms by (induction xs) (auto simp: image_iff)

lemma sorted_wrt_take: "sorted_wrt R xs \<Longrightarrow> sorted_wrt R (take n xs)"
proof (induction xs arbitrary: n)
  case (Cons x xs)
  then show ?case by (cases n) (auto dest: in_set_takeD)
qed simp

section \<open>Transition systems\<close>

text \<open>
  A component with state is an initial state and a labelled step that may be refused
  (\<^term>\<open>None\<close>, where the code panics or the step cannot be taken). The contract is an invariant
  that holds at the start and is kept by every step.
\<close>

locale transition_system =
  fixes start :: "'s"
    and step :: "'s \<Rightarrow> 'e \<Rightarrow> 's option"
    and inv :: "'s \<Rightarrow> bool"
  assumes inv_start: "inv start"
    and inv_step: "inv s \<Longrightarrow> step s e = Some t \<Longrightarrow> inv t"
begin

inductive reach :: "'s \<Rightarrow> bool" where
  reach_start: "reach start"
| reach_step: "reach s \<Longrightarrow> step s e = Some t \<Longrightarrow> reach t"

lemma reach_inv: "reach s \<Longrightarrow> inv s"
  by (induction rule: reach.induct) (auto intro: inv_start inv_step)

primrec run :: "'s \<Rightarrow> 'e list \<Rightarrow> 's option" where
  "run s [] = Some s"
| "run s (e # es) = (case step s e of None \<Rightarrow> None | Some t \<Rightarrow> run t es)"

lemma run_reach: "reach s \<Longrightarrow> run s es = Some t \<Longrightarrow> reach t"
  by (induction es arbitrary: s) (auto split: option.splits intro: reach_step)

lemma run_inv: "run start es = Some t \<Longrightarrow> inv t"
  by (blast intro: reach_inv run_reach reach_start)

end

end
