(* ===== verification/Tables.thy ===== *)
theory Tables
  imports Go_Strings
begin

text \<open>
  The relational vocabulary the embedded SQL is translated with. A table is the list of its rows.
  \<open>INSERT\<close> appends and is refused when a key is taken, \<open>UPDATE .. WHERE\<close> and \<open>DELETE .. WHERE\<close> act
  on the rows that satisfy the condition and report how many they touched, and
  \<open>ORDER BY .. LIMIT\<close> is a stable sort followed by a prefix (rows with equal keys keep the
  table's order, one of the orders SQL allows).
\<close>

section \<open>Statements on one table\<close>

definition insert_row :: "('r \<Rightarrow> 'k) \<Rightarrow> 'r \<Rightarrow> 'r list \<Rightarrow> 'r list option" where
  "insert_row key r rows = (if key r \<in> key ` set rows then None else Some (rows @ [r]))"

definition insert_or_ignore :: "('r \<Rightarrow> 'k) \<Rightarrow> 'r \<Rightarrow> 'r list \<Rightarrow> 'r list" where
  "insert_or_ignore key r rows = (if key r \<in> key ` set rows then rows else rows @ [r])"

definition update_where :: "('r \<Rightarrow> bool) \<Rightarrow> ('r \<Rightarrow> 'r) \<Rightarrow> 'r list \<Rightarrow> 'r list" where
  "update_where P f rows = map (\<lambda>r. if P r then f r else r) rows"

definition delete_where :: "('r \<Rightarrow> bool) \<Rightarrow> 'r list \<Rightarrow> 'r list" where
  "delete_where P rows = filter (\<lambda>r. \<not> P r) rows"

definition affected :: "('r \<Rightarrow> bool) \<Rightarrow> 'r list \<Rightarrow> nat" where
  "affected P rows = length (filter P rows)"

definition order_limit :: "('r \<Rightarrow> 'k::linorder) \<Rightarrow> nat \<Rightarrow> 'r list \<Rightarrow> 'r list" where
  "order_limit k n rows = take n (sort_key k rows)"

section \<open>Facts\<close>

lemma insert_row_None_iff [simp]: "insert_row key r rows = None \<longleftrightarrow> key r \<in> key ` set rows"
  by (simp add: insert_row_def)

lemma insert_row_Some_iff [simp]:
  "insert_row key r rows = Some rows' \<longleftrightarrow> key r \<notin> key ` set rows \<and> rows' = rows @ [r]"
  by (auto simp: insert_row_def)

lemma insert_or_ignore_keys:
  "distinct (map key rows) \<Longrightarrow> distinct (map key (insert_or_ignore key r rows))"
  by (simp add: insert_or_ignore_def)

lemma set_insert_or_ignore_subset: "set (insert_or_ignore key r rows) \<subseteq> insert r (set rows)"
  by (auto simp: insert_or_ignore_def)

lemma key_insert_or_ignore [simp]: "key ` set (insert_or_ignore key r rows) = insert (key r) (key ` set rows)"
  by (auto simp: insert_or_ignore_def)

lemma set_update_where: "set (update_where P f rows) = (\<lambda>r. if P r then f r else r) ` set rows"
  by (simp add: update_where_def)

lemma update_where_key [simp]:
  "(\<And>r. key (f r) = key r) \<Longrightarrow> map key (update_where P f rows) = map key rows"
  by (simp add: update_where_def comp_def if_distrib cong: if_cong)

lemma length_update_where [simp]: "length (update_where P f rows) = length rows"
  by (simp add: update_where_def)

lemma update_where_none: "affected P rows = 0 \<Longrightarrow> update_where P f rows = rows"
  by (induction rows) (auto simp: update_where_def affected_def split: if_splits)

lemma affected_0_iff: "affected P rows = 0 \<longleftrightarrow> (\<forall>r \<in> set rows. \<not> P r)"
  by (auto simp: affected_def filter_empty_conv)

lemma affected_unique:
  "distinct (map key rows) \<Longrightarrow> affected (\<lambda>r. key r = k \<and> P r) rows \<le> 1"
proof (induction rows)
  case (Cons r rows)
  show ?case
  proof (cases "key r = k \<and> P r")
    case True
    with Cons.prems have "\<forall>s \<in> set rows. \<not> (key s = k \<and> P s)"
      by (auto simp: image_iff)
    then have "filter (\<lambda>r. key r = k \<and> P r) rows = []"
      by (simp add: filter_empty_conv)
    with True show ?thesis by (simp add: affected_def)
  next
    case False
    with Cons show ?thesis by (auto simp: affected_def)
  qed
qed (simp add: affected_def)

lemma set_delete_where [simp]: "set (delete_where P rows) = {r \<in> set rows. \<not> P r}"
  by (auto simp: delete_where_def)

lemma delete_where_keys: "distinct (map key rows) \<Longrightarrow> distinct (map key (delete_where P rows))"
  by (simp add: delete_where_def distinct_map_filterI)

lemma delete_where_none: "affected P rows = 0 \<Longrightarrow> delete_where P rows = rows"
  by (simp add: affected_0_iff delete_where_def filter_id_conv)

lemma length_order_limit: "length (order_limit k n rows) = min n (length rows)"
  by (simp add: order_limit_def min.commute)

lemma set_order_limit: "set (order_limit k n rows) \<subseteq> set rows"
  by (auto simp: order_limit_def dest: in_set_takeD)

lemma order_limit_all: "length rows \<le> n \<Longrightarrow> set (order_limit k n rows) = set rows"
  by (simp add: order_limit_def)

lemma sorted_order_limit: "sorted (map k (order_limit k n rows))"
  by (simp add: order_limit_def take_map [symmetric] sorted_wrt_take)

text \<open>A row left out by the limit does not come before a row that was kept.\<close>

lemma order_limit_best:
  assumes "r \<in> set rows" and "r \<notin> set (order_limit k n rows)" and "s \<in> set (order_limit k n rows)"
  shows "k s \<le> k r"
proof -
  let ?xs = "sort_key k rows"
  have "set (take n ?xs) \<union> set (drop n ?xs) = set rows"
    by (metis append_take_drop_id set_append set_sort)
  with assms have "r \<in> set (drop n ?xs)" "s \<in> set (take n ?xs)"
    by (auto simp: order_limit_def)
  moreover have "sorted (map k (take n ?xs @ drop n ?xs))"
    by simp
  ultimately show ?thesis
    unfolding map_append sorted_append by auto
qed

lemmas table_defs = update_where_def delete_where_def affected_def

end
