(* ===== verification/Json.thy ===== *)
theory Json
  imports Go_Strings Complex_Main
begin

text \<open>
  JSON documents as \<open>encoding/json\<close> sees them: the tree of a document, not its bytes. A
  \<open>time.Time\<close> is marshalled as the RFC 3339 string of an instant; the tree keeps the instant
  (\<open>JTime\<close>). A Go \<open>map\<close> or struct is an object with its keys in the order the code
  lists them.
\<close>

datatype json =
    JNull
  | JBool bool
  | JNum int
  | JReal rat
  | JStr string
  | JTime int
  | JArr "json list"
  | JObj "(string \<times> json) list"

text \<open>What a cache entry holds: a text that parses as a document, or a text that does not.\<close>

datatype doc = Doc json | Junk

text \<open>
  Struct keys are matched without regard to case when decoding; the last occurrence of a key wins,
  because fields are assigned in the order of the input.
\<close>

definition key_eq :: "string \<Rightarrow> string \<Rightarrow> bool" where
  "key_eq k tag = (to_lower k = to_lower tag)"

definition opt_str :: "string option \<Rightarrow> json" where
  "opt_str s = (case s of None \<Rightarrow> JNull | Some v \<Rightarrow> JStr v)"

definition opt_time :: "int option \<Rightarrow> json" where
  "opt_time t = (case t of None \<Rightarrow> JNull | Some v \<Rightarrow> JTime v)"

text \<open>A slice that is \<open>nil\<close> exactly when nothing was appended to it marshals to \<open>null\<close> when empty.\<close>

definition nil_slice :: "json list \<Rightarrow> json" where
  "nil_slice xs = (if xs = [] then JNull else JArr xs)"

definition int64 :: "int \<Rightarrow> bool" where
  "int64 n = (- (2 ^ 63) \<le> n \<and> n < 2 ^ 63)"

definition int32 :: "int \<Rightarrow> bool" where
  "int32 n = (- (2 ^ 31) \<le> n \<and> n < 2 ^ 31)"

definition int16 :: "int \<Rightarrow> bool" where
  "int16 n = (- (2 ^ 15) \<le> n \<and> n < 2 ^ 15)"

lemma int32_int64: "int32 n \<Longrightarrow> int64 n"
  by (simp add: int32_def int64_def)

text \<open>Assigning a decoded value to a field: \<open>null\<close> leaves the field, another type is an error.\<close>

definition dec_str :: "json \<Rightarrow> string \<Rightarrow> string option" where
  "dec_str j old = (case j of JStr s \<Rightarrow> Some s | JNull \<Rightarrow> Some old | _ \<Rightarrow> None)"

definition dec_int :: "json \<Rightarrow> int \<Rightarrow> int option" where
  "dec_int j old = (case j of JNum n \<Rightarrow> if int64 n then Some n else None | JNull \<Rightarrow> Some old | _ \<Rightarrow> None)"

definition dec_time :: "json \<Rightarrow> int \<Rightarrow> int option" where
  "dec_time j old = (case j of JTime t \<Rightarrow> Some t | JNull \<Rightarrow> Some old | _ \<Rightarrow> None)"

text \<open>A pointer field: \<open>null\<close> sets it to \<open>nil\<close>.\<close>

definition dec_opt_str :: "json \<Rightarrow> string option option" where
  "dec_opt_str j = (case j of JStr s \<Rightarrow> Some (Some s) | JNull \<Rightarrow> Some None | _ \<Rightarrow> None)"

text \<open>
  A JSON object is decoded into a struct by a fold over its members; \<open>null\<close> decodes to the
  struct's zero value and every other document is an error.
\<close>

fun dec_fields :: "(string \<Rightarrow> json \<Rightarrow> 'r \<Rightarrow> 'r option) \<Rightarrow> (string \<times> json) list \<Rightarrow> 'r \<Rightarrow> 'r option" where
  "dec_fields set_field [] r = Some r"
| "dec_fields set_field ((k, j) # kvs) r =
     (case set_field k j r of None \<Rightarrow> None | Some r' \<Rightarrow> dec_fields set_field kvs r')"

definition dec_struct :: "(string \<Rightarrow> json \<Rightarrow> 'r \<Rightarrow> 'r option) \<Rightarrow> 'r \<Rightarrow> json \<Rightarrow> 'r option" where
  "dec_struct set_field zero j =
     (case j of JObj kvs \<Rightarrow> dec_fields set_field kvs zero | JNull \<Rightarrow> Some zero | _ \<Rightarrow> None)"

fun dec_list :: "(json \<Rightarrow> 'r option) \<Rightarrow> json list \<Rightarrow> 'r list option" where
  "dec_list dec [] = Some []"
| "dec_list dec (j # js) =
     (case dec j of None \<Rightarrow> None | Some r \<Rightarrow> (case dec_list dec js of None \<Rightarrow> None | Some rs \<Rightarrow> Some (r # rs)))"

definition dec_slice :: "(json \<Rightarrow> 'r option) \<Rightarrow> json \<Rightarrow> 'r list \<Rightarrow> 'r list option" where
  "dec_slice dec j old = (case j of JArr js \<Rightarrow> dec_list dec js | JNull \<Rightarrow> Some [] | _ \<Rightarrow> None)"

lemma dec_fields_append [simp]:
  "dec_fields f (xs @ ys) r = (case dec_fields f xs r of None \<Rightarrow> None | Some r' \<Rightarrow> dec_fields f ys r')"
  by (induction xs arbitrary: r) (auto split: option.splits)

lemma dec_list_map:
  "(\<And>x. x \<in> set xs \<Longrightarrow> dec (enc x) = Some x) \<Longrightarrow> dec_list dec (map enc xs) = Some xs"
  by (induction xs) auto

lemmas dec_defs = dec_str_def dec_int_def dec_time_def dec_opt_str_def

end
