(* ===== verification/Schema.thy ===== *)
theory Schema
  imports Tables Json
begin

text \<open>
  The tables that the migrations of \<open>internal/db/postgres.go\<close> create, one record per row type with
  the columns in the order of the DDL, and the integrity the declared keys give: primary keys and
  \<open>UNIQUE\<close> constraints are distinct, foreign keys point to rows. Ids are the canonical
  text of a UUID, instants are integers.
\<close>

type_synonym uuid = string
type_synonym instant = int

section \<open>Rows\<close>

record artist =
  ar_id :: uuid
  ar_name :: string
  ar_created :: instant

record track =
  tr_id :: uuid
  tr_title :: string
  tr_artist :: uuid
  tr_duration :: int
  tr_audio :: string
  tr_release :: "string option"
  tr_plays :: int
  tr_created :: instant
  tr_status :: string

record playlist =
  pl_id :: uuid
  pl_name :: string
  pl_owner :: "uuid option"
  pl_created :: instant

record playlist_track =
  pt_playlist :: uuid
  pt_track :: uuid
  pt_position :: int
  pt_added :: instant

record play_event =
  pe_id :: uuid
  pe_user :: "uuid option"
  pe_track :: uuid
  pe_played :: instant
  pe_ms :: "int option"
  pe_source :: "string option"

record user =
  us_id :: uuid
  us_email :: string
  us_hash :: string
  us_name :: string
  us_created :: instant
  us_role :: string
  us_deleted :: "instant option"
  us_terms :: int

record audit_row =
  au_id :: uuid
  au_user :: "uuid option"
  au_action :: string
  au_rtype :: "string option"
  au_rid :: "uuid option"
  au_ip :: string
  au_agent :: string
  au_status :: int
  au_request :: "string option"
  au_created :: instant

record favorite =
  fv_id :: uuid
  fv_user :: uuid
  fv_track :: uuid
  fv_created :: instant

record track_format =
  tf_id :: uuid
  tf_track :: uuid
  tf_bitrate :: int
  tf_codec :: string
  tf_key :: string
  tf_size :: int
  tf_created :: instant

record db =
  d_artists :: "artist list"
  d_tracks :: "track list"
  d_playlists :: "playlist list"
  d_ptracks :: "playlist_track list"
  d_events :: "play_event list"
  d_users :: "user list"
  d_audits :: "audit_row list"
  d_favs :: "favorite list"
  d_formats :: "track_format list"

definition empty_db :: db where
  "empty_db = \<lparr>d_artists = [], d_tracks = [], d_playlists = [], d_ptracks = [], d_events = [],
     d_users = [], d_audits = [], d_favs = [], d_formats = []\<rparr>"

section \<open>Integrity\<close>

definition fmt_key :: "track_format \<Rightarrow> uuid \<times> int \<times> string" where
  "fmt_key f = (tf_track f, tf_bitrate f, tf_codec f)"

definition pt_key :: "playlist_track \<Rightarrow> uuid \<times> uuid" where
  "pt_key p = (pt_playlist p, pt_track p)"

definition fv_key :: "favorite \<Rightarrow> uuid \<times> uuid" where
  "fv_key f = (fv_user f, fv_track f)"

definition keys_ok :: "db \<Rightarrow> bool" where
  "keys_ok d \<longleftrightarrow>
     distinct (map ar_id (d_artists d)) \<and> distinct (map tr_id (d_tracks d)) \<and>
     distinct (map pl_id (d_playlists d)) \<and> distinct (map pt_key (d_ptracks d)) \<and>
     distinct (map pe_id (d_events d)) \<and> distinct (map us_id (d_users d)) \<and>
     distinct (map us_email (d_users d)) \<and> distinct (map au_id (d_audits d)) \<and>
     distinct (map fv_id (d_favs d)) \<and> distinct (map fv_key (d_favs d)) \<and>
     distinct (map tf_id (d_formats d)) \<and> distinct (map fmt_key (d_formats d))"

abbreviation artist_ids :: "db \<Rightarrow> uuid set" where "artist_ids d \<equiv> ar_id ` set (d_artists d)"
abbreviation track_ids :: "db \<Rightarrow> uuid set" where "track_ids d \<equiv> tr_id ` set (d_tracks d)"
abbreviation playlist_ids :: "db \<Rightarrow> uuid set" where "playlist_ids d \<equiv> pl_id ` set (d_playlists d)"
abbreviation user_ids :: "db \<Rightarrow> uuid set" where "user_ids d \<equiv> us_id ` set (d_users d)"

definition refs_ok :: "db \<Rightarrow> bool" where
  "refs_ok d \<longleftrightarrow>
     tr_artist ` set (d_tracks d) \<subseteq> artist_ids d \<and>
     pt_playlist ` set (d_ptracks d) \<subseteq> playlist_ids d \<and>
     pt_track ` set (d_ptracks d) \<subseteq> track_ids d \<and>
     pe_track ` set (d_events d) \<subseteq> track_ids d \<and>
     (\<forall>a \<in> set (d_audits d). \<forall>u. au_user a = Some u \<longrightarrow> u \<in> user_ids d) \<and>
     fv_user ` set (d_favs d) \<subseteq> user_ids d \<and>
     fv_track ` set (d_favs d) \<subseteq> track_ids d \<and>
     tf_track ` set (d_formats d) \<subseteq> track_ids d"

definition db_ok :: "db \<Rightarrow> bool" where
  "db_ok d \<longleftrightarrow> keys_ok d \<and> refs_ok d"

lemma db_ok_empty [simp, intro]: "db_ok empty_db"
  by (simp add: db_ok_def keys_ok_def refs_ok_def empty_db_def)

lemmas integrity_defs = db_ok_def keys_ok_def refs_ok_def

section \<open>Lookups\<close>

definition track_by_id :: "db \<Rightarrow> uuid \<Rightarrow> track option" where
  "track_by_id d u = find (\<lambda>t. tr_id t = u) (d_tracks d)"

definition user_by_id :: "db \<Rightarrow> uuid \<Rightarrow> user option" where
  "user_by_id d u = find (\<lambda>t. us_id t = u) (d_users d)"

definition formats_of :: "db \<Rightarrow> uuid \<Rightarrow> track_format list" where
  "formats_of d u = filter (\<lambda>f. tf_track f = u) (d_formats d)"

lemma track_by_id_SomeD: "track_by_id d u = Some t \<Longrightarrow> t \<in> set (d_tracks d) \<and> tr_id t = u"
  by (auto simp: track_by_id_def dest: find_SomeD)

lemma track_by_id_iff:
  "keys_ok d \<Longrightarrow> track_by_id d u = Some t \<longleftrightarrow> t \<in> set (d_tracks d) \<and> tr_id t = u"
  using find_unique_key [of tr_id "d_tracks d" t]
  by (auto simp: track_by_id_def keys_ok_def dest: find_SomeD)

lemma track_by_id_None: "track_by_id d u = None \<longleftrightarrow> u \<notin> track_ids d"
  by (auto simp: track_by_id_def find_None_iff image_iff)

end
