(* ===== verification/Services.thy ===== *)
theory Services
  imports Schema
begin

text \<open>
  The outside world and the state a handler runs in. Everything the program calls that is not in
  the repository (PostgreSQL's answers, Redis, Kafka, the object store, OpenSearch, the clock, the
  UUID library) is a parameter: a field of \<open>services\<close>, an arbitrary function of the
  state \<^typ>\<open>'x\<close> of the outside world. A call may fail whenever the parameter says so. The meaning
  of the SQL that is written in the source is a definition; what PostgreSQL contributes to a
  statement (does it fail, is the acknowledgement lost, the generated id, the current
  time, how many rows arrive before the connection breaks) is read off the parameter.
\<close>

section \<open>The outside world\<close>

datatype fault =
    Fine
  | Refused     \<comment> \<open>the statement has no effect and the driver reports an error\<close>
  | Lost_reply  \<comment> \<open>the statement takes effect and the driver reports an error\<close>

record pg_env =
  e_fault :: fault
  e_id :: uuid              \<comment> \<open>the value of \<open>gen_random_uuid()\<close>\<close>
  e_now :: instant          \<comment> \<open>the value of \<open>now()\<close>\<close>
  e_cut :: "nat option"     \<comment> \<open>rows delivered before the connection breaks\<close>
  e_deferred :: bool        \<comment> \<open>a server error surfaces in \<open>rows.Err()\<close>, not in \<open>Query\<close>\<close>

record http_req =
  hq_method :: string
  hq_url :: string
  hq_body :: json

record http_resp =
  hr_status :: int
  hr_text :: string
  hr_json :: doc

text \<open>
  A Lua script of the rate limiters as Redis runs it: from the two fields of the hash it reads
  (\<^term>\<open>None\<close> when the field is absent) to its reply, the fields it writes and the expiry it sets.
\<close>

record script_result =
  sc_reply :: "int list"
  sc_write :: "(rat \<times> rat) option"
  sc_expire :: "int option"

type_synonym script = "rat option \<times> rat option \<Rightarrow> script_result"

text \<open>
  What a goroutine finds in the gin context of the request that started it. gin takes its contexts
  from a pool and hands a context to another request as soon as the chain has returned, without
  waiting for goroutines: the context may hold the values of the request itself, of its successor, or a mixture.
\<close>

record late_context =
  lc_ip :: string            \<comment> \<open>\<open>c.ClientIP()\<close>\<close>
  lc_agent :: string         \<comment> \<open>\<open>c.Request.UserAgent()\<close>\<close>
  lc_status :: int           \<comment> \<open>\<open>c.Writer.Status()\<close>\<close>
  lc_source :: string        \<comment> \<open>\<open>c.GetHeader("X-Source")\<close>\<close>

record 'x services =
  svc_pg :: "'x \<Rightarrow> pg_env \<times> 'x"
  svc_cast :: "string \<Rightarrow> uuid option"           \<comment> \<open>PostgreSQL's input conversion of type \<open>uuid\<close>\<close>
  svc_cast_int :: "string \<Rightarrow> int option"        \<comment> \<open>its input conversion of type \<open>int\<close>\<close>
  svc_cast_inet :: "string \<Rightarrow> string option"    \<comment> \<open>its input conversion of type \<open>inet\<close>\<close>
  svc_scan_inet :: "string \<Rightarrow> string option"    \<comment> \<open>the driver's conversion of an \<open>inet\<close> to a Go string\<close>
  svc_uuid_ok :: "string \<Rightarrow> bool"               \<comment> \<open>does \<open>uuid.Parse\<close> accept it\<close>
  svc_uuid_new :: "'x \<Rightarrow> string \<times> 'x"           \<comment> \<open>\<open>uuid.New().String()\<close>\<close>
  svc_clock :: "'x \<Rightarrow> instant \<times> 'x"             \<comment> \<open>\<open>time.Now()\<close>\<close>
  svc_cache_get :: "'x \<Rightarrow> string \<Rightarrow> doc option \<times> 'x"
  svc_cache_set :: "'x \<Rightarrow> string \<Rightarrow> doc \<Rightarrow> int \<Rightarrow> 'x"
  svc_eval :: "'x \<Rightarrow> string \<Rightarrow> script \<Rightarrow> int list option \<times> 'x"
  svc_incr :: "'x \<Rightarrow> string \<Rightarrow> int option \<times> 'x"
  svc_expire :: "'x \<Rightarrow> string \<Rightarrow> int \<Rightarrow> 'x"
  svc_ttl :: "'x \<Rightarrow> string \<Rightarrow> int \<times> 'x"        \<comment> \<open>in nanoseconds\<close>
  svc_produce :: "'x \<Rightarrow> string \<Rightarrow> string \<Rightarrow> json \<Rightarrow> bool \<times> 'x"
  svc_put :: "'x \<Rightarrow> string \<Rightarrow> string \<Rightarrow> string \<Rightarrow> string \<Rightarrow> bool \<times> 'x"
  svc_get :: "'x \<Rightarrow> string \<Rightarrow> string \<Rightarrow> string option \<times> 'x"
  svc_presign :: "'x \<Rightarrow> string \<Rightarrow> string \<Rightarrow> int \<Rightarrow> string option \<times> 'x"
  svc_http :: "'x \<Rightarrow> http_req \<Rightarrow> http_resp option \<times> 'x"
  svc_collate :: "string \<Rightarrow> nat"                \<comment> \<open>the collation's order of strings\<close>
  svc_match :: "string \<Rightarrow> string \<Rightarrow> bool"       \<comment> \<open>\<open>search_vector @@ plainto_tsquery\<close>\<close>
  svc_rank :: "string \<Rightarrow> string \<Rightarrow> rat"         \<comment> \<open>\<open>ts_rank\<close>\<close>
  svc_late :: "'x \<Rightarrow> late_context \<times> 'x"         \<comment> \<open>what gin's context holds when a goroutine reads it\<close>

section \<open>Metrics\<close>

text \<open>
  The vectors of \<open>internal/metrics/metrics.go\<close>, each with one value per declared label; an observation
  of the histogram keeps its value, in seconds.
\<close>

datatype metric =
    RequestsTotal string string string     \<comment> \<open>method, path, status\<close>
  | RequestDuration string string rat      \<comment> \<open>method, path\<close>
  | CacheHits string                       \<comment> \<open>cache\<close>
  | CacheMisses string                     \<comment> \<open>cache\<close>
  | RateLimitDecisions string              \<comment> \<open>decision\<close>

text \<open>What \<open>/metrics\<close> calls a sample, and the buckets of the histogram an observation falls into.\<close>

fun metric_name :: "metric \<Rightarrow> string" where
  "metric_name (RequestsTotal _ _ _) = ''beatstream_http_requests_total''"
| "metric_name (RequestDuration _ _ _) = ''beatstream_http_request_duration_seconds''"
| "metric_name (CacheHits _) = ''beatstream_cache_hits_total''"
| "metric_name (CacheMisses _) = ''beatstream_cache_misses_total''"
| "metric_name (RateLimitDecisions _) = ''beatstream_rate_limit_decisions_total''"

fun metric_labels :: "metric \<Rightarrow> (string \<times> string) list" where
  "metric_labels (RequestsTotal m p s) = [(''method'', m), (''path'', p), (''status'', s)]"
| "metric_labels (RequestDuration m p _) = [(''method'', m), (''path'', p)]"
| "metric_labels (CacheHits c) = [(''cache'', c)]"
| "metric_labels (CacheMisses c) = [(''cache'', c)]"
| "metric_labels (RateLimitDecisions d) = [(''decision'', d)]"

definition duration_buckets :: "rat list" where
  "duration_buckets = [1 / 1000, 5 / 1000, 1 / 100, 25 / 1000, 5 / 100, 1 / 10, 25 / 100, 5 / 10, 1]"

section \<open>The state a handler runs in\<close>

text \<open>
  A goroutine that a handler has started and that has not run yet, with the values its closure has
  captured. What it reads through the request's gin context it reads when it runs.
\<close>

datatype task =
    Publish_play string    \<comment> \<open>the id of the track\<close>
  | Write_audit "string option" string string "string option" "string option"
      \<comment> \<open>user, action, resource type, resource id, request id\<close>

record 'x world =
  w_db :: db
  w_ext :: 'x
  w_counts :: "metric list"               \<comment> \<open>Prometheus increments and observations, newest first\<close>
  w_tasks :: "task list"
  w_log :: "(nat \<times> (string \<times> string) list) list"   \<comment> \<open>request log: level and fields, newest first\<close>
  w_crashed :: bool                       \<comment> \<open>a panic outside gin's recovery ended the process\<close>

type_synonym ('x, 'a) run = "('x world, 'a) state"

definition ext_call :: "('x \<Rightarrow> 'a \<times> 'x) \<Rightarrow> ('x, 'a) run" where
  "ext_call f = State (\<lambda>w. case f (w_ext w) of (a, x) \<Rightarrow> (a, w\<lparr>w_ext := x\<rparr>))"

definition inc_metric :: "metric \<Rightarrow> ('x, unit) run" where
  "inc_metric m = State (\<lambda>w. ((), w\<lparr>w_counts := m # w_counts w\<rparr>))"

definition log_line :: "nat \<Rightarrow> (string \<times> string) list \<Rightarrow> ('x, unit) run" where
  "log_line level fs = State (\<lambda>w. ((), w\<lparr>w_log := (level, fs) # w_log w\<rparr>))"

definition crash :: "('x, unit) run" where
  "crash = State (\<lambda>w. ((), w\<lparr>w_crashed := True\<rparr>))"

definition halted :: "('x, bool) run" where
  "halted = State (\<lambda>w. (w_crashed w, w))"

definition spawn :: "task \<Rightarrow> ('x, unit) run" where
  "spawn t = State (\<lambda>w. ((), w\<lparr>w_tasks := w_tasks w @ [t]\<rparr>))"

section \<open>Statements\<close>

text \<open>
  A statement is refused by the database (\<^term>\<open>None\<close>: a violated constraint, a value that does not
  convert) or gives a value and the new tables.
\<close>

type_synonym 'a stmt = "pg_env \<Rightarrow> db \<Rightarrow> ('a \<times> db) option"

text \<open>\<open>pool.Exec\<close> and \<open>pool.QueryRow(..).Scan\<close>: \<^term>\<open>None\<close> when the driver reports an error.\<close>

definition exec_stmt :: "pg_env \<Rightarrow> 'a stmt \<Rightarrow> db \<Rightarrow> 'a option \<times> db" where
  "exec_stmt e st d =
     (case e_fault e of
        Refused \<Rightarrow> (None, d)
      | Fine \<Rightarrow> (case st e d of None \<Rightarrow> (None, d) | Some (a, d') \<Rightarrow> (Some a, d'))
      | Lost_reply \<Rightarrow> (case st e d of None \<Rightarrow> (None, d) | Some (a, d') \<Rightarrow> (None, d')))"

definition sql :: "'x services \<Rightarrow> 'a stmt \<Rightarrow> ('x, 'a option) run" where
  "sql S st = State (\<lambda>w. case svc_pg S (w_ext w) of (e, x) \<Rightarrow>
     (case exec_stmt e st (w_db w) of (r, d) \<Rightarrow> (r, w\<lparr>w_ext := x, w_db := d\<rparr>)))"

text \<open>
  \<open>pool.Query\<close> followed by the loop over \<open>rows.Next()\<close>: no handler reads \<open>rows.Err()\<close>, so a
  connection that breaks while rows are read ends the loop early without an error, and an error of
  the server that the driver defers gives no rows.
\<close>

type_synonym 'r select = "pg_env \<Rightarrow> db \<Rightarrow> 'r list option"

definition query_rows :: "pg_env \<Rightarrow> 'r select \<Rightarrow> db \<Rightarrow> 'r list option" where
  "query_rows e q d =
     (if e_fault e \<noteq> Fine then None
      else case q e d of
        None \<Rightarrow> (if e_deferred e then Some [] else None)
      | Some rows \<Rightarrow> Some (case e_cut e of None \<Rightarrow> rows | Some n \<Rightarrow> take n rows))"

definition sql_query :: "'x services \<Rightarrow> 'r select \<Rightarrow> ('x, 'r list option) run" where
  "sql_query S q = State (\<lambda>w. case svc_pg S (w_ext w) of (e, x) \<Rightarrow>
     (query_rows e q (w_db w), w\<lparr>w_ext := x\<rparr>))"

text \<open>A \<open>SELECT\<close> of one row: no row is an error of \<open>Scan\<close>, and no table changes.\<close>

definition select_row :: "(db \<Rightarrow> 'a option) \<Rightarrow> 'a stmt" where
  "select_row f = (\<lambda>e d. map_option (\<lambda>a. (a, d)) (f d))"

section \<open>Running\<close>

lemma run_ext_call [simp]:
  "run_state (ext_call f) w = (case f (w_ext w) of (a, x) \<Rightarrow> (a, w\<lparr>w_ext := x\<rparr>))"
  by (simp add: ext_call_def)

lemma run_inc_metric [simp]:
  "run_state (inc_metric m) w = ((), w\<lparr>w_counts := m # w_counts w\<rparr>)"
  by (simp add: inc_metric_def)

lemma run_log_line [simp]: "run_state (log_line l fs) w = ((), w\<lparr>w_log := (l, fs) # w_log w\<rparr>)"
  by (simp add: log_line_def)

lemma run_crash [simp]: "run_state crash w = ((), w\<lparr>w_crashed := True\<rparr>)"
  by (simp add: crash_def)

lemma run_halted [simp]: "run_state halted w = (w_crashed w, w)"
  by (simp add: halted_def)

lemma run_spawn [simp]: "run_state (spawn t) w = ((), w\<lparr>w_tasks := w_tasks w @ [t]\<rparr>)"
  by (simp add: spawn_def)

lemma run_sql:
  "run_state (sql S st) w = (case svc_pg S (w_ext w) of (e, x) \<Rightarrow>
     (case exec_stmt e st (w_db w) of (r, d) \<Rightarrow> (r, w\<lparr>w_ext := x, w_db := d\<rparr>)))"
  by (simp add: sql_def)

lemma run_sql_query:
  "run_state (sql_query S q) w = (case svc_pg S (w_ext w) of (e, x) \<Rightarrow>
     (query_rows e q (w_db w), w\<lparr>w_ext := x\<rparr>))"
  by (simp add: sql_query_def)

text \<open>What an executed statement can have done: nothing, or what the statement says.\<close>

lemma exec_stmt_cases:
  assumes "exec_stmt e st d = (r, d')"
  obtains (unchanged) "r = None" "d' = d"
        | (effect) a where "st e d = Some (a, d')" "r = Some a \<or> r = None"
  using assms by (auto simp: exec_stmt_def split: fault.splits option.splits prod.splits)

lemma exec_stmt_SomeD: "exec_stmt e st d = (Some a, d') \<Longrightarrow> st e d = Some (a, d')"
  by (auto simp: exec_stmt_def split: fault.splits option.splits prod.splits)

lemma exec_stmt_fine:
  "e_fault e = Fine \<Longrightarrow> exec_stmt e st d = (case st e d of None \<Rightarrow> (None, d) | Some (a, d') \<Rightarrow> (Some a, d'))"
  by (simp add: exec_stmt_def)

lemma query_rows_subset:
  "query_rows e q d = Some rows \<Longrightarrow> r \<in> set rows \<Longrightarrow> \<exists>all. q e d = Some all \<and> r \<in> set all"
  by (auto simp: query_rows_def split: option.splits if_splits dest: in_set_takeD)

section \<open>What a computation does to the tables\<close>

text \<open>
  A relation between the tables before and after (an invariant kept, rows only added, a column that
  only moves forward). It is guaranteed by a statement when every effect of the statement is in it,
  and by a computation when every run is. The locale asks for reflexivity and transitivity and
  gives one rule per construct of the monad, so that a handler guarantees whatever its statements
  guarantee, whichever of its calls fail.
\<close>

definition stmt_stays :: "(db \<Rightarrow> db \<Rightarrow> bool) \<Rightarrow> 'a stmt \<Rightarrow> bool" where
  "stmt_stays R st \<longleftrightarrow> (\<forall>e d a d'. st e d = Some (a, d') \<longrightarrow> R d d')"

definition stays :: "(db \<Rightarrow> db \<Rightarrow> bool) \<Rightarrow> ('x, 'a) run \<Rightarrow> bool" where
  "stays R m \<longleftrightarrow> (\<forall>w. R (w_db w) (w_db (snd (run_state m w))))"

lemma stmt_staysI: "(\<And>e d a d'. st e d = Some (a, d') \<Longrightarrow> R d d') \<Longrightarrow> stmt_stays R st"
  by (auto simp: stmt_stays_def)

lemma stmt_staysD: "stmt_stays R st \<Longrightarrow> st e d = Some (a, d') \<Longrightarrow> R d d'"
  by (auto simp: stmt_stays_def)

lemma staysD: "stays R m \<Longrightarrow> R (w_db w) (w_db (snd (run_state m w)))"
  by (simp add: stays_def)

locale db_relation =
  fixes R :: "db \<Rightarrow> db \<Rightarrow> bool"
  assumes R_refl: "R d d"
    and R_trans: "R d e \<Longrightarrow> R e f \<Longrightarrow> R d f"
begin

lemma stays_return: "stays R (State_Monad.return a)"
  by (simp add: stays_def R_refl)

lemma stays_bind:
  assumes "stays R m" and "\<And>a. stays R (f a)"
  shows "stays R (State_Monad.bind m f)"
proof -
  have "R (w_db w) (w_db (snd (run_state (State_Monad.bind m f) w)))" for w
  proof -
    obtain a w' where m: "run_state m w = (a, w')" by (cases "run_state m w")
    then have "R (w_db w) (w_db w')" using staysD [OF assms(1), of w] by simp
    moreover have "R (w_db w') (w_db (snd (run_state (f a) w')))" by (rule staysD [OF assms(2)])
    ultimately show ?thesis using m by (auto intro: R_trans)
  qed
  then show ?thesis by (simp add: stays_def)
qed

lemma stays_ext_call: "stays R (ext_call f)"
  by (auto simp: stays_def R_refl split: prod.splits)

lemma stays_inc_metric: "stays R (inc_metric m)"
  by (simp add: stays_def R_refl)

lemma stays_log_line: "stays R (log_line l fs)"
  by (simp add: stays_def R_refl)

lemma stays_crash: "stays R crash"
  by (simp add: stays_def R_refl)

lemma stays_halted: "stays R halted"
  by (simp add: stays_def R_refl)

lemma stays_spawn: "stays R (spawn t)"
  by (simp add: stays_def R_refl)

lemma stays_sql_query: "stays R (sql_query S q)"
  by (auto simp: stays_def run_sql_query R_refl split: prod.splits)

lemma stays_sql: "stmt_stays R st \<Longrightarrow> stays R (sql S st)"
  by (auto simp: stays_def run_sql R_refl split: prod.splits elim!: exec_stmt_cases dest: stmt_staysD)

lemma stmt_stays_select_row: "stmt_stays R (select_row f)"
  by (auto simp: stmt_stays_def select_row_def R_refl)

lemma stays_if: "stays R a \<Longrightarrow> stays R b \<Longrightarrow> stays R (if c then a else b)"
  by simp

lemma stays_case_option:
  "stays R a \<Longrightarrow> (\<And>x. stays R (f x)) \<Longrightarrow> stays R (case v of None \<Rightarrow> a | Some x \<Rightarrow> f x)"
  by (cases v) auto

lemma stays_case_prod: "(\<And>x y. stays R (f x y)) \<Longrightarrow> stays R (case p of (x, y) \<Rightarrow> f x y)"
  by (cases p) auto

lemma stays_case_sum:
  "(\<And>x. stays R (f x)) \<Longrightarrow> (\<And>y. stays R (g y)) \<Longrightarrow> stays R (case s of Inl x \<Rightarrow> f x | Inr y \<Rightarrow> g y)"
  by (cases s) auto

lemma stays_Let: "(\<And>x. stays R (f x)) \<Longrightarrow> stays R (Let a f)"
  by (simp add: Let_def)

lemmas stays_rules =
  stays_return stays_bind stays_ext_call stays_inc_metric stays_log_line stays_crash stays_halted stays_spawn stays_sql_query
  stays_sql stmt_stays_select_row stays_if stays_case_option stays_case_prod stays_case_sum stays_Let

end

text \<open>A property of the tables that every effect keeps is such a relation.\<close>

definition kept :: "(db \<Rightarrow> bool) \<Rightarrow> db \<Rightarrow> db \<Rightarrow> bool" where
  "kept P d d' \<longleftrightarrow> (P d \<longrightarrow> P d')"

interpretation kept_rel: db_relation "kept P" for P
  by unfold_locales (auto simp: kept_def)

section \<open>Postconditions\<close>

text \<open>
  What holds of the value and the world after a run: one rule per construct, so that a run of a
  handler is followed statement by statement, the failing branches included.
\<close>

definition post :: "('x, 'a) run \<Rightarrow> ('a \<Rightarrow> 'x world \<Rightarrow> bool) \<Rightarrow> 'x world \<Rightarrow> bool" where
  "post m Q w \<longleftrightarrow> (case run_state m w of (a, w') \<Rightarrow> Q a w')"

lemma postD: "post m Q w \<Longrightarrow> run_state m w = (a, w') \<Longrightarrow> Q a w'"
  by (simp add: post_def)

lemma post_return: "Q a w \<Longrightarrow> post (State_Monad.return a) Q w"
  by (simp add: post_def)

lemma post_bind: "post m (\<lambda>a. post (f a) Q) w \<Longrightarrow> post (State_Monad.bind m f) Q w"
  by (auto simp: post_def split: prod.splits)

lemma post_weaken: "post m Q w \<Longrightarrow> (\<And>a w'. Q a w' \<Longrightarrow> Q' a w') \<Longrightarrow> post m Q' w"
  by (auto simp: post_def split: prod.splits)

lemma post_ext: "(\<And>a x. Q a (w\<lparr>w_ext := x\<rparr>)) \<Longrightarrow> post (ext_call f) Q w"
  by (auto simp: post_def split: prod.splits)

lemma post_sql:
  assumes "\<And>x. Q None (w\<lparr>w_ext := x\<rparr>)"
    and "\<And>e x a d. st e (w_db w) = Some (a, d) \<Longrightarrow> Q (Some a) (w\<lparr>w_ext := x, w_db := d\<rparr>)"
    and "\<And>e x a d. st e (w_db w) = Some (a, d) \<Longrightarrow> Q None (w\<lparr>w_ext := x, w_db := d\<rparr>)"
  shows "post (sql S st) Q w"
proof -
  obtain e x where pg: "svc_pg S (w_ext w) = (e, x)" by (cases "svc_pg S (w_ext w)")
  obtain r d where ex: "exec_stmt e st (w_db w) = (r, d)" by (cases "exec_stmt e st (w_db w)")
  have "Q r (w\<lparr>w_ext := x, w_db := d\<rparr>)"
    using ex
  proof (cases rule: exec_stmt_cases)
    case unchanged
    then show ?thesis using assms(1) [of x] by simp
  next
    case (effect a)
    then show ?thesis using assms(2,3) by auto
  qed
  with pg ex show ?thesis by (simp add: post_def run_sql)
qed

text \<open>A database that never fails: a statement has the effect it says or is refused.\<close>

definition pg_always :: "'x services \<Rightarrow> bool" where
  "pg_always S \<longleftrightarrow> (\<forall>x. e_fault (fst (svc_pg S x)) = Fine)"

lemma post_sql_up:
  assumes "pg_always S"
    and "\<And>e x. st e (w_db w) = None \<Longrightarrow> Q None (w\<lparr>w_ext := x\<rparr>)"
    and "\<And>e x a d. st e (w_db w) = Some (a, d) \<Longrightarrow> Q (Some a) (w\<lparr>w_ext := x, w_db := d\<rparr>)"
  shows "post (sql S st) Q w"
proof -
  obtain e x where pg: "svc_pg S (w_ext w) = (e, x)" by (cases "svc_pg S (w_ext w)")
  then have "e_fault e = Fine" using assms(1) by (auto simp: pg_always_def dest: spec [of _ "w_ext w"])
  with pg show ?thesis
    using assms(2,3) by (auto simp: post_def run_sql exec_stmt_def split: option.splits)
qed

lemma post_crash: "Q () (w\<lparr>w_crashed := True\<rparr>) \<Longrightarrow> post crash Q w"
  by (simp add: post_def)

lemma post_query: "(\<And>r x. Q r (w\<lparr>w_ext := x\<rparr>)) \<Longrightarrow> post (sql_query S q) Q w"
  by (auto simp: post_def run_sql_query split: prod.splits)

lemma post_if: "(c \<Longrightarrow> post a Q w) \<Longrightarrow> (\<not> c \<Longrightarrow> post b Q w) \<Longrightarrow> post (if c then a else b) Q w"
  by simp

lemma post_option:
  "(v = None \<Longrightarrow> post a Q w) \<Longrightarrow> (\<And>x. v = Some x \<Longrightarrow> post (f x) Q w) \<Longrightarrow>
     post (case v of None \<Rightarrow> a | Some x \<Rightarrow> f x) Q w"
  by (cases v) auto

lemma post_sum:
  "(\<And>x. v = Inl x \<Longrightarrow> post (f x) Q w) \<Longrightarrow> (\<And>y. v = Inr y \<Longrightarrow> post (g y) Q w) \<Longrightarrow>
     post (case v of Inl x \<Rightarrow> f x | Inr y \<Rightarrow> g y) Q w"
  by (cases v) auto

lemma post_prod: "(\<And>x y. v = (x, y) \<Longrightarrow> post (f x y) Q w) \<Longrightarrow> post (case v of (x, y) \<Rightarrow> f x y) Q w"
  by (cases v) auto

lemmas post_flow = post_return post_bind post_ext post_query post_if post_option post_sum post_prod

end
