(* ===== verification/Http.thy ===== *)
theory Http
  imports Services
begin

text \<open>
  What a handler sees of a request and what it answers. gin (a library) is not modelled: a request
  is the values its accessors return, the keys of the context are a map, and a middleware is
  a function of the rest of its chain, which is what \<open>c.Next()\<close> runs.
\<close>

section \<open>Requests\<close>

text \<open>An uploaded file: the \<open>Content-Type\<close> of its part and what \<open>io.ReadAll\<close> gives.\<close>

record upload =
  up_ctype :: string
  up_data :: "string option"

record request =
  rq_method :: string
  rq_path :: string
  rq_rawquery :: string
  rq_route :: string                        \<comment> \<open>\<open>c.FullPath()\<close>, the route's template\<close>
  rq_param :: "string \<Rightarrow> string"             \<comment> \<open>\<open>c.Param\<close>, empty when absent\<close>
  rq_query :: "string \<Rightarrow> string option"      \<comment> \<open>the query parameters\<close>
  rq_header :: "string \<Rightarrow> string"            \<comment> \<open>\<open>c.GetHeader\<close>, empty when absent\<close>
  rq_cookie :: "string \<Rightarrow> string option"
  rq_form :: "string \<Rightarrow> string"              \<comment> \<open>\<open>c.PostForm\<close>, empty when absent\<close>
  rq_file :: "string \<Rightarrow> upload option"       \<comment> \<open>\<open>c.Request.FormFile\<close>\<close>
  rq_json :: "(string \<times> json) list option"  \<comment> \<open>the body, \<^term>\<open>None\<close> when it is not a JSON object\<close>
  rq_bind_err :: string                     \<comment> \<open>the text of the binding library's error\<close>
  rq_ip :: string                           \<comment> \<open>\<open>c.ClientIP()\<close>\<close>

record gin_ctx =
  cx_req :: request
  cx_keys :: "string \<Rightarrow> json option"

definition query_or_empty :: "gin_ctx \<Rightarrow> string \<Rightarrow> string" where
  "query_or_empty cx k = (case rq_query (cx_req cx) k of None \<Rightarrow> '''' | Some v \<Rightarrow> v)"

definition default_query :: "gin_ctx \<Rightarrow> string \<Rightarrow> string \<Rightarrow> string" where
  "default_query cx k v = (case rq_query (cx_req cx) k of None \<Rightarrow> v | Some q \<Rightarrow> q)"

abbreviation param :: "gin_ctx \<Rightarrow> string \<Rightarrow> string" where
  "param cx k \<equiv> rq_param (cx_req cx) k"

text \<open>\<open>v, _ := c.Get(k); s, _ := v.(string)\<close>: empty unless the key holds a string.\<close>

definition string_key :: "(string \<Rightarrow> json option) \<Rightarrow> string \<Rightarrow> string" where
  "string_key keys k = (case keys k of Some (JStr s) \<Rightarrow> s | _ \<Rightarrow> '''')"

abbreviation key_string :: "gin_ctx \<Rightarrow> string \<Rightarrow> string" where
  "key_string cx k \<equiv> string_key (cx_keys cx) k"

text \<open>A string field of a bound struct: absent or \<open>null\<close> leaves it empty, another type is an error.\<close>

fun bind_string :: "(string \<times> json) list \<Rightarrow> string \<Rightarrow> string \<Rightarrow> string option" where
  "bind_string [] tag old = Some old"
| "bind_string ((k, j) # kvs) tag old =
     (if key_eq k tag then (case dec_str j old of None \<Rightarrow> None | Some s \<Rightarrow> bind_string kvs tag s)
      else bind_string kvs tag old)"

fun bind_int :: "(string \<times> json) list \<Rightarrow> string \<Rightarrow> int \<Rightarrow> int option" where
  "bind_int [] tag old = Some old"
| "bind_int ((k, j) # kvs) tag old =
     (if key_eq k tag then (case dec_int j old of None \<Rightarrow> None | Some s \<Rightarrow> bind_int kvs tag s)
      else bind_int kvs tag old)"

text \<open>\<open>ShouldBindJSON\<close> into a struct with one string field that is \<open>required\<close>.\<close>

definition bind_required :: "gin_ctx \<Rightarrow> string \<Rightarrow> string option" where
  "bind_required cx tag = (case rq_json (cx_req cx) of
      None \<Rightarrow> None
    | Some kvs \<Rightarrow> (case bind_string kvs tag '''' of None \<Rightarrow> None | Some s \<Rightarrow> if s = '''' then None else Some s))"

lemma bind_required_nonempty: "bind_required cx tag = Some s \<Longrightarrow> s \<noteq> ''''"
  by (auto simp: bind_required_def split: option.splits if_splits)

section \<open>Answers\<close>

datatype body = JSON json | NoBody | Location string

text \<open>
  What the client is sent: a status with a body, or a panic before anything was written, or a panic
  after the answer was written. A status without a body is written only when the whole chain has
  returned, so a panic of an outer middleware replaces it.
\<close>

datatype reply = Reply nat body | Panicked | Panicked_after nat body

definition panicking :: "reply \<Rightarrow> bool" where
  "panicking r = (case r of Reply _ _ \<Rightarrow> False | _ \<Rightarrow> True)"

definition late_panic :: "reply \<Rightarrow> reply" where
  "late_panic r = (case r of Reply n b \<Rightarrow> (if b = NoBody then Panicked else Panicked_after n b) | _ \<Rightarrow> r)"

definition apiError :: "string \<Rightarrow> json" where
  "apiError msg = JObj [(''error'', JStr msg)]"

definition fail_with :: "nat \<Rightarrow> string \<Rightarrow> ('x, reply) run" where
  "fail_with code msg = State_Monad.return (Reply code (JSON (apiError msg)))"

definition ok_json :: "nat \<Rightarrow> json \<Rightarrow> ('x, reply) run" where
  "ok_json code j = State_Monad.return (Reply code (JSON j))"

definition no_content :: "('x, reply) run" where
  "no_content = State_Monad.return (Reply 204 NoBody)"

lemma run_fail_with [simp]: "run_state (fail_with c m) w = (Reply c (JSON (apiError m)), w)"
  by (simp add: fail_with_def)

lemma run_ok_json [simp]: "run_state (ok_json c j) w = (Reply c (JSON j), w)"
  by (simp add: ok_json_def)

lemma run_no_content [simp]: "run_state no_content w = (Reply 204 NoBody, w)"
  by (simp add: no_content_def)

context db_relation
begin

lemma stays_fail_with: "stays R (fail_with c m)"
  unfolding fail_with_def by (rule stays_return)

lemma stays_ok_json: "stays R (ok_json c j)"
  unfolding ok_json_def by (rule stays_return)

lemma stays_no_content: "stays R no_content"
  unfolding no_content_def by (rule stays_return)

lemmas handler_rules = stays_rules stays_fail_with stays_ok_json stays_no_content

end

section \<open>Wrappers around the services\<close>

text \<open>
  \<open>storage.Storage\<close> is a bucket with two clients; \<open>cache.Redis\<close> passes keys and values through;
  \<open>queue.Producer\<close> marshals and produces synchronously. A handler's struct holds a nil pointer
  for a service that the environment does not configure.
\<close>

record storage =
  st_bucket :: string

record app =
  app_store :: "storage option"
  app_producer :: bool

definition storage_Upload ::
    "'x services \<Rightarrow> storage \<Rightarrow> string \<Rightarrow> string \<Rightarrow> string \<Rightarrow> ('x, bool) run" where
  "storage_Upload S st key data ctype = ext_call (\<lambda>x. svc_put S x (st_bucket st) key data ctype)"

definition storage_Download :: "'x services \<Rightarrow> storage \<Rightarrow> string \<Rightarrow> ('x, string option) run" where
  "storage_Download S st key = ext_call (\<lambda>x. svc_get S x (st_bucket st) key)"

definition storage_PresignedURL ::
    "'x services \<Rightarrow> storage \<Rightarrow> string \<Rightarrow> int \<Rightarrow> ('x, string option) run" where
  "storage_PresignedURL S st key ttl = ext_call (\<lambda>x. svc_presign S x (st_bucket st) key ttl)"

definition cache_Get :: "'x services \<Rightarrow> string \<Rightarrow> ('x, doc option) run" where
  "cache_Get S key = ext_call (\<lambda>x. svc_cache_get S x key)"

definition cache_Set :: "'x services \<Rightarrow> string \<Rightarrow> doc \<Rightarrow> int \<Rightarrow> ('x, unit) run" where
  "cache_Set S key v ttl = ext_call (\<lambda>x. ((), svc_cache_set S x key v ttl))"

text \<open>\<^term>\<open>True\<close> when \<open>ProduceSync\<close> reports no error.\<close>

definition queue_Publish :: "'x services \<Rightarrow> string \<Rightarrow> string \<Rightarrow> json \<Rightarrow> ('x, bool) run" where
  "queue_Publish S topic key payload = ext_call (\<lambda>x. svc_produce S x topic key payload)"

lemmas service_defs = storage_Upload_def storage_Download_def storage_PresignedURL_def
  cache_Get_def cache_Set_def queue_Publish_def

end
