(* ===== verification/Jwt.thy ===== *)
theory Jwt
  imports Http
begin

text \<open>
  \<open>internal/middleware/jwt.go\<close>: token extraction, verification and the middlewares \<open>RequireAuth\<close>,
  \<open>RequireRole\<close> and \<open>OptionalAuth\<close>. The JWT library is a parameter: \<open>jw_parse\<close> is \<open>jwt.Parse\<close> with the
  key function and the allowed methods the code passes to it, \<open>jw_sign\<close> is \<open>SignedString\<close>.
\<close>

section \<open>Middlewares\<close>

text \<open>
  What a chain leaves behind: the headers set on the way, in order, the reply, and the keys of the
  context, which the outer middlewares read after \<open>c.Next()\<close>.
\<close>

record outcome =
  out_headers :: "(string \<times> string) list"
  out_reply :: reply
  out_keys :: "string \<Rightarrow> json option"

type_synonym 'x chain = "gin_ctx \<Rightarrow> ('x, outcome) run"

definition finish :: "(gin_ctx \<Rightarrow> ('x, reply) run) \<Rightarrow> 'x chain" where
  "finish h cx = do {
     r \<leftarrow> h cx;
     State_Monad.return \<lparr>out_headers = [], out_reply = r, out_keys = cx_keys cx\<rparr>
   }"

definition abort_with :: "gin_ctx \<Rightarrow> reply \<Rightarrow> ('x, outcome) run" where
  "abort_with cx r = State_Monad.return \<lparr>out_headers = [], out_reply = r, out_keys = cx_keys cx\<rparr>"

definition abort_json :: "gin_ctx \<Rightarrow> nat \<Rightarrow> json \<Rightarrow> ('x, outcome) run" where
  "abort_json cx code j = abort_with cx (Reply code (JSON j))"

definition with_header :: "string \<Rightarrow> string \<Rightarrow> ('x, outcome) run \<Rightarrow> ('x, outcome) run" where
  "with_header k v m = do { r \<leftarrow> m; State_Monad.return (r\<lparr>out_headers := (k, v) # out_headers r\<rparr>) }"

definition set_key :: "string \<Rightarrow> json \<Rightarrow> gin_ctx \<Rightarrow> gin_ctx" where
  "set_key k v cx = cx\<lparr>cx_keys := (cx_keys cx)(k \<mapsto> v)\<rparr>"

text \<open>The value of a header: the last one set wins.\<close>

definition header_value :: "outcome \<Rightarrow> string \<Rightarrow> string option" where
  "header_value r k = map_of (rev (out_headers r)) k"

lemma run_abort_with [simp]:
  "run_state (abort_with cx r) w = (\<lparr>out_headers = [], out_reply = r, out_keys = cx_keys cx\<rparr>, w)"
  by (simp add: abort_with_def)

lemma run_abort_json [simp]:
  "run_state (abort_json cx c j) w =
     (\<lparr>out_headers = [], out_reply = Reply c (JSON j), out_keys = cx_keys cx\<rparr>, w)"
  by (simp add: abort_json_def)

section \<open>The JWT library\<close>

datatype jwt_method = HMAC string | Other_method string

record jwt_token =
  tk_valid :: bool
  tk_claims :: "(string \<rightharpoonup> json) option"   \<comment> \<open>\<^term>\<open>None\<close> when the claims are not \<open>jwt.MapClaims\<close>\<close>

record 'x crypto =
  bc_hash :: "'x \<Rightarrow> string \<Rightarrow> string option \<times> 'x"
  bc_check :: "string \<Rightarrow> string \<Rightarrow> bool"
  jw_sign :: "(string \<times> json) list \<Rightarrow> string \<Rightarrow> string option"
  jw_parse :: "instant \<Rightarrow> string \<Rightarrow> (jwt_method \<Rightarrow> string option) \<Rightarrow> string list \<Rightarrow> jwt_token option \<times> bool"
  em_valid :: "string \<Rightarrow> bool"

section \<open>Tokens\<close>

definition extractToken :: "request \<Rightarrow> string" where
  "extractToken rq = (let h = rq_header rq ''Authorization'' in
     if has_prefix h ''Bearer '' then trim_prefix h ''Bearer ''
     else (case rq_cookie rq ''token'' of Some v \<Rightarrow> v | None \<Rightarrow> ''''))"

definition key_func :: "string \<Rightarrow> jwt_method \<Rightarrow> string option" where
  "key_func secret m = (case m of HMAC _ \<Rightarrow> Some secret | Other_method _ \<Rightarrow> None)"

text \<open>
  The claims and whether an error is returned. A token that is neither an error nor valid gives nil
  claims and no error, as the code's \<open>return nil, err\<close> does.
\<close>

definition parseToken :: "'x crypto \<Rightarrow> instant \<Rightarrow> string \<Rightarrow> string \<Rightarrow> (string \<rightharpoonup> json) \<times> bool" where
  "parseToken C now tok secret =
     (case jw_parse C now tok (key_func secret) [''HS256''] of (token, err) \<Rightarrow>
        if err then (Map.empty, True)
        else (case token of
            None \<Rightarrow> (Map.empty, False)
          | Some t \<Rightarrow>
              if \<not> tk_valid t then (Map.empty, False)
              else (case tk_claims t of None \<Rightarrow> (Map.empty, True) | Some c \<Rightarrow> (c, False))))"

text \<open>Indexing a Go map: an absent claim is nil.\<close>

definition claim :: "(string \<rightharpoonup> json) \<Rightarrow> string \<Rightarrow> json" where
  "claim c k = (case c k of None \<Rightarrow> JNull | Some j \<Rightarrow> j)"

definition set_identity :: "(string \<rightharpoonup> json) \<Rightarrow> gin_ctx \<Rightarrow> gin_ctx" where
  "set_identity c cx = set_key ''user_role'' (claim c ''role'') (set_key ''user_name'' (claim c ''name'')
     (set_key ''user_email'' (claim c ''email'') (set_key ''user_id'' (claim c ''user_id'') cx)))"

section \<open>The middlewares\<close>

definition RequireAuth :: "'x services \<Rightarrow> 'x crypto \<Rightarrow> string \<Rightarrow> 'x chain \<Rightarrow> 'x chain" where
  "RequireAuth S C secret nxt cx = (let tok = extractToken (cx_req cx) in
     if tok = '''' then abort_json cx 401 (apiError ''authentication required'')
     else do {
       now \<leftarrow> ext_call (svc_clock S);
       (case parseToken C now tok secret of (c, err) \<Rightarrow>
          if err then abort_json cx 401 (apiError ''invalid or expired token'')
          else nxt (set_identity c cx))
     })"

definition RequireRole :: "string \<Rightarrow> 'x chain \<Rightarrow> 'x chain" where
  "RequireRole role nxt cx =
     (if cx_keys cx ''user_role'' \<noteq> Some (JStr role) then abort_json cx 403 (apiError ''forbidden'')
      else nxt cx)"

definition OptionalAuth :: "'x services \<Rightarrow> 'x crypto \<Rightarrow> string \<Rightarrow> 'x chain \<Rightarrow> 'x chain" where
  "OptionalAuth S C secret nxt cx = (let tok = extractToken (cx_req cx) in
     if tok = '''' then nxt cx
     else do {
       now \<leftarrow> ext_call (svc_clock S);
       (case parseToken C now tok secret of (c, err) \<Rightarrow> nxt (if err then cx else set_identity c cx))
     })"

section \<open>Facts\<close>

text \<open>
  What the library documents: \<open>jwt.Parse\<close> without an error gives a token that is valid, and it gives
  no error only when the signature verifies under the key that the key function returned.
\<close>

definition jwt_sound :: "'x crypto \<Rightarrow> (instant \<Rightarrow> string \<Rightarrow> string \<Rightarrow> bool) \<Rightarrow> bool" where
  "jwt_sound C verified \<longleftrightarrow> (\<forall>now tok kf ms token. jw_parse C now tok kf ms = (token, False) \<longrightarrow>
     (\<exists>t m. token = Some t \<and> tk_valid t \<and> (case kf m of Some k \<Rightarrow> verified now tok k | None \<Rightarrow> False)))"

lemma parseToken_verified:
  assumes "jwt_sound C verified" and "parseToken C now tok secret = (c, False)"
  shows "verified now tok secret"
proof -
  obtain token where p: "jw_parse C now tok (key_func secret) [''HS256''] = (token, False)"
    using assms(2) by (auto simp: parseToken_def split: prod.splits if_splits)
  with assms(1) obtain t m where
    "case key_func secret m of Some k \<Rightarrow> verified now tok k | None \<Rightarrow> False"
    unfolding jwt_sound_def by blast
  then show ?thesis by (auto simp: key_func_def split: option.splits jwt_method.splits)
qed

lemma set_identity_keys [simp]:
  "cx_keys (set_identity c cx) ''user_id'' = Some (claim c ''user_id'')"
  "cx_keys (set_identity c cx) ''user_role'' = Some (claim c ''role'')"
  "cx_req (set_identity c cx) = cx_req cx"
  by (simp_all add: set_identity_def set_key_def)

context db_relation
begin

lemma stays_finish: "(\<And>cx. stays R (h cx)) \<Longrightarrow> stays R (finish h cx)"
  unfolding finish_def by (intro handler_rules) auto

lemma stays_abort_with: "stays R (abort_with cx r)"
  unfolding abort_with_def by (intro handler_rules)

lemma stays_abort_json: "stays R (abort_json cx c j)"
  unfolding abort_json_def by (rule stays_abort_with)

lemma stays_with_header: "stays R m \<Longrightarrow> stays R (with_header k v m)"
  unfolding with_header_def by (intro handler_rules)

lemma stays_RequireAuth: "(\<And>cx. stays R (nxt cx)) \<Longrightarrow> stays R (RequireAuth S C secret nxt cx)"
  unfolding RequireAuth_def Let_def by (intro handler_rules stays_abort_json) auto

lemma stays_RequireRole: "(\<And>cx. stays R (nxt cx)) \<Longrightarrow> stays R (RequireRole role nxt cx)"
  unfolding RequireRole_def by (intro handler_rules stays_abort_json) auto

lemma stays_OptionalAuth: "(\<And>cx. stays R (nxt cx)) \<Longrightarrow> stays R (OptionalAuth S C secret nxt cx)"
  unfolding OptionalAuth_def Let_def by (intro handler_rules) auto

lemmas middleware_rules = handler_rules stays_finish stays_abort_with stays_abort_json stays_with_header
  stays_RequireAuth stays_RequireRole stays_OptionalAuth

end

end
