(* ===== verification/Observe.thy ===== *)
theory Observe
  imports Jwt
begin

text \<open>
  \<open>internal/middleware/requestid.go\<close>, \<open>zap_logger.go\<close>, \<open>prometheus.go\<close> and
  \<open>security_headers.go\<close>: the middlewares every request passes, and \<open>CORS\<close>. The environment
  variable \<open>ALLOWED_ORIGINS\<close> is an argument (empty when unset). gin's recovery and the tracing
  middleware are libraries: fields of \<open>engine\<close>.
\<close>

section \<open>Request id\<close>

definition HeaderRequestID :: string where
  "HeaderRequestID = ''X-Request-ID''"

definition RequestID :: "'x services \<Rightarrow> 'x chain \<Rightarrow> 'x chain" where
  "RequestID S nxt cx = do {
     i \<leftarrow> (let h = rq_header (cx_req cx) HeaderRequestID in
            if h = '''' then ext_call (svc_uuid_new S) else State_Monad.return h);
     with_header HeaderRequestID i (nxt (set_key ''request_id'' (JStr i) cx))
   }"

section \<open>The request log\<close>

text \<open>zap's levels that are used, in their order.\<close>

datatype zap_level = InfoLevel | WarnLevel | ErrorLevel

primrec level_number :: "zap_level \<Rightarrow> nat" where
  "level_number InfoLevel = 0"
| "level_number WarnLevel = 1"
| "level_number ErrorLevel = 2"

lemma level_number_inj [simp]: "level_number a = level_number b \<longleftrightarrow> a = b"
  by (cases a; cases b) auto

instantiation zap_level :: linorder
begin

definition less_eq_zap_level :: "zap_level \<Rightarrow> zap_level \<Rightarrow> bool" where
  "less_eq_zap_level a b \<longleftrightarrow> level_number a \<le> level_number b"

definition less_zap_level :: "zap_level \<Rightarrow> zap_level \<Rightarrow> bool" where
  "less_zap_level a b \<longleftrightarrow> level_number a < level_number b"

instance
  by standard (auto simp: less_eq_zap_level_def less_zap_level_def)

end

definition log_level :: "nat \<Rightarrow> zap_level" where
  "log_level status = (if 500 \<le> status then ErrorLevel else if 400 \<le> status then WarnLevel else InfoLevel)"

text \<open>
  The fields of a line, in order. The latency is the difference of two clock readings. No handler
  adds an error to gin's context, so the field \<open>error\<close> never appears. \<open>sp\<close> is the trace's pair of
  ids when the request has a valid span.
\<close>

definition log_fields ::
    "request \<Rightarrow> nat \<Rightarrow> int \<Rightarrow> string \<Rightarrow> string option \<Rightarrow> (string \<times> string) option \<Rightarrow> (string \<times> string) list" where
  "log_fields rq status latency rid uid sp =
     [(''status'', itoa (int status)), (''method'', rq_method rq), (''path'', rq_path rq),
      (''latency'', itoa latency), (''latency_ms'', itoa (latency div 10 ^ 6)),
      (''ip'', rq_ip rq), (''user_agent'', rq_header rq ''User-Agent'')] @
     (if rq_rawquery rq = '''' then [] else [(''query'', rq_rawquery rq)]) @
     (if rid = '''' then [] else [(''request_id'', rid)]) @
     (case uid of Some u \<Rightarrow> [(''user_id'', u)] | None \<Rightarrow> []) @
     (case sp of Some (t, s) \<Rightarrow> [(''trace_id'', t), (''span_id'', s)] | None \<Rightarrow> [])"

definition reply_status :: "reply \<Rightarrow> nat" where
  "reply_status r = (case r of Reply n _ \<Rightarrow> n | Panicked \<Rightarrow> 200 | Panicked_after n _ \<Rightarrow> n)"

text \<open>
  A panic of the chain unwinds before the line is written. \<open>uid.(string)\<close> panics when the key
  \<open>user_id\<close> holds something else, which a token without the claim puts there.
\<close>

definition ZapLogger ::
    "'x services \<Rightarrow> (gin_ctx \<Rightarrow> (string \<times> string) option) \<Rightarrow> 'x chain \<Rightarrow> 'x chain" where
  "ZapLogger S sp nxt cx = do {
     start \<leftarrow> ext_call (svc_clock S);
     out \<leftarrow> nxt cx;
     (if panicking (out_reply out) then State_Monad.return out
      else do {
        now \<leftarrow> ext_call (svc_clock S);
        let status = reply_status (out_reply out);
        let line = (\<lambda>uid. log_line (level_number (log_level status))
              (log_fields (cx_req cx) status (now - start) (string_key (out_keys out) ''request_id'') uid (sp cx)));
        (case out_keys out ''user_id'' of
           None \<Rightarrow> do { line None; State_Monad.return out }
         | Some v \<Rightarrow>
             (if v = JStr '''' then do { line None; State_Monad.return out }
              else (case v of
                  JStr u \<Rightarrow> do { line (Some u); State_Monad.return out }
                | _ \<Rightarrow> State_Monad.return (out\<lparr>out_reply := late_panic (out_reply out)\<rparr>))))
      })
   }"

section \<open>Metrics\<close>

text \<open>The counter with its three labels, then the histogram with the seconds the request took.\<close>

definition PrometheusMetrics :: "'x services \<Rightarrow> 'x chain \<Rightarrow> 'x chain" where
  "PrometheusMetrics S nxt cx = do {
     start \<leftarrow> ext_call (svc_clock S);
     out \<leftarrow> nxt cx;
     (if panicking (out_reply out) then State_Monad.return out
      else do {
        let status = itoa (int (reply_status (out_reply out)));
        let path = (if rq_route (cx_req cx) = '''' then ''unknown'' else rq_route (cx_req cx));
        now \<leftarrow> ext_call (svc_clock S);
        inc_metric (RequestsTotal (rq_method (cx_req cx)) path status);
        inc_metric (RequestDuration (rq_method (cx_req cx)) path (of_int (now - start) / 10 ^ 9));
        State_Monad.return out
      })
   }"

section \<open>Security headers\<close>

definition getAllowedOrigin :: "string \<Rightarrow> string" where
  "getAllowedOrigin ao = (if ao \<noteq> '''' then trim_space (hd (split_on (CHR '','') ao))
     else ''http://localhost:3000 http://localhost:3001'')"

definition quoted :: "string \<Rightarrow> string" where
  "quoted s = CHR 0x27 # s @ [CHR 0x27]"

definition csp_directives :: "string \<Rightarrow> string list" where
  "csp_directives ao = (let self = quoted ''self'' in
     [''default-src '' @ self, ''script-src '' @ self,
      ''style-src '' @ self @ '' '' @ quoted ''unsafe-inline'',
      ''img-src '' @ self @ '' data: blob:'', ''media-src '' @ self @ '' blob:'',
      ''connect-src '' @ self @ '' '' @ getAllowedOrigin ao, ''font-src '' @ self,
      ''object-src '' @ quoted ''none'', ''base-uri '' @ self, ''frame-ancestors '' @ quoted ''none''])"

definition buildCSP :: "string \<Rightarrow> string" where
  "buildCSP ao = join_with ''; '' (csp_directives ao)"

definition SecurityHeaders :: "string \<Rightarrow> 'x chain \<Rightarrow> 'x chain" where
  "SecurityHeaders ao nxt cx =
     with_header ''X-Content-Type-Options'' ''nosniff''
       (with_header ''X-Frame-Options'' ''DENY''
         (with_header ''X-XSS-Protection'' ''1; mode=block''
           (with_header ''Strict-Transport-Security'' ''max-age=31536000; includeSubDomains''
             (with_header ''Content-Security-Policy'' (buildCSP ao)
               (with_header ''Referrer-Policy'' ''strict-origin-when-cross-origin''
                 (with_header ''Permissions-Policy'' ''camera=(), microphone=(), geolocation=()'' (nxt cx)))))))"

section \<open>CORS\<close>

definition isAllowedOrigin :: "string \<Rightarrow> string \<Rightarrow> bool" where
  "isAllowedOrigin ao origin =
     (if origin = '''' then False
      else if ao = '''' then has_prefix origin ''http://localhost'' \<or> has_prefix origin ''https://localhost''
      else list_ex (\<lambda>allowed. trim_space allowed = origin) (split_on (CHR '','') ao))"

definition CORS :: "string \<Rightarrow> 'x chain \<Rightarrow> 'x chain" where
  "CORS ao nxt cx = (let origin = rq_header (cx_req cx) ''Origin'';
       rest = with_header ''Access-Control-Allow-Methods'' ''GET, POST, PUT, DELETE, OPTIONS''
         (with_header ''Access-Control-Allow-Headers'' ''Content-Type, Authorization, X-Request-ID''
           (with_header ''Access-Control-Max-Age'' ''86400''
             (with_header ''Access-Control-Allow-Credentials'' ''false''
               (if rq_method (cx_req cx) = ''OPTIONS'' then abort_with cx (Reply 204 NoBody) else nxt cx))))
     in if isAllowedOrigin ao origin
        then with_header ''Access-Control-Allow-Origin'' origin (with_header ''Vary'' ''Origin'' rest)
        else rest)"

section \<open>The engine\<close>

text \<open>
  What gin documents of its recovery: a panic becomes status 500, unless the answer has been
  written, and nothing else changes. The tracing middleware is transparent for what is modelled.
\<close>

record 'x engine =
  en_recover :: "outcome \<Rightarrow> outcome"
  en_trace :: "'x chain \<Rightarrow> 'x chain"
  en_span :: "gin_ctx \<Rightarrow> (string \<times> string) option"
  en_unrouted :: "'x chain"    \<comment> \<open>gin's answer where no route matches\<close>

definition recovered :: "reply \<Rightarrow> reply" where
  "recovered r = (case r of Reply n b \<Rightarrow> Reply n b | Panicked \<Rightarrow> Reply 500 NoBody | Panicked_after n b \<Rightarrow> Reply n b)"

definition engine_ok :: "'x engine \<Rightarrow> bool" where
  "engine_ok E \<longleftrightarrow> (\<forall>out. en_recover E out = out\<lparr>out_reply := recovered (out_reply out)\<rparr>) \<and>
     (\<forall>nxt. en_trace E nxt = nxt) \<and>
     (\<forall>cx w. w_db (snd (run_state (en_unrouted E cx) w)) = w_db w)"

text \<open>The stack that \<open>main\<close> installs, outermost first.\<close>

definition stack :: "'x services \<Rightarrow> 'x engine \<Rightarrow> string \<Rightarrow> 'x chain \<Rightarrow> 'x chain" where
  "stack S E ao h cx = do {
     out \<leftarrow> en_trace E (RequestID S (ZapLogger S (en_span E) (SecurityHeaders ao (PrometheusMetrics S h)))) cx;
     State_Monad.return (en_recover E out)
   }"

context db_relation
begin

lemma stays_RequestID: "(\<And>cx. stays R (nxt cx)) \<Longrightarrow> stays R (RequestID S nxt cx)"
  unfolding RequestID_def Let_def by (intro middleware_rules) auto

lemma stays_ZapLogger: "(\<And>cx. stays R (nxt cx)) \<Longrightarrow> stays R (ZapLogger S sp nxt cx)"
  unfolding ZapLogger_def Let_def by (auto intro!: middleware_rules split: option.split json.split)

lemma stays_PrometheusMetrics: "(\<And>cx. stays R (nxt cx)) \<Longrightarrow> stays R (PrometheusMetrics S nxt cx)"
  unfolding PrometheusMetrics_def Let_def by (intro middleware_rules) auto

lemma stays_SecurityHeaders: "(\<And>cx. stays R (nxt cx)) \<Longrightarrow> stays R (SecurityHeaders ao nxt cx)"
  unfolding SecurityHeaders_def by (intro middleware_rules)

lemma stays_stack:
  assumes "engine_ok E" and "\<And>cx. stays R (h cx)"
  shows "stays R (stack S E ao h cx)"
proof -
  have "en_trace E nxt = nxt" for nxt using assms(1) by (simp add: engine_ok_def)
  then show ?thesis
    unfolding stack_def
    by (auto intro!: middleware_rules stays_RequestID stays_ZapLogger stays_SecurityHeaders
        stays_PrometheusMetrics assms(2))
qed

end

section \<open>Headers of every answer\<close>

lemma run_with_header:
  "run_state (with_header k v m) w =
     (case run_state m w of (r, w') \<Rightarrow> (r\<lparr>out_headers := (k, v) # out_headers r\<rparr>, w'))"
  by (simp add: with_header_def)

lemma with_header_kept:
  "(k', v') \<in> set (out_headers (fst (run_state m w))) \<Longrightarrow>
     (k', v') \<in> set (out_headers (fst (run_state (with_header k v m) w)))"
  by (cases "run_state m w") (simp add: run_with_header)

lemma log_level_cases:
  "log_level n = ErrorLevel \<longleftrightarrow> 500 \<le> n"
  "log_level n = WarnLevel \<longleftrightarrow> 400 \<le> n \<and> n < 500"
  "log_level n = InfoLevel \<longleftrightarrow> n < 400"
  by (auto simp: log_level_def)

lemma log_level_mono: "m \<le> n \<Longrightarrow> log_level m \<le> log_level n"
  by (auto simp: log_level_def less_eq_zap_level_def)

end
