(* ===== verification/Rate_Limit.thy ===== *)
theory Rate_Limit
  imports Jwt
begin

text \<open>
  \<open>internal/middleware/ratelimit.go\<close> and \<open>interview-prep/rate-limiter/main.go\<close>: the two Lua token
  buckets, the middlewares \<open>LoginRateLimit\<close> and \<open>StreamRateLimit\<close> and the demo's \<open>Allow\<close>. Lua's and
  Go's floats are exact rationals: rounding is not modelled. Redis runs a script atomically
  (\<^const>\<open>svc_eval\<close>, a parameter).
\<close>

section \<open>The scripts\<close>

definition stream_script :: "rat \<Rightarrow> rat \<Rightarrow> rat \<Rightarrow> rat \<Rightarrow> script" where
  "stream_script max_tokens refill_rate now requested data =
     (let tokens = (case fst data of None \<Rightarrow> max_tokens | Some v \<Rightarrow> v);
          last_refill = (case snd data of None \<Rightarrow> now | Some v \<Rightarrow> v);
          elapsed = max 0 (now - last_refill);
          new_tokens = min max_tokens (tokens + elapsed * refill_rate)
      in if new_tokens \<ge> requested
         then \<lparr>sc_reply = [1], sc_write = Some (new_tokens - requested, now), sc_expire = Some 7200\<rparr>
         else \<lparr>sc_reply = [0], sc_write = Some (new_tokens, now), sc_expire = Some 7200\<rparr>)"

text \<open>
  The demo's script writes nothing when it denies, and does not clamp the elapsed time. Lua's
  division by a zero rate is an infinity; the results here speak of a positive rate.
\<close>

definition demo_script :: "rat \<Rightarrow> rat \<Rightarrow> rat \<Rightarrow> rat \<Rightarrow> script" where
  "demo_script max_tokens refill_rate now cost data =
     (let tokens0 = (case fst data of None \<Rightarrow> max_tokens | Some v \<Rightarrow> v);
          last_refill = (case snd data of None \<Rightarrow> now | Some v \<Rightarrow> v);
          elapsed = now - last_refill;
          tokens = min max_tokens (tokens0 + elapsed * refill_rate)
      in if tokens < cost
         then \<lparr>sc_reply = [0, \<lceil>(cost - tokens) / refill_rate\<rceil>], sc_write = None, sc_expire = None\<rparr>
         else \<lparr>sc_reply = [1, 0], sc_write = Some (tokens - cost, now),
               sc_expire = Some (\<lceil>max_tokens / refill_rate\<rceil> * 2)\<rparr>)"

section \<open>The demo's \<open>Allow\<close>\<close>

definition seconds_of :: "instant \<Rightarrow> rat" where
  "seconds_of t = of_int t / 10 ^ 9"

record allow_result =
  al_allowed :: bool
  al_retry :: int       \<comment> \<open>in nanoseconds\<close>

text \<open>\<^term>\<open>None\<close> is the error return; a reply with fewer values than are read panics (also \<^term>\<open>None\<close>).\<close>

definition demo_Allow :: "'x services \<Rightarrow> string \<Rightarrow> int \<Rightarrow> int \<Rightarrow> int \<Rightarrow> ('x, allow_result option) run" where
  "demo_Allow S key maxTokens refillRate cost = do {
     now \<leftarrow> ext_call (svc_clock S);
     res \<leftarrow> ext_call (\<lambda>x. svc_eval S x key
       (demo_script (of_int maxTokens) (of_int refillRate) (seconds_of now) (of_int cost)));
     State_Monad.return (case res of
        Some (a # rest) \<Rightarrow>
          if a = 1 then Some \<lparr>al_allowed = True, al_retry = 0\<rparr>
          else (case rest of n # _ \<Rightarrow> Some \<lparr>al_allowed = False, al_retry = n * 10 ^ 9\<rparr> | [] \<Rightarrow> None)
      | _ \<Rightarrow> None)
   }"

section \<open>\<open>StreamRateLimit\<close>\<close>

definition stream_key :: "string \<Rightarrow> string" where
  "stream_key ip = ''ratelimit:stream:'' @ ip"

definition StreamRateLimit :: "'x services \<Rightarrow> int \<Rightarrow> 'x chain \<Rightarrow> 'x chain" where
  "StreamRateLimit S maxPerHour nxt cx =
     (if rq_header (cx_req cx) ''X-User-ID'' \<noteq> '''' then do {
        inc_metric (RateLimitDecisions ''allowed_auth'');
        nxt cx
      }
      else do {
        now \<leftarrow> ext_call (svc_clock S);
        res \<leftarrow> ext_call (\<lambda>x. svc_eval S x (stream_key (rq_ip (cx_req cx)))
          (stream_script (of_int maxPerHour) (of_int maxPerHour / 3600) (seconds_of now) 1));
        (case res of
           Some [n] \<Rightarrow>
             (if n = 0 then do {
                inc_metric (RateLimitDecisions ''denied'');
                with_header ''X-RateLimit-Limit'' (itoa maxPerHour @ ''/hour'')
                  (abort_json cx 429 (apiError ''rate limit exceeded: 100 streams per hour for unauthenticated requests''))
              }
              else do { inc_metric (RateLimitDecisions ''allowed''); nxt cx })
         | _ \<Rightarrow> do { inc_metric (RateLimitDecisions ''allowed_redis_error''); nxt cx })
      })"

section \<open>\<open>LoginRateLimit\<close>\<close>

definition login_key :: "string \<Rightarrow> string" where
  "login_key ip = ''ratelimit:login:'' @ ip"

definition maxAttempts :: int where "maxAttempts = 5"

definition windowSecs :: int where "windowSecs = 15 * 60"

text \<open>\<open>int(ttl.Seconds())\<close>: towards zero.\<close>

definition whole_seconds :: "int \<Rightarrow> int" where
  "whole_seconds ns = (if ns < 0 then - (- ns div 10 ^ 9) else ns div 10 ^ 9)"

definition login_denied :: string where
  "login_denied = ''too many login attempts '' @ [CHR 0xE2, CHR 0x80, CHR 0x94] @ '' try again later''"

definition LoginRateLimit :: "'x services \<Rightarrow> 'x chain \<Rightarrow> 'x chain" where
  "LoginRateLimit S nxt cx = (let key = login_key (rq_ip (cx_req cx)) in do {
     count \<leftarrow> ext_call (\<lambda>x. svc_incr S x key);
     (case count of
        None \<Rightarrow> nxt cx
      | Some n \<Rightarrow> do {
          (if n = 1 then ext_call (\<lambda>x. ((), svc_expire S x key windowSecs)) else State_Monad.return ());
          with_header ''X-RateLimit-Limit'' (itoa maxAttempts)
            (with_header ''X-RateLimit-Remaining'' (itoa (max 0 (maxAttempts - n)))
              (if n > maxAttempts then do {
                 ttl \<leftarrow> ext_call (\<lambda>x. svc_ttl S x key);
                 with_header ''Retry-After'' (itoa (whole_seconds ttl))
                   (abort_json cx 429 (JObj [(''error'', JStr login_denied),
                      (''retry_after'', JNum (whole_seconds ttl))]))
               }
               else nxt cx))
        })
   })"

context db_relation
begin

lemma stays_demo_Allow: "stays R (demo_Allow S key m r c)"
  unfolding demo_Allow_def by (intro handler_rules)

lemma stays_StreamRateLimit: "(\<And>cx. stays R (nxt cx)) \<Longrightarrow> stays R (StreamRateLimit S m nxt cx)"
  unfolding StreamRateLimit_def by (auto intro!: middleware_rules split: option.split list.split)

lemma stays_LoginRateLimit: "(\<And>cx. stays R (nxt cx)) \<Longrightarrow> stays R (LoginRateLimit S nxt cx)"
  unfolding LoginRateLimit_def Let_def by (intro middleware_rules) auto

end

section \<open>Token buckets\<close>

text \<open>
  The contract of a bucket, over the hash as it is stored: the level at an instant is what the
  stored tokens have been refilled to, an admitted request takes its cost from the level, a denied
  one had less than its cost and adds nothing, and the stored fields stay sensible. The expiry that
  an admission sets is long enough for the bucket to be full again.
\<close>

definition level :: "rat \<Rightarrow> rat \<Rightarrow> (rat \<times> rat) option \<Rightarrow> rat \<Rightarrow> rat" where
  "level cap rate b now = (case b of None \<Rightarrow> cap | Some (t, l) \<Rightarrow> min cap (t + (now - l) * rate))"

definition stored_ok :: "rat \<Rightarrow> (rat \<times> rat) option \<Rightarrow> rat \<Rightarrow> bool" where
  "stored_ok cap b now = (case b of None \<Rightarrow> True | Some (t, l) \<Rightarrow> 0 \<le> t \<and> t \<le> cap \<and> l \<le> now)"

text \<open>
  A history of requests to one bucket: the time of each request and whether the key had expired
  before it. Redis expires a key only when its time to live has passed since the last write.
\<close>

fun admitted_count ::
    "((rat \<times> rat) option \<Rightarrow> rat \<Rightarrow> bool \<times> (rat \<times> rat) option) \<Rightarrow> (rat \<times> rat) option \<Rightarrow> (rat \<times> bool) list \<Rightarrow> nat"
where
  "admitted_count admit b [] = 0"
| "admitted_count admit b ((now, gone) # rs) =
     (let r = admit (if gone then None else b) now in
        (if fst r then 1 else 0) + admitted_count admit (snd r) rs)"

definition may_expire :: "rat \<Rightarrow> (rat \<times> rat) option \<Rightarrow> rat \<Rightarrow> bool" where
  "may_expire ttl b now = (case b of None \<Rightarrow> True | Some (t, l) \<Rightarrow> ttl \<le> now - l)"

fun lawful ::
    "rat \<Rightarrow> ((rat \<times> rat) option \<Rightarrow> rat \<Rightarrow> bool \<times> (rat \<times> rat) option) \<Rightarrow> (rat \<times> rat) option \<Rightarrow> rat \<Rightarrow> (rat \<times> bool) list \<Rightarrow> bool"
where
  "lawful ttl admit b t0 [] = True"
| "lawful ttl admit b t0 ((now, gone) # rs) \<longleftrightarrow>
     t0 \<le> now \<and> (gone \<longrightarrow> may_expire ttl b now) \<and>
     lawful ttl admit (snd (admit (if gone then None else b) now)) now rs"

fun last_time :: "rat \<Rightarrow> (rat \<times> bool) list \<Rightarrow> rat" where
  "last_time t0 [] = t0"
| "last_time t0 ((now, gone) # rs) = last_time now rs"

locale token_bucket =
  fixes cap rate cost ttl :: rat
    and admit :: "(rat \<times> rat) option \<Rightarrow> rat \<Rightarrow> bool \<times> (rat \<times> rat) option"
  assumes rate_pos: "0 < rate"
    and cost_nonneg: "0 \<le> cost"
    and cap_nonneg: "0 \<le> cap"
    and ttl_refills: "cap \<le> ttl * rate"
    and admitted: "stored_ok cap b now \<Longrightarrow> admit b now = (True, b') \<Longrightarrow>
          cost \<le> level cap rate b now \<and> level cap rate b' now = level cap rate b now - cost"
    and denied: "stored_ok cap b now \<Longrightarrow> admit b now = (False, b') \<Longrightarrow>
          level cap rate b now < cost \<and> level cap rate b' now = level cap rate b now"
    and stored: "stored_ok cap b now \<Longrightarrow> admit b now = (a, b') \<Longrightarrow> stored_ok cap b' now"
begin

lemma level_le_cap: "level cap rate b now \<le> cap"
  by (auto simp: level_def split: option.splits)

lemma level_nonneg: "stored_ok cap b now \<Longrightarrow> 0 \<le> level cap rate b now"
  using rate_pos cap_nonneg by (auto simp: level_def stored_ok_def split: option.splits)

lemma level_grows: "t \<le> now \<Longrightarrow> level cap rate b now \<le> level cap rate b t + (now - t) * rate"
proof (cases b)
  case None
  assume "t \<le> now"
  with None rate_pos show ?thesis by (simp add: level_def)
next
  case (Some p)
  obtain v l where p: "p = (v, l)" by (cases p)
  assume "t \<le> now"
  then have "0 \<le> (now - t) * rate" using rate_pos by simp
  moreover have "v + (now - l) * rate = v + (t - l) * rate + (now - t) * rate"
    by (simp add: algebra_simps)
  ultimately show ?thesis using Some p by (auto simp: level_def)
qed

lemma expired_full:
  assumes "stored_ok cap (Some (t, l)) now" and "ttl \<le> now - l"
  shows "level cap rate (Some (t, l)) now = cap"
proof -
  have "ttl * rate \<le> (now - l) * rate" using assms(2) rate_pos by simp
  then have "cap \<le> t + (now - l) * rate"
    using ttl_refills assms(1) by (simp add: stored_ok_def)
  then show ?thesis by (simp add: level_def)
qed

text \<open>Expiry cannot be observed: the bucket it removes is full.\<close>

lemma expiry_invisible:
  assumes "stored_ok cap b now" and "gone \<longrightarrow> may_expire ttl b now"
  shows "level cap rate (if gone then None else b) now = level cap rate b now"
proof (cases b)
  case (Some p)
  with assms show ?thesis
    using expired_full [of "fst p" "snd p" now] by (auto simp: level_def may_expire_def split: prod.splits)
qed simp

lemma stored_ok_later: "stored_ok cap b t \<Longrightarrow> t \<le> now \<Longrightarrow> stored_ok cap b now"
  by (auto simp: stored_ok_def split: option.splits)

lemma stored_ok_None: "stored_ok cap None now"
  by (simp add: stored_ok_def)

text \<open>What was admitted was paid for from the level at the start and the refill since.\<close>

lemma admitted_paid:
  "stored_ok cap b t0 \<Longrightarrow> lawful ttl admit b t0 rs \<Longrightarrow>
     of_nat (admitted_count admit b rs) * cost \<le> level cap rate b t0 + (last_time t0 rs - t0) * rate"
proof (induction rs arbitrary: b t0)
  case Nil
  then show ?case using level_nonneg by simp
next
  case (Cons r rs)
  obtain now gone where r: "r = (now, gone)" by (cases r)
  let ?c = "if gone then None else b"
  obtain a b' where step: "admit ?c now = (a, b')" by (cases "admit ?c now")
  from Cons.prems r have le: "t0 \<le> now"
    and gone: "gone \<longrightarrow> may_expire ttl b now"
    and rest: "lawful ttl admit b' now rs" using step by auto
  have ok: "stored_ok cap b now" by (rule stored_ok_later [OF Cons.prems(1) le])
  then have okc: "stored_ok cap ?c now" by (simp add: stored_ok_None)
  have lev: "level cap rate ?c now = level cap rate b now" by (rule expiry_invisible [OF ok gone])
  have grow: "level cap rate b now \<le> level cap rate b t0 + (now - t0) * rate" by (rule level_grows [OF le])
  have IH: "of_nat (admitted_count admit b' rs) * cost \<le> level cap rate b' now + (last_time now rs - now) * rate"
    by (rule Cons.IH [OF stored [OF okc step] rest])
  have "(if a then cost else 0) + level cap rate b' now = level cap rate b now"
    using admitted [OF okc, of b'] denied [OF okc, of b'] step lev by (cases a) auto
  with IH grow show ?case
    using r step by (cases a) (auto simp: algebra_simps Let_def)
qed

lemma admitted_bound:
  assumes "lawful ttl admit None t0 rs"
  shows "of_nat (admitted_count admit None rs) * cost \<le> cap + (last_time t0 rs - t0) * rate"
  using admitted_paid [OF stored_ok_None assms] by (simp add: level_def)

end

end
