(* ===== verification/Audit_Log.thy ===== *)
theory Audit_Log
  imports Jwt
begin

text \<open>
  \<open>internal/middleware/audit.go\<close>: the action string of a route, the resource of a route, and the
  middleware that writes a row of \<open>audit_logs\<close> after the handler of a mutating request.
\<close>

section \<open>Action and resource\<close>

text \<open>\<open>parts[0][:len(parts[0])-1]\<close> panics on an empty first part.\<close>

definition singular :: "string \<Rightarrow> string option" where
  "singular p = (if p = '''' then None else Some (butlast p))"

definition buildAction :: "string \<Rightarrow> string \<Rightarrow> string option" where
  "buildAction meth route =
     (let path = trim_prefix route ''/v1/''; parts = split_on (CHR ''/'') path; n = length parts in
      if meth = ''POST'' \<and> path = ''auth/register'' then Some ''auth.register''
      else if meth = ''POST'' \<and> path = ''auth/login'' then Some ''auth.login''
      else if meth = ''DELETE'' \<and> has_prefix path ''users/me'' then Some ''user.delete''
      else if meth = ''GET'' \<and> path = ''users/me/data'' then Some ''user.data_export''
      else if meth = ''POST'' \<and> n = 1 then map_option (\<lambda>s. s @ ''.create'') (singular (parts ! 0))
      else if meth = ''DELETE'' \<and> n = 2 then map_option (\<lambda>s. s @ ''.delete'') (singular (parts ! 0))
      else if meth = ''POST'' \<and> n = 3 \<and> parts ! 2 = ''tracks'' then
        map_option (\<lambda>s. s @ ''.track.add'') (singular (parts ! 0))
      else if meth = ''DELETE'' \<and> n = 4 \<and> parts ! 2 = ''tracks'' then
        map_option (\<lambda>s. s @ ''.track.remove'') (singular (parts ! 0))
      else Some (to_lower meth @ ''.'' @ replace_char (CHR ''/'') (CHR ''.'') path))"

definition parseResource :: "string \<Rightarrow> (string \<Rightarrow> string) \<Rightarrow> string \<times> string" where
  "parseResource route par =
     (let parts = split_on (CHR ''/'') (trim_prefix route ''/v1/'') in
      (if parts ! 0 = ''tracks'' then ''track''
       else if parts ! 0 = ''playlists'' then ''playlist''
       else if parts ! 0 = ''artists'' then ''artist''
       else if parts ! 0 = ''auth'' then ''user''
       else if parts ! 0 = ''users'' then ''user''
       else parts ! 0,
       if 2 \<le> length parts then par ''id'' else ''''))"

definition nullableStr :: "string \<Rightarrow> string option" where
  "nullableStr s = (if s = '''' then None else Some s)"

section \<open>The row\<close>

definition cast_opt :: "(string \<Rightarrow> uuid option) \<Rightarrow> string option \<Rightarrow> uuid option option" where
  "cast_opt cast v = (case v of None \<Rightarrow> Some None | Some s \<Rightarrow> map_option Some (cast s))"

text \<open>
  The insert: a user id, a resource id or an address that does not convert, or a user that does not
  exist, refuses the row.
\<close>

definition ins_audit ::
    "(string \<Rightarrow> uuid option) \<Rightarrow> (string \<Rightarrow> string option) \<Rightarrow> string option \<Rightarrow> string \<Rightarrow> string \<Rightarrow>
     string option \<Rightarrow> string \<Rightarrow> string \<Rightarrow> int \<Rightarrow> string option \<Rightarrow> unit stmt" where
  "ins_audit cast cast_inet uid action rtype rid ip agent status rqid e d =
     (case (cast_opt cast uid, cast_opt cast rid, cast_inet ip) of
        (Some u, Some r, Some addr) \<Rightarrow>
          (let a = \<lparr>au_id = e_id e, au_user = u, au_action = action, au_rtype = Some rtype, au_rid = r,
                    au_ip = addr, au_agent = agent, au_status = status, au_request = rqid, au_created = e_now e\<rparr>
           in if \<not> int16 status \<or> (\<exists>v. u = Some v \<and> v \<notin> user_ids d) then None
              else (case insert_row au_id a (d_audits d) of None \<Rightarrow> None
                    | Some as \<Rightarrow> Some ((), d\<lparr>d_audits := as\<rparr>)))
      | _ \<Rightarrow> None)"

text \<open>
  The goroutine of the middleware: the address, the agent and the status are arguments of the call of
  \<open>Exec\<close> and are read from gin's context there, not when the goroutine is started.
\<close>

definition write_audit ::
    "'x services \<Rightarrow> string option \<Rightarrow> string \<Rightarrow> string \<Rightarrow> string option \<Rightarrow> string option \<Rightarrow> ('x, unit) run" where
  "write_audit S uid action rtype rid rqid = do {
     c \<leftarrow> ext_call (svc_late S);
     _ \<leftarrow> sql S (ins_audit (svc_cast S) (svc_cast_inet S) uid action rtype rid (lc_ip c) (lc_agent c) (lc_status c) rqid);
     State_Monad.return ()
   }"

section \<open>The middleware\<close>

text \<open>
  The handler runs first; a panic of the handler unwinds through the middleware, so nothing is
  written. The keys that the inner middlewares set are read after the handler, before the goroutine
  that inserts the row is started.
\<close>

definition AuditLog :: "'x chain \<Rightarrow> 'x chain" where
  "AuditLog nxt cx = (let meth = rq_method (cx_req cx); route = rq_route (cx_req cx) in
     if meth = ''GET'' \<or> meth = ''HEAD'' \<or> meth = ''OPTIONS'' then nxt cx
     else do {
       out \<leftarrow> nxt cx;
       (if panicking (out_reply out) then State_Monad.return out
        else (case buildAction meth route of
             None \<Rightarrow> State_Monad.return (out\<lparr>out_reply := late_panic (out_reply out)\<rparr>)
           | Some action \<Rightarrow>
               (case parseResource route (rq_param (cx_req cx)) of (rtype, rid) \<Rightarrow> do {
                  spawn (Write_audit (nullableStr (string_key (out_keys out) ''user_id'')) action rtype
                    (nullableStr rid) (nullableStr (string_key (out_keys out) ''request_id'')));
                  State_Monad.return out
                })))
     })"

section \<open>Facts\<close>

lemma buildAction_nonempty:
  "hd (split_on (CHR ''/'') (trim_prefix route ''/v1/'')) \<noteq> [] \<Longrightarrow> buildAction meth route \<noteq> None"
  by (auto simp: buildAction_def singular_def Let_def hd_conv_nth)

context db_relation
begin

lemma stays_AuditLog: "(\<And>cx. stays R (nxt cx)) \<Longrightarrow> stays R (AuditLog nxt cx)"
  unfolding AuditLog_def Let_def by (intro middleware_rules) auto

end

end
