(* ===== verification/Auth_Handler.thy ===== *)
theory Auth_Handler
  imports Jwt
begin

text \<open>
  \<open>internal/handler/auth.go\<close>: registration, login, the profile, erasure and export. bcrypt, the
  e-mail check of the validator and the JWT library are parameters (\<^typ>\<open>'x crypto\<close>).
\<close>

section \<open>Requests and answers\<close>

record registerBody =
  rb_email :: string
  rb_password :: string
  rb_name :: string
  rb_terms :: int

text \<open>\<open>min=6\<close> counts runes: the bytes that are not continuation bytes of UTF-8.\<close>

definition rune_count :: "string \<Rightarrow> nat" where
  "rune_count s = length (filter (\<lambda>c. \<not> (128 \<le> (of_char c :: nat) \<and> (of_char c :: nat) < 192)) s)"

definition bind_register :: "'x crypto \<Rightarrow> gin_ctx \<Rightarrow> registerBody option" where
  "bind_register C cx = (case rq_json (cx_req cx) of
      None \<Rightarrow> None
    | Some kvs \<Rightarrow>
        (case (bind_string kvs ''email'' '''', bind_string kvs ''password'' '''',
               bind_string kvs ''name'' '''', bind_int kvs ''terms_version'' 0) of
           (Some em, Some pw, Some nm, Some tv) \<Rightarrow>
             (if em \<noteq> '''' \<and> em_valid C em \<and> pw \<noteq> '''' \<and> 6 \<le> rune_count pw \<and> nm \<noteq> ''''
              then Some \<lparr>rb_email = em, rb_password = pw, rb_name = nm, rb_terms = tv\<rparr> else None)
         | _ \<Rightarrow> None))"

definition bind_login :: "gin_ctx \<Rightarrow> (string \<times> string) option" where
  "bind_login cx = (case (bind_required cx ''email'', bind_required cx ''password'') of
      (Some em, Some pw) \<Rightarrow> Some (em, pw) | _ \<Rightarrow> None)"

record userResponse =
  ur_id :: string
  ur_email :: string
  ur_name :: string
  ur_role :: string
  ur_terms :: int
  ur_created :: instant

definition scan_user :: "user \<Rightarrow> userResponse" where
  "scan_user u = \<lparr>ur_id = us_id u, ur_email = us_email u, ur_name = us_name u, ur_role = us_role u,
     ur_terms = us_terms u, ur_created = us_created u\<rparr>"

definition enc_user :: "userResponse \<Rightarrow> json" where
  "enc_user u = JObj [(''id'', JStr (ur_id u)), (''email'', JStr (ur_email u)), (''name'', JStr (ur_name u)),
     (''role'', JStr (ur_role u)), (''terms_version'', JNum (ur_terms u)), (''created_at'', JTime (ur_created u))]"

section \<open>Statements\<close>

definition ins_user :: "string \<Rightarrow> string \<Rightarrow> string \<Rightarrow> int \<Rightarrow> userResponse stmt" where
  "ins_user email hash name terms e d =
     (let u = \<lparr>us_id = e_id e, us_email = email, us_hash = hash, us_name = name, us_created = e_now e,
               us_role = ''user'', us_deleted = None, us_terms = terms\<rparr>
      in if \<not> int32 terms \<or> email \<in> us_email ` set (d_users d) then None
         else (case insert_row us_id u (d_users d) of None \<Rightarrow> None
               | Some us \<Rightarrow> Some (scan_user u, d\<lparr>d_users := us\<rparr>)))"

definition sel_login :: "string \<Rightarrow> (userResponse \<times> string) stmt" where
  "sel_login email = select_row (\<lambda>d. map_option (\<lambda>u. (scan_user u, us_hash u))
     (find (\<lambda>u. us_email u = email \<and> us_deleted u = None) (d_users d)))"

text \<open>The id is passed as the context holds it: a string is converted, anything else selects no row.\<close>

definition uuid_arg :: "(string \<Rightarrow> uuid option) \<Rightarrow> json option \<Rightarrow> uuid option" where
  "uuid_arg cast v = (case v of Some (JStr s) \<Rightarrow> cast s | _ \<Rightarrow> None)"

definition sel_active_user :: "(string \<Rightarrow> uuid option) \<Rightarrow> json option \<Rightarrow> userResponse stmt" where
  "sel_active_user cast v = select_row (\<lambda>d. case uuid_arg cast v of None \<Rightarrow> None
     | Some i \<Rightarrow> map_option scan_user (find (\<lambda>u. us_id u = i \<and> us_deleted u = None) (d_users d)))"

definition removed_email :: "uuid \<Rightarrow> string" where
  "removed_email i = ''deleted-'' @ i @ ''@removed.invalid''"

definition soft_deleted :: "instant \<Rightarrow> user \<Rightarrow> user" where
  "soft_deleted now u = u\<lparr>us_deleted := Some now, us_email := removed_email (us_id u),
     us_name := ''[deleted]'', us_hash := ''''\<rparr>"

text \<open>The new e-mail must not be taken by another row.\<close>

definition upd_soft_delete :: "(string \<Rightarrow> uuid option) \<Rightarrow> json option \<Rightarrow> nat stmt" where
  "upd_soft_delete cast v e d = (case uuid_arg cast v of None \<Rightarrow> None
     | Some i \<Rightarrow> (let P = (\<lambda>u. us_id u = i \<and> us_deleted u = None) in
         if affected P (d_users d) \<noteq> 0 \<and> (\<exists>u \<in> set (d_users d). us_id u \<noteq> i \<and> us_email u = removed_email i)
         then None
         else Some (affected P (d_users d),
                    d\<lparr>d_users := update_where P (soft_deleted (e_now e)) (d_users d)\<rparr>)))"

definition sel_owned_playlists :: "(string \<Rightarrow> uuid option) \<Rightarrow> json option \<Rightarrow> playlist select" where
  "sel_owned_playlists cast v e d = (case uuid_arg cast v of None \<Rightarrow> None
     | Some i \<Rightarrow> Some (filter (\<lambda>p. pl_owner p = Some i) (d_playlists d)))"

section \<open>Tokens\<close>

definition unix :: "instant \<Rightarrow> int" where
  "unix t = t div 10 ^ 9"

text \<open>\<open>time.Now()\<close> is read twice: for \<open>exp\<close>, then for \<open>iat\<close>.\<close>

definition token_claims :: "string \<Rightarrow> string \<Rightarrow> string \<Rightarrow> string \<Rightarrow> instant \<Rightarrow> instant \<Rightarrow> (string \<times> json) list" where
  "token_claims i email name role now1 now2 =
     [(''user_id'', JStr i), (''email'', JStr email), (''name'', JStr name), (''role'', JStr role),
      (''exp'', JNum (unix (now1 + 7 * 24 * 3600 * 10 ^ 9))), (''iat'', JNum (unix now2))]"

definition generateToken :: "'x services \<Rightarrow> 'x crypto \<Rightarrow> string \<Rightarrow> userResponse \<Rightarrow> ('x, string option) run" where
  "generateToken S C secret u = do {
     now1 \<leftarrow> ext_call (svc_clock S);
     now2 \<leftarrow> ext_call (svc_clock S);
     State_Monad.return (jw_sign C (token_claims (ur_id u) (ur_email u) (ur_name u) (ur_role u) now1 now2) secret)
   }"

definition token_reply :: "nat \<Rightarrow> userResponse \<Rightarrow> string option \<Rightarrow> ('x, reply) run" where
  "token_reply code u tok = (case tok of
      None \<Rightarrow> fail_with 500 ''failed to generate token''
    | Some t \<Rightarrow> ok_json code (JObj [(''token'', JStr t), (''user'', enc_user u)]))"

section \<open>Handlers\<close>

definition auth_Register :: "'x services \<Rightarrow> 'x crypto \<Rightarrow> string \<Rightarrow> gin_ctx \<Rightarrow> ('x, reply) run" where
  "auth_Register S C secret cx = (case bind_register C cx of
      None \<Rightarrow> fail_with 400 (rq_bind_err (cx_req cx))
    | Some b \<Rightarrow> do {
        let terms = (if rb_terms b = 0 then 1 else rb_terms b);
        hashed \<leftarrow> ext_call (\<lambda>x. bc_hash C x (rb_password b));
        (case hashed of
           None \<Rightarrow> fail_with 500 ''failed to hash password''
         | Some h \<Rightarrow> do {
             row \<leftarrow> sql S (ins_user (rb_email b) h (rb_name b) terms);
             (case row of
                None \<Rightarrow> fail_with 409 ''email already registered''
              | Some u \<Rightarrow> do { tok \<leftarrow> generateToken S C secret u; token_reply 201 u tok })
           })
      })"

definition auth_Login :: "'x services \<Rightarrow> 'x crypto \<Rightarrow> string \<Rightarrow> gin_ctx \<Rightarrow> ('x, reply) run" where
  "auth_Login S C secret cx = (case bind_login cx of
      None \<Rightarrow> fail_with 400 (rq_bind_err (cx_req cx))
    | Some (email, password) \<Rightarrow> do {
        row \<leftarrow> sql S (sel_login email);
        (case row of
           None \<Rightarrow> fail_with 401 ''invalid email or password''
         | Some (u, hash) \<Rightarrow>
             (if \<not> bc_check C hash password then fail_with 401 ''invalid email or password''
              else do { tok \<leftarrow> generateToken S C secret u; token_reply 200 u tok }))
      })"

definition auth_Me :: "'x services \<Rightarrow> gin_ctx \<Rightarrow> ('x, reply) run" where
  "auth_Me S cx = do {
     row \<leftarrow> sql S (sel_active_user (svc_cast S) (cx_keys cx ''user_id''));
     (case row of None \<Rightarrow> fail_with 404 ''user not found'' | Some u \<Rightarrow> ok_json 200 (enc_user u))
   }"

definition auth_DeleteMe :: "'x services \<Rightarrow> gin_ctx \<Rightarrow> ('x, reply) run" where
  "auth_DeleteMe S cx = do {
     tag \<leftarrow> sql S (upd_soft_delete (svc_cast S) (cx_keys cx ''user_id''));
     (case tag of
        None \<Rightarrow> fail_with 404 ''user not found or already deleted''
      | Some n \<Rightarrow> (if n = 0 then fail_with 404 ''user not found or already deleted'' else no_content))
   }"

definition enc_playlist_export :: "playlist \<Rightarrow> json" where
  "enc_playlist_export p = JObj [(''id'', JStr (pl_id p)), (''name'', JStr (pl_name p)), (''created_at'', JTime (pl_created p))]"

definition auth_ExportMe :: "'x services \<Rightarrow> gin_ctx \<Rightarrow> ('x, reply) run" where
  "auth_ExportMe S cx = do {
     row \<leftarrow> sql S (sel_active_user (svc_cast S) (cx_keys cx ''user_id''));
     (case row of
        None \<Rightarrow> fail_with 404 ''user not found''
      | Some u \<Rightarrow> do {
          pls \<leftarrow> sql_query S (sel_owned_playlists (svc_cast S) (cx_keys cx ''user_id''));
          (case pls of
             None \<Rightarrow> fail_with 500 ''failed to export playlists''
           | Some ps \<Rightarrow> do {
               now \<leftarrow> ext_call (svc_clock S);
               ok_json 200 (JObj [(''exported_at'', JTime now), (''user'', enc_user u), (''tracks'', JNull),
                 (''playlists'', nil_slice (map enc_playlist_export ps))])
             })
        })
   }"

end
