(* ===== verification/Track_Json.thy ===== *)
theory Track_Json
  imports Http
begin

text \<open>
  The JSON form of \<open>trackRow\<close>, \<open>formatRow\<close> (\<open>internal/handler/tracks.go\<close>) and \<open>searchResponse\<close>
  (\<open>internal/handler/search.go\<close>): what \<open>json.Marshal\<close> writes into the cache and \<open>json.Unmarshal\<close>
  reads back, with the round trips that make a cache hit answer like the miss that filled it.
\<close>

section \<open>Rows of the API\<close>

record formatRow =
  fr_bitrate :: int
  fr_codec :: string
  fr_size :: int

record trackRow =
  row_id :: string
  row_title :: string
  row_artist :: string
  row_duration :: int
  row_release :: "string option"
  row_plays :: int
  row_status :: string
  row_created :: instant
  row_formats :: "formatRow list"

definition zero_track :: trackRow where
  "zero_track = \<lparr>row_id = '''', row_title = '''', row_artist = '''', row_duration = 0,
     row_release = None, row_plays = 0, row_status = '''', row_created = 0, row_formats = []\<rparr>"

definition zero_format :: formatRow where
  "zero_format = \<lparr>fr_bitrate = 0, fr_codec = '''', fr_size = 0\<rparr>"

text \<open>Scanning a row of \<open>tracks\<close> into a fresh \<open>trackRow\<close>, with and without the status column.\<close>

definition scan_track :: "track \<Rightarrow> trackRow" where
  "scan_track t = \<lparr>row_id = tr_id t, row_title = tr_title t, row_artist = tr_artist t,
     row_duration = tr_duration t, row_release = tr_release t, row_plays = tr_plays t,
     row_status = tr_status t, row_created = tr_created t, row_formats = []\<rparr>"

definition scan_track_no_status :: "track \<Rightarrow> trackRow" where
  "scan_track_no_status t = (scan_track t)\<lparr>row_status := ''''\<rparr>"

definition scan_format :: "track_format \<Rightarrow> formatRow" where
  "scan_format f = \<lparr>fr_bitrate = tf_bitrate f, fr_codec = tf_codec f, fr_size = tf_size f\<rparr>"

section \<open>Marshalling\<close>

definition enc_format :: "formatRow \<Rightarrow> json" where
  "enc_format f = JObj [(''bitrate'', JNum (fr_bitrate f)), (''codec'', JStr (fr_codec f)),
     (''size_bytes'', JNum (fr_size f))]"

definition enc_track :: "trackRow \<Rightarrow> json" where
  "enc_track t = JObj (
     [(''id'', JStr (row_id t)), (''title'', JStr (row_title t)),
      (''artist_id'', JStr (row_artist t)), (''duration_ms'', JNum (row_duration t))] @
     (case row_release t of None \<Rightarrow> [] | Some d \<Rightarrow> [(''release_date'', JStr d)]) @
     [(''play_count'', JNum (row_plays t)), (''status'', JStr (row_status t)),
      (''created_at'', JTime (row_created t))] @
     (if row_formats t = [] then [] else [(''formats'', JArr (map enc_format (row_formats t)))]))"

record searchResponse =
  sr_items :: "trackRow list"
  sr_total :: int

definition enc_search :: "searchResponse \<Rightarrow> json" where
  "enc_search r = JObj [(''items'', JArr (map enc_track (sr_items r))), (''total'', JNum (sr_total r))]"

section \<open>Unmarshalling\<close>

definition set_format_field :: "string \<Rightarrow> json \<Rightarrow> formatRow \<Rightarrow> formatRow option" where
  "set_format_field k j f =
     (if key_eq k ''bitrate'' then map_option (\<lambda>n. f\<lparr>fr_bitrate := n\<rparr>) (dec_int j (fr_bitrate f))
      else if key_eq k ''codec'' then map_option (\<lambda>s. f\<lparr>fr_codec := s\<rparr>) (dec_str j (fr_codec f))
      else if key_eq k ''size_bytes'' then map_option (\<lambda>n. f\<lparr>fr_size := n\<rparr>) (dec_int j (fr_size f))
      else Some f)"

definition dec_format :: "json \<Rightarrow> formatRow option" where
  "dec_format = dec_struct set_format_field zero_format"

definition set_track_field :: "string \<Rightarrow> json \<Rightarrow> trackRow \<Rightarrow> trackRow option" where
  "set_track_field k j t =
     (if key_eq k ''id'' then map_option (\<lambda>s. t\<lparr>row_id := s\<rparr>) (dec_str j (row_id t))
      else if key_eq k ''title'' then map_option (\<lambda>s. t\<lparr>row_title := s\<rparr>) (dec_str j (row_title t))
      else if key_eq k ''artist_id'' then map_option (\<lambda>s. t\<lparr>row_artist := s\<rparr>) (dec_str j (row_artist t))
      else if key_eq k ''duration_ms'' then map_option (\<lambda>n. t\<lparr>row_duration := n\<rparr>) (dec_int j (row_duration t))
      else if key_eq k ''release_date'' then map_option (\<lambda>d. t\<lparr>row_release := d\<rparr>) (dec_opt_str j)
      else if key_eq k ''play_count'' then map_option (\<lambda>n. t\<lparr>row_plays := n\<rparr>) (dec_int j (row_plays t))
      else if key_eq k ''status'' then map_option (\<lambda>s. t\<lparr>row_status := s\<rparr>) (dec_str j (row_status t))
      else if key_eq k ''created_at'' then map_option (\<lambda>c. t\<lparr>row_created := c\<rparr>) (dec_time j (row_created t))
      else if key_eq k ''formats'' then map_option (\<lambda>fs. t\<lparr>row_formats := fs\<rparr>) (dec_slice dec_format j (row_formats t))
      else Some t)"

definition dec_track :: "json \<Rightarrow> trackRow option" where
  "dec_track = dec_struct set_track_field zero_track"

definition set_search_field :: "string \<Rightarrow> json \<Rightarrow> searchResponse \<Rightarrow> searchResponse option" where
  "set_search_field k j r =
     (if key_eq k ''items'' then map_option (\<lambda>ts. r\<lparr>sr_items := ts\<rparr>) (dec_slice dec_track j (sr_items r))
      else if key_eq k ''total'' then map_option (\<lambda>n. r\<lparr>sr_total := n\<rparr>) (dec_int j (sr_total r))
      else Some r)"

definition dec_search :: "json \<Rightarrow> searchResponse option" where
  "dec_search = dec_struct set_search_field \<lparr>sr_items = [], sr_total = 0\<rparr>"

text \<open>A cached text is used when it parses and decodes.\<close>

definition decode_cached :: "(json \<Rightarrow> 'v option) \<Rightarrow> doc option \<Rightarrow> 'v option" where
  "decode_cached dec c = (case c of Some (Doc j) \<Rightarrow> dec j | _ \<Rightarrow> None)"

section \<open>Round trips\<close>

text \<open>Go's \<open>int\<close> and \<open>int64\<close> fields hold 64-bit values.\<close>

definition format_ok :: "formatRow \<Rightarrow> bool" where
  "format_ok f \<longleftrightarrow> int64 (fr_bitrate f) \<and> int64 (fr_size f)"

definition row_ok :: "trackRow \<Rightarrow> bool" where
  "row_ok t \<longleftrightarrow> int64 (row_duration t) \<and> int64 (row_plays t) \<and> (\<forall>f \<in> set (row_formats t). format_ok f)"

definition response_ok :: "searchResponse \<Rightarrow> bool" where
  "response_ok r \<longleftrightarrow> int64 (sr_total r) \<and> (\<forall>t \<in> set (sr_items r). row_ok t)"

lemma key_eq_simps [simp]:
  "key_eq k k"
  by (simp add: key_eq_def)

lemma dec_enc_format: "format_ok f \<Longrightarrow> dec_format (enc_format f) = Some f"
  by (cases f) (simp add: dec_format_def enc_format_def dec_struct_def set_format_field_def
      dec_defs zero_format_def format_ok_def key_eq_def to_lower_def lower_char_def)

lemma dec_enc_track: "row_ok t \<Longrightarrow> dec_track (enc_track t) = Some t"
proof -
  assume ok: "row_ok t"
  have fs: "dec_list dec_format (map enc_format (row_formats t)) = Some (row_formats t)"
    using ok by (intro dec_list_map dec_enc_format) (simp add: row_ok_def)
  show ?thesis
    using ok fs
    by (cases t) (auto simp: dec_track_def enc_track_def dec_struct_def set_track_field_def
      dec_defs dec_slice_def zero_track_def row_ok_def key_eq_def to_lower_def lower_char_def
      split: option.splits)
qed

lemma dec_enc_search: "response_ok r \<Longrightarrow> dec_search (enc_search r) = Some r"
proof -
  assume ok: "response_ok r"
  have "dec_list dec_track (map enc_track (sr_items r)) = Some (sr_items r)"
    using ok by (intro dec_list_map dec_enc_track) (simp add: response_ok_def)
  then show ?thesis
    using ok by (cases r) (simp add: dec_search_def enc_search_def dec_struct_def
      set_search_field_def dec_defs dec_slice_def response_ok_def key_eq_def to_lower_def lower_char_def)
qed

end
