(* ===== verification/Playlists.thy ===== *)
theory Playlists
  imports Track_Json
begin

text \<open>
  \<open>internal/handler/playlists.go\<close>: the playlists, their tracks and the cursor pagination of
  \<open>ListTracks\<close>.
\<close>

section \<open>Statements\<close>

definition sel_recent_playlists :: "playlist select" where
  "sel_recent_playlists e d = Some (order_limit (\<lambda>p. - pl_created p) 100 (d_playlists d))"

definition sel_playlist :: "(string \<Rightarrow> uuid option) \<Rightarrow> string \<Rightarrow> playlist stmt" where
  "sel_playlist cast i = select_row (\<lambda>d. case cast i of None \<Rightarrow> None
     | Some u \<Rightarrow> find (\<lambda>p. pl_id p = u) (d_playlists d))"

text \<open>The statement names no owner, so the column gets its default, \<open>NULL\<close>.\<close>

definition ins_playlist :: "string \<Rightarrow> playlist stmt" where
  "ins_playlist name e d =
     (let p = \<lparr>pl_id = e_id e, pl_name = name, pl_owner = None, pl_created = e_now e\<rparr>
      in case insert_row pl_id p (d_playlists d) of None \<Rightarrow> None
         | Some ps \<Rightarrow> Some (p, d\<lparr>d_playlists := ps\<rparr>))"

text \<open>The entries of a playlist joined with their tracks, in the order of the query.\<close>

definition playlist_entries :: "db \<Rightarrow> uuid \<Rightarrow> (playlist_track \<times> track) list" where
  "playlist_entries d u = List.map_filter
     (\<lambda>pt. map_option (Pair pt) (track_by_id d (pt_track pt)))
     (sort_key pt_position (sort_key pt_added (filter (\<lambda>pt. pt_playlist pt = u) (d_ptracks d))))"

definition sel_first_page :: "(string \<Rightarrow> uuid option) \<Rightarrow> string \<Rightarrow> nat \<Rightarrow> trackRow select" where
  "sel_first_page cast i n e d = (case cast i of None \<Rightarrow> None
     | Some u \<Rightarrow> Some (map (scan_track_no_status \<circ> snd) (take n (playlist_entries d u))))"

text \<open>A cursor that is not in the playlist gives a \<open>NULL\<close> bound, and no row compares with it.\<close>

definition cursor_added :: "db \<Rightarrow> uuid \<Rightarrow> uuid \<Rightarrow> instant option" where
  "cursor_added d u c = map_option pt_added (find (\<lambda>pt. pt_playlist pt = u \<and> pt_track pt = c) (d_ptracks d))"

definition entries_after :: "db \<Rightarrow> uuid \<Rightarrow> uuid \<Rightarrow> (playlist_track \<times> track) list" where
  "entries_after d u c = (case cursor_added d u c of None \<Rightarrow> []
     | Some t \<Rightarrow> filter (\<lambda>(pt, tr). t < pt_added pt) (playlist_entries d u))"

definition sel_next_page :: "(string \<Rightarrow> uuid option) \<Rightarrow> string \<Rightarrow> string \<Rightarrow> nat \<Rightarrow> trackRow select" where
  "sel_next_page cast i after n e d = (case (cast i, cast after) of
       (Some u, Some c) \<Rightarrow> Some (map (scan_track_no_status \<circ> snd) (take n (entries_after d u c)))
     | _ \<Rightarrow> None)"

definition ins_playlist_track :: "(string \<Rightarrow> uuid option) \<Rightarrow> string \<Rightarrow> string \<Rightarrow> unit stmt" where
  "ins_playlist_track cast i tid e d = (case (cast i, cast tid) of
       (Some u, Some t) \<Rightarrow>
         (let p = \<lparr>pt_playlist = u, pt_track = t, pt_position = 0, pt_added = e_now e\<rparr>
          in if pt_key p \<in> pt_key ` set (d_ptracks d) then Some ((), d)
             else if u \<notin> playlist_ids d \<or> t \<notin> track_ids d then None
             else Some ((), d\<lparr>d_ptracks := insert_or_ignore pt_key p (d_ptracks d)\<rparr>))
     | _ \<Rightarrow> None)"

text \<open>Deleting a playlist cascades to its entries.\<close>

definition del_playlist :: "(string \<Rightarrow> uuid option) \<Rightarrow> string \<Rightarrow> string \<Rightarrow> nat stmt" where
  "del_playlist cast i owner e d = (case (cast i, cast owner) of
       (Some u, Some o') \<Rightarrow>
         (let P = (\<lambda>p. pl_id p = u \<and> pl_owner p = Some o') in
          Some (affected P (d_playlists d),
            d\<lparr>d_playlists := delete_where P (d_playlists d),
              d_ptracks := delete_where (\<lambda>pt. pt_playlist pt \<in> pl_id ` {p \<in> set (d_playlists d). P p}) (d_ptracks d)\<rparr>))
     | _ \<Rightarrow> None)"

definition del_playlist_track :: "(string \<Rightarrow> uuid option) \<Rightarrow> string \<Rightarrow> string \<Rightarrow> unit stmt" where
  "del_playlist_track cast i tid e d = (case (cast i, cast tid) of
       (Some u, Some t) \<Rightarrow>
         Some ((), d\<lparr>d_ptracks := delete_where (\<lambda>p. pt_playlist p = u \<and> pt_track p = t) (d_ptracks d)\<rparr>)
     | _ \<Rightarrow> None)"

section \<open>Handlers\<close>

definition enc_playlist :: "playlist \<Rightarrow> json" where
  "enc_playlist p = JObj [(''id'', JStr (pl_id p)), (''name'', JStr (pl_name p)), (''created_at'', JTime (pl_created p))]"

definition playlists_List :: "'x services \<Rightarrow> ('x, reply) run" where
  "playlists_List S = do {
     rows \<leftarrow> sql_query S sel_recent_playlists;
     (case rows of
        None \<Rightarrow> fail_with 500 ''failed to list playlists''
      | Some ps \<Rightarrow> ok_json 200 (JObj [(''items'', JArr (map enc_playlist ps)), (''total'', JNum (int (length ps)))]))
   }"

definition playlists_Get :: "'x services \<Rightarrow> gin_ctx \<Rightarrow> ('x, reply) run" where
  "playlists_Get S cx = (let i = param cx ''id'' in
     if \<not> svc_uuid_ok S i then fail_with 400 ''invalid playlist id''
     else do {
       row \<leftarrow> sql S (sel_playlist (svc_cast S) i);
       (case row of None \<Rightarrow> fail_with 404 ''playlist not found'' | Some p \<Rightarrow> ok_json 200 (enc_playlist p))
     })"

definition playlists_Create :: "'x services \<Rightarrow> gin_ctx \<Rightarrow> ('x, reply) run" where
  "playlists_Create S cx = (case bind_required cx ''name'' of
      None \<Rightarrow> fail_with 400 ''name is required''
    | Some name \<Rightarrow> do {
        row \<leftarrow> sql S (ins_playlist name);
        (case row of None \<Rightarrow> fail_with 500 ''failed to create playlist'' | Some p \<Rightarrow> ok_json 201 (enc_playlist p))
      })"

text \<open>The page cut out of the rows that were read: items, cursor and \<open>has_more\<close>.\<close>

definition page_of :: "nat \<Rightarrow> trackRow list \<Rightarrow> trackRow list \<times> string \<times> bool" where
  "page_of limit rows =
     (let hasMore = limit < length rows;
          items = (if hasMore then take limit rows else rows)
      in (items, if hasMore \<and> items \<noteq> [] then row_id (last items) else '''', hasMore))"

definition page_json :: "trackRow list \<times> string \<times> bool \<Rightarrow> json" where
  "page_json pg = (case pg of (items, cursor, hm) \<Rightarrow>
     JObj [(''items'', nil_slice (map enc_track items)), (''next_cursor'', JStr cursor), (''has_more'', JBool hm)])"

definition page_limit :: nat where
  "page_limit = 50"

definition playlists_ListTracks :: "'x services \<Rightarrow> gin_ctx \<Rightarrow> ('x, reply) run" where
  "playlists_ListTracks S cx = (let i = param cx ''id''; after = query_or_empty cx ''after'' in do {
     rows \<leftarrow> sql_query S (if after = '''' then sel_first_page (svc_cast S) i (page_limit + 1)
                          else sel_next_page (svc_cast S) i after (page_limit + 1));
     (case rows of
        None \<Rightarrow> fail_with 500 ''failed to list tracks''
      | Some rs \<Rightarrow> ok_json 200 (page_json (page_of page_limit rs)))
   })"

definition playlists_AddTrack :: "'x services \<Rightarrow> gin_ctx \<Rightarrow> ('x, reply) run" where
  "playlists_AddTrack S cx = (let i = param cx ''id'' in case bind_required cx ''track_id'' of
      None \<Rightarrow> fail_with 400 ''track_id is required''
    | Some tid \<Rightarrow> do {
        r \<leftarrow> sql S (ins_playlist_track (svc_cast S) i tid);
        (case r of None \<Rightarrow> fail_with 500 ''failed to add track'' | Some _ \<Rightarrow> no_content)
      })"

definition playlists_Delete :: "'x services \<Rightarrow> gin_ctx \<Rightarrow> ('x, reply) run" where
  "playlists_Delete S cx = (let i = param cx ''id'' in
     if \<not> svc_uuid_ok S i then fail_with 400 ''invalid playlist id''
     else do {
       tag \<leftarrow> sql S (del_playlist (svc_cast S) i (key_string cx ''user_id''));
       (case tag of
          None \<Rightarrow> fail_with 500 ''failed to delete playlist''
        | Some n \<Rightarrow> (if n = 0 then fail_with 404 ''playlist not found'' else no_content))
     })"

definition playlists_RemoveTrack :: "'x services \<Rightarrow> gin_ctx \<Rightarrow> ('x, reply) run" where
  "playlists_RemoveTrack S cx = do {
     r \<leftarrow> sql S (del_playlist_track (svc_cast S) (param cx ''id'') (param cx ''track_id''));
     (case r of None \<Rightarrow> fail_with 500 ''failed to remove track'' | Some _ \<Rightarrow> no_content)
   }"

end
