(* ===== verification/Library_Handlers.thy ===== *)
theory Library_Handlers
  imports Track_Json
begin

text \<open>
  \<open>internal/handler/favorites.go\<close>, \<open>artists.go\<close> and \<open>admin.go\<close>: favourites, artists, and the
  administration of users and of the audit trail.
\<close>

section \<open>Favorites\<close>

text \<open>\<open>ON CONFLICT DO NOTHING\<close> covers the unique pair; the foreign keys are checked for a new row.\<close>

definition ins_favorite :: "(string \<Rightarrow> uuid option) \<Rightarrow> string \<Rightarrow> string \<Rightarrow> unit stmt" where
  "ins_favorite cast uid tid e d = (case (cast uid, cast tid) of
       (Some u, Some t) \<Rightarrow>
         (let f = \<lparr>fv_id = e_id e, fv_user = u, fv_track = t, fv_created = e_now e\<rparr>
          in if fv_key f \<in> fv_key ` set (d_favs d) \<or> e_id e \<in> fv_id ` set (d_favs d) then Some ((), d)
             else if u \<notin> user_ids d \<or> t \<notin> track_ids d then None
             else Some ((), d\<lparr>d_favs := insert_or_ignore fv_key f (d_favs d)\<rparr>))
     | _ \<Rightarrow> None)"

definition del_favorite :: "(string \<Rightarrow> uuid option) \<Rightarrow> string \<Rightarrow> string \<Rightarrow> unit stmt" where
  "del_favorite cast uid tid e d = (case (cast uid, cast tid) of
       (Some u, Some t) \<Rightarrow>
         Some ((), d\<lparr>d_favs := delete_where (\<lambda>f. fv_user f = u \<and> fv_track f = t) (d_favs d)\<rparr>)
     | _ \<Rightarrow> None)"

definition sel_favorites :: "(string \<Rightarrow> uuid option) \<Rightarrow> string \<Rightarrow> trackRow select" where
  "sel_favorites cast uid e d = (case cast uid of None \<Rightarrow> None
     | Some u \<Rightarrow> Some (map scan_track (take 200 (List.map_filter (\<lambda>f. track_by_id d (fv_track f))
         (sort_key (\<lambda>f. - fv_created f) (filter (\<lambda>f. fv_user f = u) (d_favs d)))))))"

definition sel_favorite_ids :: "(string \<Rightarrow> uuid option) \<Rightarrow> string \<Rightarrow> string select" where
  "sel_favorite_ids cast uid e d = (case cast uid of None \<Rightarrow> None
     | Some u \<Rightarrow> Some (map fv_track (filter (\<lambda>f. fv_user f = u) (d_favs d))))"

definition favorites_Add :: "'x services \<Rightarrow> gin_ctx \<Rightarrow> ('x, reply) run" where
  "favorites_Add S cx = (case bind_required cx ''track_id'' of
      None \<Rightarrow> fail_with 400 ''track_id is required''
    | Some tid \<Rightarrow> do {
        r \<leftarrow> sql S (ins_favorite (svc_cast S) (key_string cx ''user_id'') tid);
        (case r of None \<Rightarrow> fail_with 500 ''failed to add favorite'' | Some _ \<Rightarrow> no_content)
      })"

definition favorites_Remove :: "'x services \<Rightarrow> gin_ctx \<Rightarrow> ('x, reply) run" where
  "favorites_Remove S cx = do {
     r \<leftarrow> sql S (del_favorite (svc_cast S) (key_string cx ''user_id'') (param cx ''track_id''));
     (case r of None \<Rightarrow> fail_with 500 ''failed to remove favorite'' | Some _ \<Rightarrow> no_content)
   }"

definition favorites_List :: "'x services \<Rightarrow> gin_ctx \<Rightarrow> ('x, reply) run" where
  "favorites_List S cx = do {
     rows \<leftarrow> sql_query S (sel_favorites (svc_cast S) (key_string cx ''user_id''));
     (case rows of
        None \<Rightarrow> fail_with 500 ''failed to list favorites''
      | Some ts \<Rightarrow> ok_json 200 (JObj [(''items'', JArr (map enc_track ts)), (''total'', JNum (int (length ts)))]))
   }"

definition favorites_IDs :: "'x services \<Rightarrow> gin_ctx \<Rightarrow> ('x, reply) run" where
  "favorites_IDs S cx = do {
     rows \<leftarrow> sql_query S (sel_favorite_ids (svc_cast S) (key_string cx ''user_id''));
     (case rows of
        None \<Rightarrow> fail_with 500 ''failed to get favorites''
      | Some ids \<Rightarrow> ok_json 200 (JObj [(''ids'', JArr (map JStr ids))]))
   }"

section \<open>Artists\<close>

definition ins_artist :: "string \<Rightarrow> artist stmt" where
  "ins_artist name e d =
     (let a = \<lparr>ar_id = e_id e, ar_name = name, ar_created = e_now e\<rparr>
      in case insert_row ar_id a (d_artists d) of None \<Rightarrow> None
         | Some as \<Rightarrow> Some (a, d\<lparr>d_artists := as\<rparr>))"

text \<open>\<open>ORDER BY name\<close> uses the database's collation, here a numbering of strings given by the service.\<close>

definition sel_artists :: "(string \<Rightarrow> nat) \<Rightarrow> artist select" where
  "sel_artists collate e d = Some (order_limit (\<lambda>a. collate (ar_name a)) 100 (d_artists d))"

definition sel_artist :: "(string \<Rightarrow> uuid option) \<Rightarrow> string \<Rightarrow> artist stmt" where
  "sel_artist cast i = select_row (\<lambda>d. case cast i of None \<Rightarrow> None
     | Some u \<Rightarrow> find (\<lambda>a. ar_id a = u) (d_artists d))"

definition enc_artist :: "artist \<Rightarrow> json" where
  "enc_artist a = JObj [(''id'', JStr (ar_id a)), (''name'', JStr (ar_name a)), (''created_at'', JTime (ar_created a))]"

definition artists_Create :: "'x services \<Rightarrow> gin_ctx \<Rightarrow> ('x, reply) run" where
  "artists_Create S cx = (case bind_required cx ''name'' of
      None \<Rightarrow> fail_with 400 ''name is required''
    | Some name \<Rightarrow> do {
        row \<leftarrow> sql S (ins_artist name);
        (case row of None \<Rightarrow> fail_with 500 ''failed to create artist'' | Some a \<Rightarrow> ok_json 201 (enc_artist a))
      })"

definition artists_List :: "'x services \<Rightarrow> ('x, reply) run" where
  "artists_List S = do {
     rows \<leftarrow> sql_query S (sel_artists (svc_collate S));
     (case rows of
        None \<Rightarrow> fail_with 500 ''failed to list artists''
      | Some as \<Rightarrow> ok_json 200 (JObj [(''items'', JArr (map enc_artist as)), (''total'', JNum (int (length as)))]))
   }"

definition artists_Get :: "'x services \<Rightarrow> gin_ctx \<Rightarrow> ('x, reply) run" where
  "artists_Get S cx = do {
     row \<leftarrow> sql S (sel_artist (svc_cast S) (param cx ''id''));
     (case row of None \<Rightarrow> fail_with 404 ''artist not found'' | Some a \<Rightarrow> ok_json 200 (enc_artist a))
   }"

section \<open>Administration\<close>

definition sel_users :: "user select" where
  "sel_users e d = Some (order_limit (\<lambda>u. - us_created u) 200 (d_users d))"

text \<open>
  \<open>DELETE FROM users\<close>: favourites go with the user (\<open>ON DELETE CASCADE\<close>), audit rows stay and lose
  the reference (\<open>ON DELETE SET NULL\<close>). \<open>playlists.owner_id\<close> and \<open>play_events.user_id\<close> have no
  foreign key.
\<close>

definition del_user :: "(string \<Rightarrow> uuid option) \<Rightarrow> string \<Rightarrow> nat stmt" where
  "del_user cast i e d = (case cast i of None \<Rightarrow> None
     | Some u \<Rightarrow> Some (affected (\<lambda>r. us_id r = u) (d_users d),
         d\<lparr>d_users := delete_where (\<lambda>r. us_id r = u) (d_users d),
           d_favs := delete_where (\<lambda>f. fv_user f = u) (d_favs d),
           d_audits := update_where (\<lambda>a. au_user a = Some u) (\<lambda>a. a\<lparr>au_user := None\<rparr>) (d_audits d)\<rparr>))"

definition sel_audits :: "audit_row select" where
  "sel_audits e d = Some (order_limit (\<lambda>a. - au_created a) 500 (d_audits d))"

definition enc_admin_user :: "user \<Rightarrow> json" where
  "enc_admin_user u = JObj ([(''id'', JStr (us_id u)), (''email'', JStr (us_email u)), (''name'', JStr (us_name u)),
     (''role'', JStr (us_role u)), (''terms_version'', JNum (us_terms u))] @
     (case us_deleted u of None \<Rightarrow> [] | Some t \<Rightarrow> [(''deleted_at'', JTime t)]) @
     [(''created_at'', JTime (us_created u))])"

text \<open>
  \<open>ResourceType\<close> is scanned into a plain string and the address through the driver's conversion: a
  row where one of them does not convert is not listed, and the driver closes the rows with it, so that the
  list ends there.
\<close>

definition enc_audit :: "(string \<Rightarrow> string option) \<Rightarrow> audit_row \<Rightarrow> json option" where
  "enc_audit scan_inet a = (case (au_rtype a, scan_inet (au_ip a)) of
       (Some rt, Some ip) \<Rightarrow> Some (JObj [(''id'', JStr (au_id a)), (''user_id'', opt_str (au_user a)),
          (''action'', JStr (au_action a)), (''resource_type'', JStr rt), (''resource_id'', opt_str (au_rid a)),
          (''ip_address'', JStr ip), (''created_at'', JTime (au_created a))])
     | _ \<Rightarrow> None)"

definition scan_rows :: "('r \<Rightarrow> json option) \<Rightarrow> 'r list \<Rightarrow> json list" where
  "scan_rows f rs = map the (takeWhile (\<lambda>v. v \<noteq> None) (map f rs))"

definition admin_ListUsers :: "'x services \<Rightarrow> ('x, reply) run" where
  "admin_ListUsers S = do {
     rows \<leftarrow> sql_query S sel_users;
     (case rows of
        None \<Rightarrow> fail_with 500 ''failed to list users''
      | Some us \<Rightarrow> ok_json 200 (JObj [(''users'', nil_slice (map enc_admin_user us)), (''count'', JNum (int (length us)))]))
   }"

definition admin_DeleteUser :: "'x services \<Rightarrow> gin_ctx \<Rightarrow> ('x, reply) run" where
  "admin_DeleteUser S cx = do {
     tag \<leftarrow> sql S (del_user (svc_cast S) (param cx ''id''));
     (case tag of
        None \<Rightarrow> fail_with 404 ''user not found''
      | Some n \<Rightarrow> (if n = 0 then fail_with 404 ''user not found'' else no_content))
   }"

definition admin_ListAuditLogs :: "'x services \<Rightarrow> ('x, reply) run" where
  "admin_ListAuditLogs S = do {
     rows \<leftarrow> sql_query S sel_audits;
     (case rows of
        None \<Rightarrow> fail_with 500 ''failed to list audit logs''
      | Some as \<Rightarrow> (let js = scan_rows (enc_audit (svc_scan_inet S)) as in
          ok_json 200 (JObj [(''audit_logs'', nil_slice js), (''count'', JNum (int (length js)))])))
   }"

end
