(* ===== verification/Opensearch.thy ===== *)
theory Opensearch
  imports Http
begin

text \<open>
  \<open>internal/search\<close>: the OpenSearch client. A request is the JSON the client marshals and the URL it
  formats; the answer of the server is a parameter (\<^const>\<open>svc_http\<close>), \<^term>\<open>None\<close> for a transport
  error. Each operation is the code's sequence of checks on that answer.
\<close>

section \<open>Documents and errors\<close>

record trackDocument =
  td_id :: string
  td_title :: string
  td_artist :: string
  td_plays :: int
  td_status :: string

record trackResult =
  rs_id :: string
  rs_title :: string
  rs_artist :: string
  rs_score :: rat

datatype os_error =
    Os_transport
  | Os_body string
  | Os_status int string
  | Os_decode

record os_client =
  oc_endpoint :: string

definition os_New :: "string \<Rightarrow> os_client" where
  "os_New endpoint = \<lparr>oc_endpoint = trim_right endpoint (CHR ''/'')\<rparr>"

definition index_url :: "os_client \<Rightarrow> string" where
  "index_url c = oc_endpoint c @ ''/'' @ ''tracks''"

definition http_Do :: "'x services \<Rightarrow> string \<Rightarrow> string \<Rightarrow> json \<Rightarrow> ('x, http_resp option) run" where
  "http_Do S meth url b = ext_call (\<lambda>x. svc_http S x \<lparr>hq_method = meth, hq_url = url, hq_body = b\<rparr>)"

section \<open>EnsureIndex\<close>

definition typed :: "string \<Rightarrow> json" where
  "typed t = JObj [(''type'', JStr t)]"

definition index_mapping :: json where
  "index_mapping = JObj [
     (''settings'', JObj [(''number_of_shards'', JNum 1), (''number_of_replicas'', JNum 0)]),
     (''mappings'', JObj [(''properties'', JObj [
        (''id'', typed ''keyword''), (''title'', typed ''text''), (''artist_name'', typed ''text''),
        (''play_count'', typed ''long''), (''status'', typed ''keyword''),
        (''suggest'', typed ''completion'')])])]"

definition os_EnsureIndex :: "'x services \<Rightarrow> os_client \<Rightarrow> ('x, os_error + unit) run" where
  "os_EnsureIndex S c = do {
     resp \<leftarrow> http_Do S ''PUT'' (index_url c) index_mapping;
     State_Monad.return (case resp of
        None \<Rightarrow> Inl Os_transport
      | Some r \<Rightarrow>
          if hr_status r = 400 then
            (if contains (hr_text r) ''resource_already_exists_exception'' then Inr ()
             else Inl (Os_body (hr_text r)))
          else if hr_status r \<ge> 300 then Inl (Os_status (hr_status r) (hr_text r))
          else Inr ())
   }"

section \<open>Index\<close>

definition document_json :: "trackDocument \<Rightarrow> json" where
  "document_json d = JObj [
     (''id'', JStr (td_id d)), (''title'', JStr (td_title d)), (''artist_name'', JStr (td_artist d)),
     (''play_count'', JNum (td_plays d)), (''status'', JStr (td_status d)),
     (''suggest'', JObj [(''input'', JArr [JStr (td_title d), JStr (td_artist d)])])]"

definition os_Index :: "'x services \<Rightarrow> os_client \<Rightarrow> trackDocument \<Rightarrow> ('x, os_error + unit) run" where
  "os_Index S c d = do {
     resp \<leftarrow> http_Do S ''PUT'' (index_url c @ ''/_doc/'' @ td_id d) (document_json d);
     State_Monad.return (case resp of
        None \<Rightarrow> Inl Os_transport
      | Some r \<Rightarrow> if hr_status r \<ge> 300 then Inl (Os_status (hr_status r) (hr_text r)) else Inr ())
   }"

section \<open>Search\<close>

definition search_query :: "string \<Rightarrow> int \<Rightarrow> json" where
  "search_query q limit = JObj [
     (''size'', JNum limit),
     (''query'', JObj [(''bool'', JObj [
        (''must'', JArr [JObj [(''multi_match'', JObj [
            (''query'', JStr q), (''fields'', JArr [JStr ''title^3'', JStr ''artist_name^2'']),
            (''fuzziness'', JStr ''AUTO'')])]]),
        (''filter'', JArr [JObj [(''term'', JObj [(''status'', JStr ''ready'')])]])])]),
     (''sort'', JArr [JStr ''_score'', JObj [(''play_count'', JStr ''desc'')]])]"

definition dec_real :: "json \<Rightarrow> rat \<Rightarrow> rat option" where
  "dec_real j old = (case j of JNum n \<Rightarrow> Some (of_int n) | JReal r \<Rightarrow> Some r | JNull \<Rightarrow> Some old | _ \<Rightarrow> None)"

definition set_result_field :: "string \<Rightarrow> json \<Rightarrow> trackResult \<Rightarrow> trackResult option" where
  "set_result_field k j r =
     (if key_eq k ''id'' then map_option (\<lambda>s. r\<lparr>rs_id := s\<rparr>) (dec_str j (rs_id r))
      else if key_eq k ''title'' then map_option (\<lambda>s. r\<lparr>rs_title := s\<rparr>) (dec_str j (rs_title r))
      else if key_eq k ''artist_name'' then map_option (\<lambda>s. r\<lparr>rs_artist := s\<rparr>) (dec_str j (rs_artist r))
      else if key_eq k ''score'' then map_option (\<lambda>s. r\<lparr>rs_score := s\<rparr>) (dec_real j (rs_score r))
      else Some r)"

definition zero_result :: trackResult where
  "zero_result = \<lparr>rs_id = '''', rs_title = '''', rs_artist = '''', rs_score = 0\<rparr>"

text \<open>A hit: its \<open>_source\<close> and its \<open>_score\<close>.\<close>

definition set_hit_field :: "string \<Rightarrow> json \<Rightarrow> trackResult \<times> rat \<Rightarrow> (trackResult \<times> rat) option" where
  "set_hit_field k j h =
     (if key_eq k ''_source'' then
        (case j of JNull \<Rightarrow> Some h
         | JObj kvs \<Rightarrow> map_option (\<lambda>r. (r, snd h)) (dec_fields set_result_field kvs (fst h))
         | _ \<Rightarrow> None)
      else if key_eq k ''_score'' then map_option (\<lambda>s. (fst h, s)) (dec_real j (snd h))
      else Some h)"

definition dec_hit :: "json \<Rightarrow> (trackResult \<times> rat) option" where
  "dec_hit = dec_struct set_hit_field (zero_result, 0)"

definition set_hits_field :: "string \<Rightarrow> json \<Rightarrow> (trackResult \<times> rat) list \<Rightarrow> (trackResult \<times> rat) list option" where
  "set_hits_field k j hs = (if key_eq k ''hits'' then dec_slice dec_hit j hs else Some hs)"

definition set_outer_field :: "string \<Rightarrow> json \<Rightarrow> (trackResult \<times> rat) list \<Rightarrow> (trackResult \<times> rat) list option" where
  "set_outer_field k j hs =
     (if key_eq k ''hits'' then
        (case j of JNull \<Rightarrow> Some hs | JObj kvs \<Rightarrow> dec_fields set_hits_field kvs hs | _ \<Rightarrow> None)
      else Some hs)"

definition dec_hits :: "doc \<Rightarrow> (trackResult \<times> rat) list option" where
  "dec_hits d = (case d of Junk \<Rightarrow> None | Doc j \<Rightarrow> dec_struct set_outer_field [] j)"

definition os_Search :: "'x services \<Rightarrow> os_client \<Rightarrow> string \<Rightarrow> int \<Rightarrow> ('x, os_error + trackResult list) run" where
  "os_Search S c q limit = do {
     resp \<leftarrow> http_Do S ''POST'' (index_url c @ ''/_search'') (search_query q limit);
     State_Monad.return (case resp of
        None \<Rightarrow> Inl Os_transport
      | Some r \<Rightarrow>
          if hr_status r \<ge> 300 then Inl (Os_status (hr_status r) (hr_text r))
          else (case dec_hits (hr_json r) of
                  None \<Rightarrow> Inl Os_decode
                | Some hs \<Rightarrow> Inr (map (\<lambda>(src, score). src\<lparr>rs_score := score\<rparr>) hs)))
   }"

section \<open>Autocomplete\<close>

definition suggest_query :: "string \<Rightarrow> int \<Rightarrow> json" where
  "suggest_query prefix limit = JObj [(''suggest'', JObj [(''track-suggest'', JObj [
     (''prefix'', JStr prefix),
     (''completion'', JObj [(''field'', JStr ''suggest''), (''size'', JNum limit),
        (''skip_duplicates'', JBool True)])])])]"

definition set_text_field :: "string \<Rightarrow> json \<Rightarrow> string \<Rightarrow> string option" where
  "set_text_field k j t = (if key_eq k ''text'' then dec_str j t else Some t)"

definition set_entry_field :: "string \<Rightarrow> json \<Rightarrow> string list \<Rightarrow> string list option" where
  "set_entry_field k j os =
     (if key_eq k ''options'' then dec_slice (dec_struct set_text_field '''') j os else Some os)"

text \<open>A Go map keyed by string: keys are compared exactly and the last one wins.\<close>

fun dec_map :: "(json \<Rightarrow> 'v option) \<Rightarrow> (string \<times> json) list \<Rightarrow> (string \<rightharpoonup> 'v) \<Rightarrow> (string \<rightharpoonup> 'v) option" where
  "dec_map dec [] m = Some m"
| "dec_map dec ((k, j) # kvs) m =
     (case dec j of None \<Rightarrow> None | Some v \<Rightarrow> dec_map dec kvs (m(k \<mapsto> v)))"

definition set_suggest_field ::
    "string \<Rightarrow> json \<Rightarrow> (string \<rightharpoonup> string list list) \<Rightarrow> (string \<rightharpoonup> string list list) option" where
  "set_suggest_field k j m =
     (if key_eq k ''suggest'' then
        (case j of
           JNull \<Rightarrow> Some Map.empty
         | JObj kvs \<Rightarrow> dec_map (\<lambda>e. dec_slice (dec_struct set_entry_field []) e []) kvs m
         | _ \<Rightarrow> None)
      else Some m)"

definition dec_suggest :: "doc \<Rightarrow> (string \<rightharpoonup> string list list) option" where
  "dec_suggest d = (case d of Junk \<Rightarrow> None | Doc j \<Rightarrow> dec_struct set_suggest_field Map.empty j)"

definition os_Autocomplete :: "'x services \<Rightarrow> os_client \<Rightarrow> string \<Rightarrow> int \<Rightarrow> ('x, os_error + string list) run" where
  "os_Autocomplete S c prefix limit = do {
     resp \<leftarrow> http_Do S ''POST'' (index_url c @ ''/_search'') (suggest_query prefix limit);
     State_Monad.return (case resp of
        None \<Rightarrow> Inl Os_transport
      | Some r \<Rightarrow>
          if hr_status r \<ge> 300 then Inl (Os_status (hr_status r) (hr_text r))
          else (case dec_suggest (hr_json r) of
                  None \<Rightarrow> Inl Os_decode
                | Some m \<Rightarrow> Inr (case m ''track-suggest'' of Some (e # _) \<Rightarrow> e | _ \<Rightarrow> [])))
   }"

section \<open>The client touches no table\<close>

lemmas os_defs = http_Do_def os_EnsureIndex_def os_Index_def os_Search_def os_Autocomplete_def

context db_relation
begin

lemma stays_os_EnsureIndex: "stays R (os_EnsureIndex S c)"
  unfolding os_defs by (intro handler_rules)

lemma stays_os_Index: "stays R (os_Index S c d)"
  unfolding os_defs by (intro handler_rules)

lemma stays_os_Search: "stays R (os_Search S c q n)"
  unfolding os_defs by (intro handler_rules)

lemma stays_os_Autocomplete: "stays R (os_Autocomplete S c p n)"
  unfolding os_defs by (intro handler_rules)

end

end
