(* ===== verification/Discovery.thy ===== *)
theory Discovery
  imports Track_Json Opensearch
begin

text \<open>
  \<open>internal/handler/recommendations.go\<close> and \<open>search.go\<close>: the handlers that answer with a
  \<open>searchResponse\<close> and keep it in Redis.
\<close>

section \<open>Statements\<close>

definition sel_top_tracks :: "trackRow select" where
  "sel_top_tracks e d = Some (map scan_track
     (order_limit (\<lambda>t. - tr_plays t) 20 (filter (\<lambda>t. tr_status t = ''ready'') (d_tracks d))))"

text \<open>The artists of the tracks a user has played, most played first, at most five.\<close>

definition user_events :: "db \<Rightarrow> uuid \<Rightarrow> play_event list" where
  "user_events d u = filter (\<lambda>p. pe_user p = Some u) (d_events d)"

definition played_artists :: "db \<Rightarrow> uuid \<Rightarrow> uuid list" where
  "played_artists d u = List.map_filter (\<lambda>p. map_option tr_artist (track_by_id d (pe_track p))) (user_events d u)"

definition user_top_artists :: "db \<Rightarrow> uuid \<Rightarrow> uuid list" where
  "user_top_artists d u = (let as = played_artists d u in
     order_limit (\<lambda>a. - int (count_list as a)) 5 (remdups as))"

definition sel_for_you :: "(string \<Rightarrow> uuid option) \<Rightarrow> string \<Rightarrow> trackRow select" where
  "sel_for_you cast uid e d = (case cast uid of None \<Rightarrow> None
     | Some u \<Rightarrow> Some (map scan_track (order_limit (\<lambda>t. - tr_plays t) 20
         (filter (\<lambda>t. tr_artist t \<in> set (user_top_artists d u) \<and>
                      tr_id t \<notin> pe_track ` set (user_events d u) \<and> tr_status t = ''ready'') (d_tracks d)))))"

definition sel_similar :: "(string \<Rightarrow> uuid option) \<Rightarrow> string \<Rightarrow> trackRow select" where
  "sel_similar cast i e d = (case cast i of None \<Rightarrow> None
     | Some u \<Rightarrow> Some (case track_by_id d u of None \<Rightarrow> []
         | Some t0 \<Rightarrow> map scan_track (order_limit (\<lambda>t. - tr_plays t) 10
             (filter (\<lambda>t. tr_artist t = tr_artist t0 \<and> tr_id t \<noteq> u \<and> tr_status t = ''ready'') (d_tracks d)))))"

text \<open>\<open>id = ANY($1)\<close>: one id that does not convert refuses the statement.\<close>

definition sel_by_ids :: "(string \<Rightarrow> uuid option) \<Rightarrow> string list \<Rightarrow> trackRow select" where
  "sel_by_ids cast ids e d = (if \<exists>i \<in> set ids. cast i = None then None
     else Some (map scan_track (filter (\<lambda>t. Some (tr_id t) \<in> cast ` set ids) (d_tracks d))))"

definition sel_full_text ::
    "(string \<Rightarrow> string \<Rightarrow> bool) \<Rightarrow> (string \<Rightarrow> string \<Rightarrow> rat) \<Rightarrow> string \<Rightarrow> trackRow select" where
  "sel_full_text mtch rank q e d = Some (map scan_track_no_status (take 20
     (sort_key (\<lambda>t. - rank (tr_title t) q) (sort_key (\<lambda>t. - tr_plays t)
        (filter (\<lambda>t. mtch (tr_title t) q) (d_tracks d))))))"

section \<open>Recommendations\<close>

definition response_of :: "trackRow list \<Rightarrow> searchResponse" where
  "response_of ts = \<lparr>sr_items = ts, sr_total = int (length ts)\<rparr>"

text \<open>Marshalling a response, caching it and sending it: the common end of these handlers.\<close>

definition cache_and_send :: "'x services \<Rightarrow> string \<Rightarrow> int \<Rightarrow> trackRow list \<Rightarrow> ('x, reply) run" where
  "cache_and_send S key ttl ts = do {
     cache_Set S key (Doc (enc_search (response_of ts))) ttl;
     ok_json 200 (enc_search (response_of ts))
   }"

definition recs_TopTracks :: "'x services \<Rightarrow> ('x, reply) run" where
  "recs_TopTracks S = (let key = ''recs:top'' in do {
     cached \<leftarrow> cache_Get S key;
     (case decode_cached dec_search cached of
        Some r \<Rightarrow> do { inc_metric (CacheHits ''recs_top''); ok_json 200 (enc_search r) }
      | None \<Rightarrow> do {
          inc_metric (CacheMisses ''recs_top'');
          rows \<leftarrow> sql_query S sel_top_tracks;
          (case rows of
             None \<Rightarrow> fail_with 500 ''failed to fetch top tracks''
           | Some ts \<Rightarrow> cache_and_send S key 300 ts)
        })
   })"

definition recs_ForYou :: "'x services \<Rightarrow> gin_ctx \<Rightarrow> ('x, reply) run" where
  "recs_ForYou S cx = (let uid = key_string cx ''user_id''; key = ''recs:foryou:'' @ uid in
     if uid = '''' then fail_with 401 ''authentication required''
     else do {
       cached \<leftarrow> cache_Get S key;
       (case decode_cached dec_search cached of
          Some r \<Rightarrow> do { inc_metric (CacheHits ''recs_foryou''); ok_json 200 (enc_search r) }
        | None \<Rightarrow> do {
            inc_metric (CacheMisses ''recs_foryou'');
            rows \<leftarrow> sql_query S (sel_for_you (svc_cast S) uid);
            (case rows of
               None \<Rightarrow> fail_with 500 ''failed to fetch recommendations''
             | Some ts \<Rightarrow> cache_and_send S key 600 ts)
          })
     })"

definition recs_Similar :: "'x services \<Rightarrow> gin_ctx \<Rightarrow> ('x, reply) run" where
  "recs_Similar S cx = (let i = param cx ''id''; key = ''recs:similar:'' @ i in
     if \<not> svc_uuid_ok S i then fail_with 400 ''invalid track id''
     else do {
       cached \<leftarrow> cache_Get S key;
       (case decode_cached dec_search cached of
          Some r \<Rightarrow> do { inc_metric (CacheHits ''recs_similar''); ok_json 200 (enc_search r) }
        | None \<Rightarrow> do {
            inc_metric (CacheMisses ''recs_similar'');
            rows \<leftarrow> sql_query S (sel_similar (svc_cast S) i);
            (case rows of
               None \<Rightarrow> fail_with 500 ''failed to fetch similar tracks''
             | Some ts \<Rightarrow> cache_and_send S key 3600 ts)
          })
     })"

section \<open>Search\<close>

definition full_text_search :: "'x services \<Rightarrow> string \<Rightarrow> string \<Rightarrow> ('x, reply) run" where
  "full_text_search S key q = do {
     rows \<leftarrow> sql_query S (sel_full_text (svc_match S) (svc_rank S) q);
     (case rows of
        None \<Rightarrow> fail_with 500 ''search failed''
      | Some ts \<Rightarrow> cache_and_send S key 60 ts)
   }"

definition search_Search :: "'x services \<Rightarrow> os_client option \<Rightarrow> gin_ctx \<Rightarrow> ('x, reply) run" where
  "search_Search S os cx = (let q = query_or_empty cx ''q''; key = ''search:'' @ q in
     if q = '''' then fail_with 400 ''q parameter is required''
     else do {
       cached \<leftarrow> cache_Get S key;
       (case decode_cached dec_search cached of
          Some r \<Rightarrow> do { inc_metric (CacheHits ''search''); ok_json 200 (enc_search r) }
        | None \<Rightarrow> do {
            inc_metric (CacheMisses ''search'');
            (case os of
               None \<Rightarrow> full_text_search S key q
             | Some c \<Rightarrow> do {
                 found \<leftarrow> os_Search S c q 20;
                 (case found of
                    Inl _ \<Rightarrow> full_text_search S key q
                  | Inr rs \<Rightarrow>
                      (if rs = [] then full_text_search S key q
                       else do {
                         rows \<leftarrow> sql_query S (sel_by_ids (svc_cast S) (map rs_id rs));
                         (case rows of
                            None \<Rightarrow> full_text_search S key q
                          | Some ts \<Rightarrow> cache_and_send S key 60 ts)
                       }))
               })
          })
     })"

definition search_Autocomplete :: "'x services \<Rightarrow> os_client option \<Rightarrow> gin_ctx \<Rightarrow> ('x, reply) run" where
  "search_Autocomplete S os cx = (let q = query_or_empty cx ''q'' in
     if q = '''' then fail_with 400 ''q parameter is required''
     else (case os of
        None \<Rightarrow> fail_with 503 ''autocomplete requires OpenSearch''
      | Some c \<Rightarrow> do {
          r \<leftarrow> os_Autocomplete S c q 5;
          (case r of
             Inl _ \<Rightarrow> fail_with 500 ''autocomplete failed''
           | Inr ss \<Rightarrow> ok_json 200 (JObj [(''suggestions'', JArr (map JStr ss))]))
        }))"

section \<open>Contents of the answers\<close>

lemma sel_top_tracks_ready:
  "sel_top_tracks e d = Some rows \<Longrightarrow> r \<in> set rows \<Longrightarrow> row_status r = ''ready''"
  by (auto simp: sel_top_tracks_def scan_track_def dest!: subsetD [OF set_order_limit])

lemma sel_for_you_None_played:
  assumes "\<forall>p \<in> set (d_events d). pe_user p = None" and "sel_for_you cast uid e d = Some rows"
  shows "rows = []"
proof -
  have "user_events d u = []" for u
    using assms(1) by (auto simp: user_events_def filter_empty_conv)
  then have "user_top_artists d u = []" for u
    by (simp add: user_top_artists_def played_artists_def map_filter_simps order_limit_def)
  with assms(2) show ?thesis
    by (auto simp: sel_for_you_def order_limit_def split: option.splits)
qed

end
