(* ===== verification/Tracks.thy ===== *)
theory Tracks
  imports Track_Json
begin

text \<open>
  \<open>internal/handler/tracks.go\<close>: the SQL of the handlers as statements on the tables, and the
  handlers \<open>List\<close>, \<open>Get\<close>, \<open>Stream\<close>, \<open>Create\<close> with the goroutine \<open>Stream\<close> starts; \<open>bytesReader\<close>.
\<close>

section \<open>Statements\<close>

definition sel_recent_tracks :: "trackRow select" where
  "sel_recent_tracks e d = Some (map scan_track (order_limit (\<lambda>t. - tr_created t) 50 (d_tracks d)))"

definition sel_track :: "(string \<Rightarrow> uuid option) \<Rightarrow> string \<Rightarrow> trackRow stmt" where
  "sel_track cast i = select_row (\<lambda>d. case cast i of None \<Rightarrow> None
     | Some u \<Rightarrow> map_option scan_track (track_by_id d u))"

definition sel_formats :: "(string \<Rightarrow> uuid option) \<Rightarrow> string \<Rightarrow> formatRow select" where
  "sel_formats cast i e d = (case cast i of None \<Rightarrow> None
     | Some u \<Rightarrow> Some (map scan_format (sort_key tf_bitrate (formats_of d u))))"

definition sel_format_key ::
    "(string \<Rightarrow> uuid option) \<Rightarrow> (string \<Rightarrow> int option) \<Rightarrow> string \<Rightarrow> string \<Rightarrow> string stmt" where
  "sel_format_key cast cast_int i quality = select_row (\<lambda>d. case (cast i, cast_int quality) of
       (Some u, Some b) \<Rightarrow> map_option tf_key (find (\<lambda>f. tf_track f = u \<and> tf_bitrate f = b) (d_formats d))
     | _ \<Rightarrow> None)"

definition sel_audio_key :: "(string \<Rightarrow> uuid option) \<Rightarrow> string \<Rightarrow> string stmt" where
  "sel_audio_key cast i = select_row (\<lambda>d. case cast i of None \<Rightarrow> None
     | Some u \<Rightarrow> map_option tr_audio (track_by_id d u))"

definition sel_artist_exists :: "(string \<Rightarrow> uuid option) \<Rightarrow> string \<Rightarrow> bool stmt" where
  "sel_artist_exists cast a = select_row (\<lambda>d. case cast a of None \<Rightarrow> None
     | Some u \<Rightarrow> Some (u \<in> artist_ids d))"

definition ins_track ::
    "(string \<Rightarrow> uuid option) \<Rightarrow> string \<Rightarrow> string \<Rightarrow> string \<Rightarrow> string \<Rightarrow> trackRow stmt" where
  "ins_track cast i title a audio e d =
     (case (cast i, cast a) of
        (Some u, Some au) \<Rightarrow>
          (let t = \<lparr>tr_id = u, tr_title = title, tr_artist = au, tr_duration = 0, tr_audio = audio,
                    tr_release = None, tr_plays = 0, tr_created = e_now e, tr_status = ''pending''\<rparr>
           in if au \<notin> artist_ids d then None
              else (case insert_row tr_id t (d_tracks d) of None \<Rightarrow> None
                    | Some ts \<Rightarrow> Some (scan_track t, d\<lparr>d_tracks := ts\<rparr>)))
      | _ \<Rightarrow> None)"

section \<open>Handlers\<close>

definition items_total :: "json list \<Rightarrow> json" where
  "items_total xs = JObj [(''items'', JArr xs), (''total'', JNum (int (length xs)))]"

definition tracks_List :: "'x services \<Rightarrow> ('x, reply) run" where
  "tracks_List S = do {
     rows \<leftarrow> sql_query S sel_recent_tracks;
     (case rows of
        None \<Rightarrow> fail_with 500 ''failed to list tracks''
      | Some ts \<Rightarrow> ok_json 200 (items_total (map enc_track ts)))
   }"

definition tracks_Get :: "'x services \<Rightarrow> gin_ctx \<Rightarrow> ('x, reply) run" where
  "tracks_Get S cx = (let i = param cx ''id''; key = ''track:'' @ i in
     if \<not> svc_uuid_ok S i then fail_with 400 ''invalid track id''
     else do {
       cached \<leftarrow> cache_Get S key;
       (case decode_cached dec_track cached of
          Some t \<Rightarrow> do { inc_metric (CacheHits ''track''); ok_json 200 (enc_track t) }
        | None \<Rightarrow> do {
            inc_metric (CacheMisses ''track'');
            row \<leftarrow> sql S (sel_track (svc_cast S) i);
            (case row of
               None \<Rightarrow> fail_with 404 ''track not found''
             | Some t0 \<Rightarrow> do {
                 fmts \<leftarrow> sql_query S (sel_formats (svc_cast S) i);
                 let t = (case fmts of None \<Rightarrow> t0 | Some fs \<Rightarrow> t0\<lparr>row_formats := fs\<rparr>);
                 (if row_status t = ''ready'' then cache_Set S key (Doc (enc_track t)) 3600
                  else State_Monad.return ());
                 ok_json 200 (enc_track t)
               })
          })
     })"

text \<open>
  \<open>Stream\<close> starts the goroutine before it asks for the presigned URL; the reply does not wait for
  it. A nil store is dereferenced when the URL is made.
\<close>

definition tracks_Stream :: "'x services \<Rightarrow> app \<Rightarrow> gin_ctx \<Rightarrow> ('x, reply) run" where
  "tracks_Stream S A cx = (let i = param cx ''id'' in
     if \<not> svc_uuid_ok S i then fail_with 400 ''invalid track id''
     else do {
       let quality = default_query cx ''quality'' ''128'';
       by_quality \<leftarrow> sql S (sel_format_key (svc_cast S) (svc_cast_int S) i quality);
       audioKey \<leftarrow> (case by_quality of
           Some k \<Rightarrow> State_Monad.return (Some k)
         | None \<Rightarrow> sql S (sel_audio_key (svc_cast S) i));
       (case audioKey of
          None \<Rightarrow> fail_with 404 ''track not found''
        | Some k \<Rightarrow> do {
            spawn (Publish_play i);
            (case app_store A of
               None \<Rightarrow> State_Monad.return Panicked
             | Some st \<Rightarrow> do {
                 u \<leftarrow> storage_PresignedURL S st k 3600;
                 (case u of
                    None \<Rightarrow> fail_with 500 ''could not generate stream URL''
                  | Some url \<Rightarrow> State_Monad.return (Reply 307 (Location url)))
               })
          })
     })"

text \<open>
  The goroutine: the header is read from gin's context when it runs; a nil producer is dereferenced
  outside gin's recovery, which ends the process.
\<close>

definition play_event_json :: "string \<Rightarrow> string \<Rightarrow> instant \<Rightarrow> json" where
  "play_event_json i src now = JObj [(''track_id'', JStr i), (''source'', JStr src),
     (''timestamp'', JTime (now div 10 ^ 9 * 10 ^ 9))]"

definition publish_play :: "'x services \<Rightarrow> app \<Rightarrow> string \<Rightarrow> ('x, unit) run" where
  "publish_play S A i = do {
     c \<leftarrow> ext_call (svc_late S);
     now \<leftarrow> ext_call (svc_clock S);
     (if app_producer A
      then do { _ \<leftarrow> queue_Publish S ''play.events'' i (play_event_json i (lc_source c) now); State_Monad.return () }
      else crash)
   }"

definition audio_key_of :: "string \<Rightarrow> string" where
  "audio_key_of trackID = ''tracks/'' @ trackID @ ''/audio''"

definition upload_event_json :: "string \<Rightarrow> string \<Rightarrow> json" where
  "upload_event_json i key = JObj [(''track_id'', JStr i), (''audio_key'', JStr key)]"

definition tracks_Create :: "'x services \<Rightarrow> app \<Rightarrow> gin_ctx \<Rightarrow> ('x, reply) run" where
  "tracks_Create S A cx = (let title = rq_form (cx_req cx) ''title''; artistID = rq_form (cx_req cx) ''artist_id'' in
     if title = '''' \<or> artistID = '''' then fail_with 400 ''title and artist_id are required''
     else (case rq_file (cx_req cx) ''audio'' of
        None \<Rightarrow> fail_with 400 ''audio file is required''
      | Some file \<Rightarrow> do {
          artist \<leftarrow> sql S (sel_artist_exists (svc_cast S) artistID);
          (if artist \<noteq> Some True then fail_with 400 ''artist not found''
           else do {
             trackID \<leftarrow> ext_call (svc_uuid_new S);
             let audioKey = audio_key_of trackID;
             let contentType = (if up_ctype file = '''' then ''audio/mpeg'' else up_ctype file);
             (case up_data file of
                None \<Rightarrow> fail_with 500 ''failed to read file''
              | Some data \<Rightarrow> (case app_store A of
                  None \<Rightarrow> State_Monad.return Panicked
                | Some st \<Rightarrow> do {
                    up \<leftarrow> storage_Upload S st audioKey data contentType;
                    (if \<not> up then fail_with 500 ''failed to upload audio''
                     else do {
                       row \<leftarrow> sql S (ins_track (svc_cast S) trackID title artistID audioKey);
                       (case row of
                          None \<Rightarrow> fail_with 500 ''failed to save track''
                        | Some t \<Rightarrow>
                            (if \<not> app_producer A then State_Monad.return Panicked
                             else do {
                               sent \<leftarrow> queue_Publish S ''track.uploads'' trackID (upload_event_json trackID audioKey);
                               (if sent then ok_json 202 (enc_track t)
                                else fail_with 500 ''failed to queue upload'')
                             }))
                     })
                  }))
           })
        }))"

section \<open>bytesReader\<close>

record bytesReader =
  br_data :: string
  br_offset :: nat

definition newBytesReader :: "string \<Rightarrow> bytesReader" where
  "newBytesReader data = \<lparr>br_data = data, br_offset = 0\<rparr>"

text \<open>\<open>Read(p)\<close> with a buffer of \<open>n\<close> bytes: \<^term>\<open>None\<close> is \<open>io.EOF\<close>.\<close>

definition br_Read :: "bytesReader \<Rightarrow> nat \<Rightarrow> string option \<times> bytesReader" where
  "br_Read r n =
     (if br_offset r \<ge> length (br_data r) then (None, r)
      else let p = take n (drop (br_offset r) (br_data r))
           in (Some p, r\<lparr>br_offset := br_offset r + length p\<rparr>))"

text \<open>\<open>io.ReadAll\<close> with a fixed buffer, in at most \<open>fuel\<close> calls.\<close>

fun br_read_all :: "nat \<Rightarrow> bytesReader \<Rightarrow> nat \<Rightarrow> string option" where
  "br_read_all 0 r n = None"
| "br_read_all (Suc fuel) r n =
     (case br_Read r n of
        (None, r') \<Rightarrow> Some []
      | (Some p, r') \<Rightarrow> map_option ((@) p) (br_read_all fuel r' n))"

lemma br_read_all_drop:
  assumes "0 < n" and "length (br_data r) - br_offset r < fuel"
  shows "br_read_all fuel r n = Some (drop (br_offset r) (br_data r))"
  using assms(2)
proof (induction fuel arbitrary: r)
  case (Suc fuel)
  show ?case
  proof (cases "br_offset r \<ge> length (br_data r)")
    case True
    then show ?thesis by (simp add: br_Read_def)
  next
    case False
    let ?p = "take n (drop (br_offset r) (br_data r))"
    let ?r = "r\<lparr>br_offset := br_offset r + length ?p\<rparr>"
    have "0 < length ?p" using False assms(1) by simp
    then have "length (br_data ?r) - br_offset ?r < fuel"
      using Suc.prems False by simp
    then have "br_read_all fuel ?r n = Some (drop (br_offset ?r) (br_data ?r))"
      by (rule Suc.IH)
    moreover have "?p @ drop (br_offset r + length ?p) (br_data r) = drop (br_offset r) (br_data r)"
      by (metis append_take_drop_id drop_drop add.commute length_take min.commute take_all_iff
          append_eq_conv_conj length_drop)
    ultimately show ?thesis using False by (simp add: br_Read_def Let_def)
  qed
qed simp

end
