(* ===== verification/Routes.thy ===== *)
theory Routes
  imports Observe Rate_Limit Audit_Log Auth_Handler Playlists Library_Handlers Discovery Tracks
begin

text \<open>
  \<open>cmd/api/main.go\<close>: what the environment configures, the route table with the middlewares of
  each route, and the goroutines that handlers start. gin's matching of a path against the templates
  is the library's: a request carries the template it matched (\<^const>\<open>rq_route\<close>, empty when none).
\<close>

section \<open>Configuration\<close>

definition getEnv :: "(string \<Rightarrow> string) \<Rightarrow> string \<Rightarrow> string \<Rightarrow> string" where
  "getEnv env key fallback = (if env key \<noteq> '''' then env key else fallback)"

text \<open>\<^term>\<open>None\<close> is \<open>Fatal\<close>: the process ends.\<close>

definition mustEnv :: "(string \<Rightarrow> string) \<Rightarrow> string \<Rightarrow> string option" where
  "mustEnv env key = (if env key = '''' then None else Some (env key))"

record 'x server =
  sv_services :: "'x services"
  sv_crypto :: "'x crypto"
  sv_engine :: "'x engine"
  sv_app :: app
  sv_search :: "os_client option"
  sv_secret :: string
  sv_origins :: string

definition dev_secret :: string where
  "dev_secret = ''dev-secret-change-in-production''"

section \<open>Routes\<close>

definition status_json :: "string \<Rightarrow> json" where
  "status_json s = JObj [(''status'', JStr s)]"

definition health :: "gin_ctx \<Rightarrow> ('x, reply) run" where
  "health cx = ok_json 200 (status_json ''ok'')"

definition ready :: "'x services \<Rightarrow> gin_ctx \<Rightarrow> ('x, reply) run" where
  "ready S cx = do {
     e \<leftarrow> ext_call (svc_pg S);
     (if e_fault e = Fine then ok_json 200 (status_json ''ready'') else ok_json 503 (status_json ''db unavailable''))
   }"

definition requireAuth :: "'x server \<Rightarrow> 'x chain \<Rightarrow> 'x chain" where
  "requireAuth sv = RequireAuth (sv_services sv) (sv_crypto sv) (sv_secret sv)"

text \<open>The routes of the group \<open>/v1\<close> that require a token, with their handlers.\<close>

definition protected_routes :: "'x server \<Rightarrow> ((string \<times> string) \<times> (gin_ctx \<Rightarrow> ('x, reply) run)) list" where
  "protected_routes sv = (let S = sv_services sv in
     [((''GET'', ''/v1/auth/me''), auth_Me S),
      ((''DELETE'', ''/v1/me''), auth_DeleteMe S),
      ((''GET'', ''/v1/me/export''), auth_ExportMe S),
      ((''POST'', ''/v1/artists''), artists_Create S),
      ((''POST'', ''/v1/tracks''), tracks_Create S (sv_app sv)),
      ((''POST'', ''/v1/playlists''), playlists_Create S),
      ((''DELETE'', ''/v1/playlists/:id''), playlists_Delete S),
      ((''POST'', ''/v1/playlists/:id/tracks''), playlists_AddTrack S),
      ((''DELETE'', ''/v1/playlists/:id/tracks/:track_id''), playlists_RemoveTrack S),
      ((''GET'', ''/v1/favorites''), favorites_List S),
      ((''GET'', ''/v1/favorites/ids''), favorites_IDs S),
      ((''POST'', ''/v1/favorites''), favorites_Add S),
      ((''DELETE'', ''/v1/favorites/:track_id''), favorites_Remove S),
      ((''GET'', ''/v1/recommendations/for-you''), recs_ForYou S)])"

definition admin_routes :: "'x server \<Rightarrow> ((string \<times> string) \<times> (gin_ctx \<Rightarrow> ('x, reply) run)) list" where
  "admin_routes sv = (let S = sv_services sv in
     [((''GET'', ''/v1/admin/users''), \<lambda>_. admin_ListUsers S),
      ((''DELETE'', ''/v1/admin/users/:id''), admin_DeleteUser S),
      ((''GET'', ''/v1/admin/audit-logs''), \<lambda>_. admin_ListAuditLogs S)])"

definition public_routes :: "'x server \<Rightarrow> ((string \<times> string) \<times> (gin_ctx \<Rightarrow> ('x, reply) run)) list" where
  "public_routes sv = (let S = sv_services sv in
     [((''POST'', ''/v1/auth/register''), auth_Register S (sv_crypto sv) (sv_secret sv)),
      ((''GET'', ''/v1/artists''), \<lambda>_. artists_List S),
      ((''GET'', ''/v1/artists/:id''), artists_Get S),
      ((''GET'', ''/v1/tracks''), \<lambda>_. tracks_List S),
      ((''GET'', ''/v1/tracks/:id''), tracks_Get S),
      ((''GET'', ''/v1/playlists''), \<lambda>_. playlists_List S),
      ((''GET'', ''/v1/playlists/:id''), playlists_Get S),
      ((''GET'', ''/v1/playlists/:id/tracks''), playlists_ListTracks S),
      ((''GET'', ''/v1/search''), search_Search S (sv_search sv)),
      ((''GET'', ''/v1/search/autocomplete''), search_Autocomplete S (sv_search sv)),
      ((''GET'', ''/v1/recommendations/top''), \<lambda>_. recs_TopTracks S),
      ((''GET'', ''/v1/tracks/:id/similar''), recs_Similar S)])"

text \<open>The two routes with a rate limit of their own.\<close>

definition login_chain :: "'x server \<Rightarrow> 'x chain" where
  "login_chain sv = LoginRateLimit (sv_services sv)
     (finish (auth_Login (sv_services sv) (sv_crypto sv) (sv_secret sv)))"

definition stream_chain :: "'x server \<Rightarrow> 'x chain" where
  "stream_chain sv = StreamRateLimit (sv_services sv) 100
     (finish (tracks_Stream (sv_services sv) (sv_app sv)))"

definition on_routes :: "('h \<Rightarrow> 'c) \<Rightarrow> ('k \<times> 'h) list \<Rightarrow> ('k \<times> 'c) list" where
  "on_routes f = map (\<lambda>(k, h). (k, f h))"

definition v1_routes :: "'x server \<Rightarrow> ((string \<times> string) \<times> 'x chain) list" where
  "v1_routes sv =
     [((''POST'', ''/v1/auth/login''), login_chain sv),
      ((''GET'', ''/v1/tracks/:id/stream''), stream_chain sv)] @
     on_routes finish (public_routes sv) @
     on_routes (\<lambda>h. requireAuth sv (finish h)) (protected_routes sv) @
     on_routes (\<lambda>h. requireAuth sv (RequireRole ''admin'' (finish h))) (admin_routes sv)"

definition routes :: "'x server \<Rightarrow> ((string \<times> string) \<times> 'x chain) list" where
  "routes sv =
     [((''GET'', ''/healthz''), finish health), ((''GET'', ''/health''), finish health),
      ((''GET'', ''/ready''), finish (ready (sv_services sv)))] @
     on_routes AuditLog (v1_routes sv)"

definition dispatch :: "'x server \<Rightarrow> 'x chain" where
  "dispatch sv cx = (case map_of (routes sv) (rq_method (cx_req cx), rq_route (cx_req cx)) of
      Some h \<Rightarrow> h cx
    | None \<Rightarrow> en_unrouted (sv_engine sv) cx)"

definition serve :: "'x server \<Rightarrow> request \<Rightarrow> ('x, outcome) run" where
  "serve sv rq = stack (sv_services sv) (sv_engine sv) (sv_origins sv) (dispatch sv)
     \<lparr>cx_req = rq, cx_keys = Map.empty\<rparr>"

section \<open>Goroutines\<close>

definition run_task :: "'x server \<Rightarrow> task \<Rightarrow> ('x, unit) run" where
  "run_task sv t = (case t of
      Publish_play i \<Rightarrow> publish_play (sv_services sv) (sv_app sv) i
    | Write_audit uid action rtype rid rqid \<Rightarrow> write_audit (sv_services sv) uid action rtype rid rqid)"

section \<open>The table\<close>

lemma keys_on_routes [simp]: "fst ` set (on_routes f rs) = fst ` set rs"
  by (force simp: on_routes_def)

lemma map_fst_on_routes [simp]: "map fst (on_routes f rs) = map fst rs"
  by (induction rs) (auto simp: on_routes_def)

lemma map_of_on_routes: "map_of (on_routes f rs) k = map_option f (map_of rs k)"
  by (induction rs) (auto simp: on_routes_def)

lemmas route_tables = routes_def v1_routes_def public_routes_def protected_routes_def admin_routes_def

lemma routes_distinct: "distinct (map fst (routes sv))"
  by (simp add: route_tables Let_def)

lemma route_eq: "((m, r), h) \<in> set (routes sv) \<Longrightarrow> map_of (routes sv) (m, r) = Some h"
  by (simp add: routes_distinct)

end
