(* ===== verification/Transcode.thy ===== *)
theory Transcode
  imports Http
begin

text \<open>
  \<open>internal/worker/transcode.go\<close>: \<open>Transcode\<close> and \<open>ProbeDuration\<close>. The file system and the processes
  the worker starts are a parameter (\<open>tools\<close>); the argument vectors, the file names and the parsing
  of ffprobe's output are the code's. A \<open>float64\<close> is an exact rational: rounding is not modelled, and
  of the syntaxes of \<open>strconv.ParseFloat\<close> only the decimal one that ffprobe prints is accepted.
\<close>

record 'x tools =
  tl_mktemp :: "'x \<Rightarrow> string \<Rightarrow> string option \<times> 'x"
  tl_create :: "'x \<Rightarrow> string \<Rightarrow> bool \<times> 'x"
  tl_copy :: "'x \<Rightarrow> string \<Rightarrow> string \<Rightarrow> bool \<times> 'x"
  tl_exec :: "'x \<Rightarrow> string list \<Rightarrow> string option \<times> 'x"
  tl_stat :: "'x \<Rightarrow> string \<Rightarrow> int option \<times> 'x"
  tl_read :: "'x \<Rightarrow> string \<Rightarrow> string option \<times> 'x"
  tl_remove_all :: "'x \<Rightarrow> string \<Rightarrow> 'x"

definition Bitrates :: "int list" where
  "Bitrates = [64, 128, 320]"

record transcodeResult =
  ts_bitrate :: int
  ts_key :: string
  ts_path :: string
  ts_size :: int

datatype transcode_error = Ffmpeg_failed int | Stat_failed

definition path_join :: "string \<Rightarrow> string \<Rightarrow> string" where
  "path_join dir f = dir @ ''/'' @ f"

definition format_key :: "string \<Rightarrow> int \<Rightarrow> string" where
  "format_key trackID bitrate = ''tracks/'' @ trackID @ ''/'' @ itoa bitrate @ ''.ogg''"

definition ffmpeg_args :: "string \<Rightarrow> int \<Rightarrow> string \<Rightarrow> string list" where
  "ffmpeg_args inp bitrate out = [''ffmpeg'', ''-y'', ''-i'', inp, ''-c:a'', ''libvorbis'',
     ''-b:a'', itoa bitrate @ ''k'', ''-vn'', ''-f'', ''ogg'', out]"

definition transcode ::
    "'x tools \<Rightarrow> string \<Rightarrow> string \<Rightarrow> int \<Rightarrow> string \<Rightarrow> ('x, transcode_error + transcodeResult) run" where
  "transcode T inp trackID bitrate dir = (let out = path_join dir (itoa bitrate @ ''.ogg'') in do {
     ran \<leftarrow> ext_call (\<lambda>x. tl_exec T x (ffmpeg_args inp bitrate out));
     (case ran of
        None \<Rightarrow> State_Monad.return (Inl (Ffmpeg_failed bitrate))
      | Some _ \<Rightarrow> do {
          info \<leftarrow> ext_call (\<lambda>x. tl_stat T x out);
          State_Monad.return (case info of
             None \<Rightarrow> Inl Stat_failed
           | Some n \<Rightarrow> Inr \<lparr>ts_bitrate = bitrate, ts_key = format_key trackID bitrate, ts_path = out, ts_size = n\<rparr>)
        })
   })"

section \<open>ProbeDuration\<close>

definition is_digit :: "char \<Rightarrow> bool" where
  "is_digit c = (48 \<le> (of_char c :: nat) \<and> (of_char c :: nat) \<le> 57)"

text \<open>An optional sign, digits, optionally a point and digits; at least one digit.\<close>

definition parse_decimal :: "string \<Rightarrow> rat option" where
  "parse_decimal s =
     (let (neg, r) = (case s of c # cs \<Rightarrow> if c = CHR ''-'' then (True, cs) else if c = CHR ''+'' then (False, cs) else (False, s) | [] \<Rightarrow> (False, []));
          ip = takeWhile is_digit r; rest = dropWhile is_digit r;
          fp = (case rest of c # cs \<Rightarrow> if c = CHR ''.'' then cs else [] | [] \<Rightarrow> []);
          well = (case rest of [] \<Rightarrow> ip \<noteq> [] | c # cs \<Rightarrow> c = CHR ''.'' \<and> list_all is_digit cs \<and> (ip \<noteq> [] \<or> cs \<noteq> []));
          v = of_nat (digits_val ip) + of_nat (digits_val fp) / 10 ^ length fp
      in if well then Some (if neg then - v else v) else None)"

text \<open>Conversion of a float to \<open>int\<close> truncates towards zero.\<close>

definition trunc_rat :: "rat \<Rightarrow> int" where
  "trunc_rat r = (if r < 0 then - \<lfloor>- r\<rfloor> else \<lfloor>r\<rfloor>)"

definition duration_of_output :: "string \<Rightarrow> int option" where
  "duration_of_output out = map_option (\<lambda>s. trunc_rat (s * 1000)) (parse_decimal (trim_space out))"

definition ffprobe_args :: "string \<Rightarrow> string list" where
  "ffprobe_args inp = [''ffprobe'', ''-v'', ''error'', ''-show_entries'', ''format=duration'',
     ''-of'', ''default=noprint_wrappers=1:nokey=1'', inp]"

definition probeDuration :: "'x tools \<Rightarrow> string \<Rightarrow> ('x, int option) run" where
  "probeDuration T inp = do {
     out \<leftarrow> ext_call (\<lambda>x. tl_exec T x (ffprobe_args inp));
     State_Monad.return (case out of None \<Rightarrow> None | Some o' \<Rightarrow> duration_of_output o')
   }"

context db_relation
begin

lemma stays_transcode: "stays R (transcode T inp i b dir)"
  unfolding transcode_def by (intro handler_rules)

lemma stays_probeDuration: "stays R (probeDuration T inp)"
  unfolding probeDuration_def by (intro handler_rules)

end

lemma format_key_inj [simp]: "format_key i b = format_key i c \<longleftrightarrow> b = c"
  by (simp add: format_key_def)

end
