(* ===== verification/Upload_Worker.thy ===== *)
theory Upload_Worker
  imports Tracks Opensearch Transcode
begin

text \<open>
  \<open>internal/worker/upload.go\<close>: one upload event, from the status check to the search index. The
  statements of the worker are definitions on the tables; every call may fail as the services and
  tools say, and each error return of the code is a constructor of \<open>upload_error\<close>. \<open>Nil_store\<close> is not
  one of them: a worker that was started without a bucket has no store, and the first call on the nil
  pointer panics outside any recovery, which ends the process.
\<close>

datatype upload_error =
    Err_unmarshal | Err_status_check | Err_set_processing | Err_temp_dir | Err_download | Err_probe
  | Err_transcode int | Err_read | Err_upload int | Err_insert_format | Err_set_ready | Nil_store

record uploadEvent =
  ue_track :: string
  ue_audio :: string

section \<open>Statements\<close>

definition sel_status :: "(string \<Rightarrow> uuid option) \<Rightarrow> string \<Rightarrow> string stmt" where
  "sel_status cast i = select_row (\<lambda>d. case cast i of None \<Rightarrow> None
     | Some u \<Rightarrow> map_option tr_status (track_by_id d u))"

definition upd_processing :: "(string \<Rightarrow> uuid option) \<Rightarrow> string \<Rightarrow> nat stmt" where
  "upd_processing cast i e d = (case cast i of None \<Rightarrow> None
     | Some u \<Rightarrow> (let P = (\<lambda>t. tr_id t = u \<and> tr_status t = ''pending'') in
         Some (affected P (d_tracks d),
               d\<lparr>d_tracks := update_where P (\<lambda>t. t\<lparr>tr_status := ''processing''\<rparr>) (d_tracks d)\<rparr>)))"

definition upd_error :: "(string \<Rightarrow> uuid option) \<Rightarrow> string \<Rightarrow> nat stmt" where
  "upd_error cast i e d = (case cast i of None \<Rightarrow> None
     | Some u \<Rightarrow> (let P = (\<lambda>t. tr_id t = u) in
         Some (affected P (d_tracks d),
               d\<lparr>d_tracks := update_where P (\<lambda>t. t\<lparr>tr_status := ''error''\<rparr>) (d_tracks d)\<rparr>)))"

text \<open>\<open>duration_ms\<close> is an \<open>INT\<close>: a value that does not fit is refused.\<close>

definition upd_ready :: "(string \<Rightarrow> uuid option) \<Rightarrow> int \<Rightarrow> string \<Rightarrow> nat stmt" where
  "upd_ready cast duration i e d = (case cast i of None \<Rightarrow> None
     | Some u \<Rightarrow> (let P = (\<lambda>t. tr_id t = u) in
         if \<not> int32 duration then None
         else Some (affected P (d_tracks d),
               d\<lparr>d_tracks := update_where P (\<lambda>t. t\<lparr>tr_status := ''ready'', tr_duration := duration\<rparr>) (d_tracks d)\<rparr>)))"

definition ins_format ::
    "(string \<Rightarrow> uuid option) \<Rightarrow> string \<Rightarrow> int \<Rightarrow> string \<Rightarrow> int \<Rightarrow> unit stmt" where
  "ins_format cast i bitrate key bytes e d = (case cast i of None \<Rightarrow> None
     | Some u \<Rightarrow>
         (let f = \<lparr>tf_id = e_id e, tf_track = u, tf_bitrate = bitrate, tf_codec = ''ogg'',
                   tf_key = key, tf_size = bytes, tf_created = e_now e\<rparr>
          in if \<not> int32 bitrate \<or> \<not> int64 bytes \<or> u \<notin> track_ids d then None
             else if fmt_key f \<in> fmt_key ` set (d_formats d) then
               Some ((), d\<lparr>d_formats := update_where (\<lambda>g. fmt_key g = fmt_key f)
                              (\<lambda>g. g\<lparr>tf_key := key, tf_size := bytes\<rparr>) (d_formats d)\<rparr>)
             else (case insert_row tf_id f (d_formats d) of None \<Rightarrow> None
                   | Some fs \<Rightarrow> Some ((), d\<lparr>d_formats := fs\<rparr>))))"

definition sel_title_artist :: "(string \<Rightarrow> uuid option) \<Rightarrow> string \<Rightarrow> (string \<times> string) stmt" where
  "sel_title_artist cast i = select_row (\<lambda>d. case cast i of None \<Rightarrow> None
     | Some u \<Rightarrow> (case track_by_id d u of None \<Rightarrow> None
         | Some t \<Rightarrow> map_option (\<lambda>a. (tr_title t, ar_name a)) (find (\<lambda>a. ar_id a = tr_artist t) (d_artists d))))"

section \<open>Steps of \<open>process\<close>\<close>

definition markError :: "'x services \<Rightarrow> string \<Rightarrow> ('x, unit) run" where
  "markError S i = do { _ \<leftarrow> sql S (upd_error (svc_cast S) i); State_Monad.return () }"

text \<open>An error return after \<open>markError\<close>.\<close>

definition give_up :: "'x services \<Rightarrow> string \<Rightarrow> upload_error \<Rightarrow> ('x, upload_error + 'a) run" where
  "give_up S i err = do { markError S i; State_Monad.return (Inl err) }"

definition downloadFromS3 :: "'x services \<Rightarrow> 'x tools \<Rightarrow> storage \<Rightarrow> string \<Rightarrow> string \<Rightarrow> ('x, bool) run" where
  "downloadFromS3 S T st key dest = do {
     body \<leftarrow> storage_Download S st key;
     (case body of
        None \<Rightarrow> State_Monad.return False
      | Some data \<Rightarrow> do {
          created \<leftarrow> ext_call (\<lambda>x. tl_create T x dest);
          (if \<not> created then State_Monad.return False
           else ext_call (\<lambda>x. tl_copy T x dest data))
        })
   }"

text \<open>One iteration of the loop over \<open>Bitrates\<close>, and the loop.\<close>

definition encode_one ::
    "'x services \<Rightarrow> 'x tools \<Rightarrow> storage \<Rightarrow> string \<Rightarrow> string \<Rightarrow> string \<Rightarrow> int \<Rightarrow> ('x, upload_error + unit) run" where
  "encode_one S T st inp i dir bitrate = do {
     res \<leftarrow> transcode T inp i bitrate dir;
     (case res of
        Inl _ \<Rightarrow> give_up S i (Err_transcode bitrate)
      | Inr r \<Rightarrow> do {
          content \<leftarrow> ext_call (\<lambda>x. tl_read T x (ts_path r));
          (case content of
             None \<Rightarrow> give_up S i Err_read
           | Some data \<Rightarrow> do {
               up \<leftarrow> storage_Upload S st (ts_key r) data ''audio/ogg'';
               (if \<not> up then give_up S i (Err_upload bitrate)
                else do {
                  ins \<leftarrow> sql S (ins_format (svc_cast S) i bitrate (ts_key r) (ts_size r));
                  (case ins of
                     None \<Rightarrow> give_up S i Err_insert_format
                   | Some _ \<Rightarrow> State_Monad.return (Inr ()))
                })
             })
        })
   }"

primrec encode_all ::
    "'x services \<Rightarrow> 'x tools \<Rightarrow> storage \<Rightarrow> string \<Rightarrow> string \<Rightarrow> string \<Rightarrow> int list \<Rightarrow> ('x, upload_error + unit) run" where
  "encode_all S T st inp i dir [] = State_Monad.return (Inr ())"
| "encode_all S T st inp i dir (b # bs) = do {
     r \<leftarrow> encode_one S T st inp i dir b;
     (case r of Inl err \<Rightarrow> State_Monad.return (Inl err) | Inr _ \<Rightarrow> encode_all S T st inp i dir bs)
   }"

text \<open>Indexing is best effort: a failed \<open>SELECT\<close> leaves the title empty and skips it.\<close>

definition index_track :: "'x services \<Rightarrow> os_client option \<Rightarrow> string \<Rightarrow> ('x, unit) run" where
  "index_track S sc i = (case sc of
     None \<Rightarrow> State_Monad.return ()
   | Some c \<Rightarrow> do {
       ta \<leftarrow> sql S (sel_title_artist (svc_cast S) i);
       (case ta of
          None \<Rightarrow> State_Monad.return ()
        | Some (title, artist) \<Rightarrow>
            (if title = '''' then State_Monad.return ()
             else do {
               _ \<leftarrow> os_Index S c \<lparr>td_id = i, td_title = title, td_artist = artist, td_plays = 0, td_status = ''ready''\<rparr>;
               State_Monad.return ()
             }))
     })"

text \<open>The end of \<open>process\<close>: the track becomes ready and is indexed.\<close>

definition set_ready ::
    "'x services \<Rightarrow> os_client option \<Rightarrow> string \<Rightarrow> int \<Rightarrow> ('x, upload_error + unit) run" where
  "set_ready S sc i ms = do {
     fin \<leftarrow> sql S (upd_ready (svc_cast S) ms i);
     (case fin of
        None \<Rightarrow> give_up S i Err_set_ready
      | Some _ \<Rightarrow> do { index_track S sc i; State_Monad.return (Inr ()) })
   }"

definition transcode_track ::
    "'x services \<Rightarrow> 'x tools \<Rightarrow> storage option \<Rightarrow> os_client option \<Rightarrow> string \<Rightarrow> uploadEvent \<Rightarrow>
     ('x, upload_error + unit) run" where
  "transcode_track S T st sc dir ev = (let i = ue_track ev; inp = path_join dir ''input'' in case st of
     None \<Rightarrow> do { crash; State_Monad.return (Inl Nil_store) }
   | Some store \<Rightarrow> do {
       got \<leftarrow> downloadFromS3 S T store (ue_audio ev) inp;
       (if \<not> got then give_up S i Err_download
        else do {
          dur \<leftarrow> probeDuration T inp;
          (case dur of
             None \<Rightarrow> give_up S i Err_probe
           | Some ms \<Rightarrow> do {
               enc \<leftarrow> encode_all S T store inp i dir Bitrates;
               (case enc of
                  Inl err \<Rightarrow> State_Monad.return (Inl err)
                | Inr _ \<Rightarrow> set_ready S sc i ms)
             })
        })
     })"

section \<open>\<open>process\<close> and the message handler\<close>

text \<open>The work on a claimed track, in a temporary directory that is removed on every return.\<close>

definition in_temp_dir ::
    "'x services \<Rightarrow> 'x tools \<Rightarrow> storage option \<Rightarrow> os_client option \<Rightarrow> uploadEvent \<Rightarrow> ('x, upload_error + unit) run" where
  "in_temp_dir S T st sc ev = do {
     tmp \<leftarrow> ext_call (\<lambda>x. tl_mktemp T x (''transcode-'' @ ue_track ev));
     (case tmp of
        None \<Rightarrow> give_up S (ue_track ev) Err_temp_dir
      | Some dir \<Rightarrow> do {
          r \<leftarrow> transcode_track S T st sc dir ev;
          ext_call (\<lambda>x. ((), tl_remove_all T x dir));
          State_Monad.return r
        })
   }"

text \<open>The guarded \<open>UPDATE\<close> and what follows it: how many rows it touched is not looked at.\<close>

definition take_up ::
    "'x services \<Rightarrow> 'x tools \<Rightarrow> storage option \<Rightarrow> os_client option \<Rightarrow> uploadEvent \<Rightarrow> ('x, upload_error + unit) run" where
  "take_up S T st sc ev = do {
     claimed \<leftarrow> sql S (upd_processing (svc_cast S) (ue_track ev));
     (case claimed of
        None \<Rightarrow> State_Monad.return (Inl Err_set_processing)
      | Some _ \<Rightarrow> in_temp_dir S T st sc ev)
   }"

definition process ::
    "'x services \<Rightarrow> 'x tools \<Rightarrow> storage option \<Rightarrow> os_client option \<Rightarrow> uploadEvent \<Rightarrow> ('x, upload_error + unit) run" where
  "process S T st sc ev = (let i = ue_track ev in do {
     status \<leftarrow> sql S (sel_status (svc_cast S) i);
     (case status of
        None \<Rightarrow> State_Monad.return (Inl Err_status_check)
      | Some s \<Rightarrow>
          (if s \<noteq> ''pending'' then State_Monad.return (Inr ())
           else take_up S T st sc ev))
   })"

definition set_event_field :: "string \<Rightarrow> json \<Rightarrow> uploadEvent \<Rightarrow> uploadEvent option" where
  "set_event_field k j ev =
     (if key_eq k ''track_id'' then map_option (\<lambda>s. ev\<lparr>ue_track := s\<rparr>) (dec_str j (ue_track ev))
      else if key_eq k ''audio_key'' then map_option (\<lambda>s. ev\<lparr>ue_audio := s\<rparr>) (dec_str j (ue_audio ev))
      else Some ev)"

definition dec_upload :: "doc \<Rightarrow> uploadEvent option" where
  "dec_upload m = (case m of Junk \<Rightarrow> None
     | Doc j \<Rightarrow> dec_struct set_event_field \<lparr>ue_track = '''', ue_audio = ''''\<rparr> j)"

definition upload_handler ::
    "'x services \<Rightarrow> 'x tools \<Rightarrow> storage option \<Rightarrow> os_client option \<Rightarrow> doc \<Rightarrow> ('x, upload_error + unit) run" where
  "upload_handler S T st sc m = (case dec_upload m of
     None \<Rightarrow> State_Monad.return (Inl Err_unmarshal)
   | Some ev \<Rightarrow> process S T st sc ev)"

lemma dec_upload_event: "dec_upload (Doc (upload_event_json i key)) = Some \<lparr>ue_track = i, ue_audio = key\<rparr>"
  by (simp add: dec_upload_def upload_event_json_def dec_struct_def set_event_field_def dec_defs
      key_eq_def to_lower_def lower_char_def)

end
