(* ===== verification/Queue.thy ===== *)
theory Queue
  imports Http
begin

text \<open>
  \<open>internal/queue/kafka.go\<close>: the consumer's loop. The batches that \<open>PollFetches\<close> returns before the
  context is cancelled are an argument; the loop runs the handler on every record of a batch in
  order and marks the records whose handler reported no error. What the broker will not deliver
  again is the library's function of the marks (a parameter, with its documented behaviour as a
  hypothesis).
\<close>

record krec =
  kr_topic :: string
  kr_partition :: nat
  kr_offset :: nat
  kr_value :: doc

text \<open>
  \<open>EachRecord\<close>: the callback returns early, without marking, when the handler fails. After a panic of
  the handler there is no process to go on.
\<close>

primrec each_record :: "(krec \<Rightarrow> ('x, 'e + unit) run) \<Rightarrow> krec list \<Rightarrow> ('x, krec list) run" where
  "each_record h [] = State_Monad.return []"
| "each_record h (r # rs) = do {
     dead \<leftarrow> halted;
     (if dead then State_Monad.return []
      else do {
        res \<leftarrow> h r;
        rest \<leftarrow> each_record h rs;
        State_Monad.return (case res of Inl _ \<Rightarrow> rest | Inr _ \<Rightarrow> r # rest)
      })
   }"

text \<open>\<open>Consume\<close>: the marked records in order. The handler is given the record's value.\<close>

primrec consume :: "(doc \<Rightarrow> ('x, 'e + unit) run) \<Rightarrow> krec list list \<Rightarrow> ('x, krec list) run" where
  "consume h [] = State_Monad.return []"
| "consume h (b # bs) = do {
     ms \<leftarrow> each_record (\<lambda>r. h (kr_value r)) b;
     ms' \<leftarrow> consume h bs;
     State_Monad.return (ms @ ms')
   }"

section \<open>The loop as a trace\<close>

text \<open>What each record's handler answered, in order.\<close>

primrec outcomes :: "(doc \<Rightarrow> ('x, 'e + unit) run) \<Rightarrow> krec list \<Rightarrow> 'x world \<Rightarrow> (krec \<times> bool) list" where
  "outcomes h [] w = []"
| "outcomes h (r # rs) w =
     (if w_crashed w then []
      else case run_state (h (kr_value r)) w of (res, w') \<Rightarrow>
        (r, case res of Inl _ \<Rightarrow> False | Inr _ \<Rightarrow> True) # outcomes h rs w')"

primrec world_after :: "(doc \<Rightarrow> ('x, 'e + unit) run) \<Rightarrow> krec list \<Rightarrow> 'x world \<Rightarrow> 'x world" where
  "world_after h [] w = w"
| "world_after h (r # rs) w = (if w_crashed w then w else world_after h rs (snd (run_state (h (kr_value r)) w)))"

lemma crashed_outcomes [simp]: "w_crashed w \<Longrightarrow> outcomes h rs w = []" "w_crashed w \<Longrightarrow> world_after h rs w = w"
  by (cases rs; simp)+

lemma outcomes_append:
  "outcomes h (rs @ ss) w = outcomes h rs w @ outcomes h ss (world_after h rs w)"
  by (induction rs arbitrary: w) (auto split: prod.splits)

lemma world_after_append: "world_after h (rs @ ss) w = world_after h ss (world_after h rs w)"
  by (induction rs arbitrary: w) auto

lemma run_each_record:
  "run_state (each_record (\<lambda>r. h (kr_value r)) rs) w =
     (map fst (filter snd (outcomes h rs w)), world_after h rs w)"
  by (induction rs arbitrary: w) (auto split: prod.splits sum.splits)

lemma run_consume:
  "run_state (consume h bs) w =
     (map fst (filter snd (outcomes h (concat bs) w)), world_after h (concat bs) w)"
  by (induction bs arbitrary: w) (auto simp: run_each_record outcomes_append world_after_append)

section \<open>Commits\<close>

text \<open>
  \<open>MarkCommitRecords\<close> makes a record available for committing: per partition the highest mark counts
  and nothing rewinds. What a client commits is the marks of the moment; with \<open>AutoCommitMarks\<close> it does
  so from time to time, and when it is closed, if the broker answers. So the position from which a
  restarted consumer is given a partition's records is, for each partition, the one that some of the
  run's first marks had moved it to: all of them after a clean close, those before the last commit
  that went through after a crash.
\<close>

type_synonym tp_position = "string \<times> nat \<Rightarrow> nat"

definition tp_of :: "krec \<Rightarrow> string \<times> nat" where
  "tp_of r = (kr_topic r, kr_partition r)"

definition mark_commit :: "tp_position \<Rightarrow> krec \<Rightarrow> tp_position" where
  "mark_commit m r = m(tp_of r := max (m (tp_of r)) (Suc (kr_offset r)))"

definition marked_position :: "tp_position \<Rightarrow> krec list \<Rightarrow> tp_position" where
  "marked_position m rs = foldl mark_commit m rs"

definition autocommit_law :: "tp_position \<Rightarrow> krec list \<Rightarrow> tp_position \<Rightarrow> bool" where
  "autocommit_law before ms committed \<longleftrightarrow>
     (\<forall>tp. \<exists>n \<le> length ms. committed tp = marked_position before (take n ms) tp)"

definition redelivered :: "tp_position \<Rightarrow> krec \<Rightarrow> bool" where
  "redelivered committed r \<longleftrightarrow> committed (tp_of r) \<le> kr_offset r"

lemma marked_position_le:
  "marked_position m rs tp \<le> k \<longleftrightarrow> m tp \<le> k \<and> (\<forall>r \<in> set rs. tp_of r = tp \<longrightarrow> kr_offset r < k)"
  by (induction rs arbitrary: m) (auto simp: marked_position_def mark_commit_def Suc_le_eq)

lemma marked_position_grows: "m tp \<le> marked_position m rs tp"
  using marked_position_le [of m rs tp "marked_position m rs tp"] by simp

text \<open>A commit covers a record of the partition that was marked, or is the position from before.\<close>

lemma committed_covers:
  assumes "autocommit_law before ms committed" and "before tp \<le> k" and "k < committed tp"
  shows "\<exists>r \<in> set ms. tp_of r = tp \<and> k \<le> kr_offset r \<and> kr_offset r < committed tp"
proof -
  obtain n where n: "committed tp = marked_position before (take n ms) tp"
    using assms(1) unfolding autocommit_law_def by blast
  with assms(2,3) have "\<not> (\<forall>r \<in> set (take n ms). tp_of r = tp \<longrightarrow> kr_offset r < k)"
    using marked_position_le [of before "take n ms" tp k] by auto
  moreover have "\<forall>r \<in> set (take n ms). tp_of r = tp \<longrightarrow> kr_offset r < committed tp"
    using n marked_position_le [of before "take n ms" tp "committed tp"] by simp
  ultimately show ?thesis by (auto dest: in_set_takeD)
qed

context db_relation
begin

lemma stays_each_record: "(\<And>r. stays R (h r)) \<Longrightarrow> stays R (each_record h rs)"
  by (induction rs) (auto intro!: handler_rules)

lemma stays_consume: "(\<And>v. stays R (h v)) \<Longrightarrow> stays R (consume h bs)"
  by (induction bs) (auto intro!: handler_rules stays_each_record)

end

end
