(* ===== verification/Analytics_Worker.thy ===== *)
theory Analytics_Worker
  imports Tracks Queue
begin

text \<open>
  \<open>internal/worker/analytics.go\<close>: a play event is inserted and the track's counter is raised in one
  transaction. Inside the transaction the statements work on a copy of the tables; only a commit
  installs it, and every early return rolls back (the deferred \<open>tx.Rollback\<close>).
\<close>

datatype play_error = Err_play_unmarshal | Err_begin | Err_insert | Err_update | Err_commit

record playEvent =
  pv_track :: string
  pv_source :: string
  pv_time :: json      \<comment> \<open>a Go string, kept as the JSON string it was read from\<close>

section \<open>Transactions\<close>

definition tx_begin :: "'x services \<Rightarrow> ('x, db option) run" where
  "tx_begin S = State (\<lambda>w. case svc_pg S (w_ext w) of (e, x) \<Rightarrow>
     (if e_fault e = Fine then Some (w_db w) else None, w\<lparr>w_ext := x\<rparr>))"

definition tx_exec :: "'x services \<Rightarrow> 'a stmt \<Rightarrow> db \<Rightarrow> ('x, ('a \<times> db) option) run" where
  "tx_exec S st d = State (\<lambda>w. case svc_pg S (w_ext w) of (e, x) \<Rightarrow>
     (if e_fault e = Fine then st e d else None, w\<lparr>w_ext := x\<rparr>))"

text \<open>A commit whose acknowledgement is lost is an error for the caller and a commit for the tables.\<close>

definition tx_commit :: "'x services \<Rightarrow> db \<Rightarrow> ('x, bool) run" where
  "tx_commit S d = State (\<lambda>w. case svc_pg S (w_ext w) of (e, x) \<Rightarrow>
     (e_fault e = Fine, w\<lparr>w_ext := x, w_db := (if e_fault e = Refused then w_db w else d)\<rparr>))"

section \<open>Statements\<close>

definition ins_play_event :: "(string \<Rightarrow> uuid option) \<Rightarrow> string \<Rightarrow> string \<Rightarrow> unit stmt" where
  "ins_play_event cast i src e d = (case cast i of None \<Rightarrow> None
     | Some u \<Rightarrow>
         (let p = \<lparr>pe_id = e_id e, pe_user = None, pe_track = u, pe_played = e_now e,
                   pe_ms = None, pe_source = Some src\<rparr>
          in if u \<notin> track_ids d then None
             else (case insert_row pe_id p (d_events d) of None \<Rightarrow> None
                   | Some es \<Rightarrow> Some ((), d\<lparr>d_events := es\<rparr>))))"

text \<open>\<open>play_count\<close> is a \<open>BIGINT\<close>: the addition is refused when it overflows.\<close>

definition upd_play_count :: "(string \<Rightarrow> uuid option) \<Rightarrow> string \<Rightarrow> unit stmt" where
  "upd_play_count cast i e d = (case cast i of None \<Rightarrow> None
     | Some u \<Rightarrow>
         (if \<exists>t \<in> set (d_tracks d). tr_id t = u \<and> \<not> int64 (tr_plays t + 1) then None
          else Some ((), d\<lparr>d_tracks := update_where (\<lambda>t. tr_id t = u)
                              (\<lambda>t. t\<lparr>tr_plays := tr_plays t + 1\<rparr>) (d_tracks d)\<rparr>)))"

section \<open>\<open>record\<close> and the message handler\<close>

definition analytics_record :: "'x services \<Rightarrow> playEvent \<Rightarrow> ('x, play_error + unit) run" where
  "analytics_record S ev = do {
     tx \<leftarrow> tx_begin S;
     (case tx of
        None \<Rightarrow> State_Monad.return (Inl Err_begin)
      | Some d0 \<Rightarrow> do {
          r1 \<leftarrow> tx_exec S (ins_play_event (svc_cast S) (pv_track ev) (pv_source ev)) d0;
          (case r1 of
             None \<Rightarrow> State_Monad.return (Inl Err_insert)
           | Some (_, d1) \<Rightarrow> do {
               r2 \<leftarrow> tx_exec S (upd_play_count (svc_cast S) (pv_track ev)) d1;
               (case r2 of
                  None \<Rightarrow> State_Monad.return (Inl Err_update)
                | Some (_, d2) \<Rightarrow> do {
                    ok \<leftarrow> tx_commit S d2;
                    State_Monad.return (if ok then Inr () else Inl Err_commit)
                  })
             })
        })
   }"

text \<open>
  The event's timestamp is a string in the struct: every JSON string is accepted, the text of an
  instant (what \<open>Stream\<close> publishes) and any other.
\<close>

definition dec_text :: "json \<Rightarrow> json \<Rightarrow> json option" where
  "dec_text j old = (case j of JStr s \<Rightarrow> Some j | JTime t \<Rightarrow> Some j | JNull \<Rightarrow> Some old | _ \<Rightarrow> None)"

definition set_play_field :: "string \<Rightarrow> json \<Rightarrow> playEvent \<Rightarrow> playEvent option" where
  "set_play_field k j ev =
     (if key_eq k ''track_id'' then map_option (\<lambda>s. ev\<lparr>pv_track := s\<rparr>) (dec_str j (pv_track ev))
      else if key_eq k ''source'' then map_option (\<lambda>s. ev\<lparr>pv_source := s\<rparr>) (dec_str j (pv_source ev))
      else if key_eq k ''timestamp'' then map_option (\<lambda>t. ev\<lparr>pv_time := t\<rparr>) (dec_text j (pv_time ev))
      else Some ev)"

definition dec_play :: "doc \<Rightarrow> playEvent option" where
  "dec_play m = (case m of Junk \<Rightarrow> None
     | Doc j \<Rightarrow> dec_struct set_play_field \<lparr>pv_track = '''', pv_source = '''', pv_time = JStr ''''\<rparr> j)"

definition analytics_handler :: "'x services \<Rightarrow> doc \<Rightarrow> ('x, play_error + unit) run" where
  "analytics_handler S m = (case dec_play m of
     None \<Rightarrow> State_Monad.return (Inl Err_play_unmarshal)
   | Some ev \<Rightarrow> analytics_record S ev)"

lemma dec_play_event:
  "dec_play (Doc (play_event_json i src now)) =
     Some \<lparr>pv_track = i, pv_source = src, pv_time = JTime (now div 10 ^ 9 * 10 ^ 9)\<rparr>"
  by (simp add: dec_play_def play_event_json_def dec_struct_def set_play_field_def dec_defs dec_text_def
      key_eq_def to_lower_def lower_char_def)

section \<open>Atomicity\<close>

text \<open>Whatever fails, the tables are unchanged or both statements took effect.\<close>

lemma analytics_record_atomic:
  assumes "run_state (analytics_record S ev) w = (r, w')"
  shows "(w_db w' = w_db w \<and> r \<noteq> Inr ()) \<or>
     (\<exists>e1 e2 d1. ins_play_event (svc_cast S) (pv_track ev) (pv_source ev) e1 (w_db w) = Some ((), d1) \<and>
        upd_play_count (svc_cast S) (pv_track ev) e2 d1 = Some ((), w_db w') \<and>
        (r = Inr () \<or> r = Inl Err_commit))"
  using assms
  by (auto simp: analytics_record_def tx_begin_def tx_exec_def tx_commit_def
      split: prod.splits if_splits option.splits; blast)

context db_relation
begin

lemma stays_analytics_record:
  assumes "\<And>i src e1 e2 d d1 d2. ins_play_event (svc_cast S) i src e1 d = Some ((), d1) \<Longrightarrow>
     upd_play_count (svc_cast S) i e2 d1 = Some ((), d2) \<Longrightarrow> R d d2"
  shows "stays R (analytics_record S ev)"
  unfolding stays_def
proof
  fix w
  obtain r w' where run: "run_state (analytics_record S ev) w = (r, w')"
    by (cases "run_state (analytics_record S ev) w")
  from analytics_record_atomic [OF this] show "R (w_db w) (w_db (snd (run_state (analytics_record S ev) w)))"
    using run by (auto simp: R_refl intro: assms)
qed

end

end
