(* ===== verification/System.thy ===== *)
theory System
  imports Routes Upload_Worker Analytics_Worker
begin

text \<open>
  The tables under the whole program: every statement that changes them as a step, the program's
  entry points (a request, a goroutine, an upload message, a play message) as sequences of such
  steps, and the induction that invariants use. A step is one statement, so the sequences include
  every interleaving of concurrent requests and workers; the analytics transaction is one step.
\<close>

section \<open>The steps\<close>

inductive db_step :: "db \<Rightarrow> db \<Rightarrow> bool" where
  step_artist: "ins_artist name e d = Some (a, d') \<Longrightarrow> db_step d d'"
| step_track: "ins_track cast i title art audio e d = Some (r, d') \<Longrightarrow> db_step d d'"
| step_user: "ins_user email hash name terms e d = Some (u, d') \<Longrightarrow> db_step d d'"
| step_soft_delete: "upd_soft_delete cast v e d = Some (n, d') \<Longrightarrow> db_step d d'"
| step_playlist: "ins_playlist name e d = Some (p, d') \<Longrightarrow> db_step d d'"
| step_add: "ins_playlist_track cast i tid e d = Some (x, d') \<Longrightarrow> db_step d d'"
| step_del_playlist: "del_playlist cast i owner e d = Some (n, d') \<Longrightarrow> db_step d d'"
| step_remove: "del_playlist_track cast i tid e d = Some (x, d') \<Longrightarrow> db_step d d'"
| step_favorite: "ins_favorite cast uid tid e d = Some (x, d') \<Longrightarrow> db_step d d'"
| step_unfavorite: "del_favorite cast uid tid e d = Some (x, d') \<Longrightarrow> db_step d d'"
| step_del_user: "del_user cast i e d = Some (n, d') \<Longrightarrow> db_step d d'"
| step_audit: "ins_audit cast ci uid action rtype rid ip agent status rqid e d = Some (x, d') \<Longrightarrow> db_step d d'"
| step_processing: "upd_processing cast i e d = Some (n, d') \<Longrightarrow> db_step d d'"
| step_error: "upd_error cast i e d = Some (n, d') \<Longrightarrow> db_step d d'"
| step_ready: "upd_ready cast ms i e d = Some (n, d') \<Longrightarrow> db_step d d'"
| step_format: "ins_format cast i bitrate key bytes e d = Some (x, d') \<Longrightarrow> db_step d d'"
| step_play: "ins_play_event cast i src e1 d = Some (x, d1) \<Longrightarrow> upd_play_count cast i e2 d1 = Some (y, d') \<Longrightarrow> db_step d d'"

lemmas statement_defs [op_defs] =
  ins_artist_def ins_track_def ins_user_def upd_soft_delete_def ins_playlist_def ins_playlist_track_def
  del_playlist_def del_playlist_track_def ins_favorite_def del_favorite_def del_user_def ins_audit_def
  upd_processing_def upd_error_def upd_ready_def ins_format_def ins_play_event_def upd_play_count_def

text \<open>The steps that requests and their goroutines take.\<close>

inductive api_step :: "db \<Rightarrow> db \<Rightarrow> bool" where
  api_artist: "ins_artist name e d = Some (a, d') \<Longrightarrow> api_step d d'"
| api_track: "ins_track cast i title art audio e d = Some (r, d') \<Longrightarrow> api_step d d'"
| api_user: "ins_user email hash name terms e d = Some (u, d') \<Longrightarrow> api_step d d'"
| api_soft_delete: "upd_soft_delete cast v e d = Some (n, d') \<Longrightarrow> api_step d d'"
| api_playlist: "ins_playlist name e d = Some (p, d') \<Longrightarrow> api_step d d'"
| api_add: "ins_playlist_track cast i tid e d = Some (x, d') \<Longrightarrow> api_step d d'"
| api_del_playlist: "del_playlist cast i owner e d = Some (n, d') \<Longrightarrow> api_step d d'"
| api_remove: "del_playlist_track cast i tid e d = Some (x, d') \<Longrightarrow> api_step d d'"
| api_favorite: "ins_favorite cast uid tid e d = Some (x, d') \<Longrightarrow> api_step d d'"
| api_unfavorite: "del_favorite cast uid tid e d = Some (x, d') \<Longrightarrow> api_step d d'"
| api_del_user: "del_user cast i e d = Some (n, d') \<Longrightarrow> api_step d d'"
| api_audit: "ins_audit cast ci uid action rtype rid ip agent status rqid e d = Some (x, d') \<Longrightarrow> api_step d d'"

lemma api_db_step: "api_step d d' \<Longrightarrow> db_step d d'"
  by (induction rule: api_step.induct) (auto intro: db_step.intros)

abbreviation db_steps :: "db \<Rightarrow> db \<Rightarrow> bool" where
  "db_steps \<equiv> db_step\<^sup>*\<^sup>*"

definition reachable :: "db \<Rightarrow> bool" where
  "reachable d \<longleftrightarrow> db_steps empty_db d"

section \<open>What every entry point does\<close>

text \<open>
  A relation that contains the steps of the requests: each handler and middleware, the server and
  its goroutines guarantee it.
\<close>

locale api_contract = db_relation R for R +
  assumes api_in: "api_step d d' \<Longrightarrow> R d d'"
begin

lemma stmt_steps:
  "stmt_stays R (ins_artist name)"
  "stmt_stays R (ins_track cast i title art audio)"
  "stmt_stays R (ins_user email hash name terms)"
  "stmt_stays R (upd_soft_delete cast v)"
  "stmt_stays R (ins_playlist name)"
  "stmt_stays R (ins_playlist_track cast i tid)"
  "stmt_stays R (del_playlist cast i owner)"
  "stmt_stays R (del_playlist_track cast i tid)"
  "stmt_stays R (ins_favorite cast i tid)"
  "stmt_stays R (del_favorite cast i tid)"
  "stmt_stays R (del_user cast i)"
  "stmt_stays R (ins_audit cast ci uid action rtype rid ip agent status rqid)"
  by (auto intro!: stmt_staysI api_in intro: api_step.intros)

lemma stmt_reads:
  "stmt_stays R (sel_track cast i)" "stmt_stays R (sel_format_key cast ci i q)"
  "stmt_stays R (sel_audio_key cast i)" "stmt_stays R (sel_artist_exists cast i)"
  "stmt_stays R (sel_status cast i)" "stmt_stays R (sel_title_artist cast i)"
  "stmt_stays R (sel_login email)" "stmt_stays R (sel_active_user cast v)"
  "stmt_stays R (sel_playlist cast i)" "stmt_stays R (sel_artist cast i)"
  by (simp_all add: sel_track_def sel_format_key_def sel_audio_key_def sel_artist_exists_def sel_status_def
      sel_title_artist_def sel_login_def sel_active_user_def sel_playlist_def sel_artist_def
      stmt_stays_select_row)

lemmas entry_rules = handler_rules stmt_steps stmt_reads

lemma stays_tracks:
  "stays R (tracks_List S)" "stays R (tracks_Get S cx)" "stays R (tracks_Stream S A cx)"
  "stays R (tracks_Create S A cx)"
  unfolding tracks_List_def tracks_Get_def tracks_Stream_def tracks_Create_def service_defs Let_def
  by (intro entry_rules)+

lemma stays_playlists:
  "stays R (playlists_List S)" "stays R (playlists_Get S cx)" "stays R (playlists_Create S cx)"
  "stays R (playlists_ListTracks S cx)" "stays R (playlists_AddTrack S cx)"
  "stays R (playlists_Delete S cx)" "stays R (playlists_RemoveTrack S cx)"
  unfolding playlists_List_def playlists_Get_def playlists_Create_def playlists_ListTracks_def
    playlists_AddTrack_def playlists_Delete_def playlists_RemoveTrack_def Let_def
  by (intro entry_rules)+

lemma stays_auth:
  "stays R (auth_Register S C secret cx)" "stays R (auth_Login S C secret cx)" "stays R (auth_Me S cx)"
  "stays R (auth_DeleteMe S cx)" "stays R (auth_ExportMe S cx)"
  unfolding auth_Register_def auth_Login_def auth_Me_def auth_DeleteMe_def auth_ExportMe_def Let_def
    generateToken_def token_reply_def
  by (intro entry_rules)+

lemma stays_library:
  "stays R (favorites_Add S cx)" "stays R (favorites_Remove S cx)" "stays R (favorites_List S cx)"
  "stays R (favorites_IDs S cx)" "stays R (artists_Create S cx)" "stays R (artists_List S)"
  "stays R (artists_Get S cx)" "stays R (admin_ListUsers S)" "stays R (admin_DeleteUser S cx)"
  "stays R (admin_ListAuditLogs S)"
  unfolding favorites_Add_def favorites_Remove_def favorites_List_def favorites_IDs_def
    artists_Create_def artists_List_def artists_Get_def admin_ListUsers_def admin_DeleteUser_def
    admin_ListAuditLogs_def Let_def
  by (intro entry_rules)+

lemma stays_discovery:
  "stays R (recs_TopTracks S)" "stays R (recs_ForYou S cx)" "stays R (recs_Similar S cx)"
  "stays R (search_Search S osc cx)" "stays R (search_Autocomplete S osc cx)"
  unfolding recs_TopTracks_def recs_ForYou_def recs_Similar_def search_Search_def search_Autocomplete_def
    cache_and_send_def full_text_search_def service_defs Let_def
  by (intro entry_rules stays_os_Search stays_os_Autocomplete)+

lemma stays_health: "stays R (health cx)" "stays R (ready S cx)"
  unfolding health_def ready_def by (intro entry_rules)+

section \<open>Requests\<close>

lemma stays_routed:
  "(k, h) \<in> set (public_routes sv) \<Longrightarrow> stays R (h cx)"
  "(k, h) \<in> set (protected_routes sv) \<Longrightarrow> stays R (h cx)"
  "(k, h) \<in> set (admin_routes sv) \<Longrightarrow> stays R (h cx)"
  by (auto simp: public_routes_def protected_routes_def admin_routes_def Let_def
      stays_tracks stays_playlists stays_auth stays_library stays_discovery)

lemma stays_v1: "(k, h) \<in> set (v1_routes sv) \<Longrightarrow> stays R (h cx)"
  by (auto simp: v1_routes_def on_routes_def login_chain_def stream_chain_def requireAuth_def
      intro!: middleware_rules stays_LoginRateLimit stays_StreamRateLimit stays_auth stays_tracks
      dest: stays_routed)

lemma stays_route: "(k, h) \<in> set (routes sv) \<Longrightarrow> stays R (h cx)"
  by (auto simp: routes_def on_routes_def intro!: middleware_rules stays_health stays_AuditLog dest: stays_v1)

lemma stays_dispatch: "engine_ok (sv_engine sv) \<Longrightarrow> stays R (dispatch sv cx)"
  by (auto simp: dispatch_def engine_ok_def stays_def R_refl dest!: map_of_SomeD stays_route
      split: option.split)

lemma stays_serve: "engine_ok (sv_engine sv) \<Longrightarrow> stays R (serve sv rq)"
  unfolding serve_def by (intro stays_stack stays_dispatch)

section \<open>Goroutines\<close>

lemma stays_publish: "stays R (publish_play S A i)"
  unfolding publish_play_def service_defs by (intro entry_rules)

lemma stays_task: "stays R (run_task sv t)"
  unfolding run_task_def write_audit_def
  by (auto intro!: entry_rules stays_publish split: task.split)

end

section \<open>Workers\<close>

text \<open>A relation that contains every step: the workers guarantee it as well.\<close>

locale table_contract = db_relation R for R +
  assumes step_in: "db_step d d' \<Longrightarrow> R d d'"

sublocale table_contract \<subseteq> api_contract
  by unfold_locales (rule step_in, rule api_db_step)

context table_contract
begin

lemma worker_steps:
  "stmt_stays R (upd_processing cast i)"
  "stmt_stays R (upd_error cast i)"
  "stmt_stays R (upd_ready cast ms i)"
  "stmt_stays R (ins_format cast i bitrate key bytes)"
  by (auto intro!: stmt_staysI step_in intro: db_step.intros)

lemmas worker_rules = entry_rules worker_steps

lemma stays_give_up: "stays R (give_up S i err)"
  unfolding give_up_def markError_def by (intro worker_rules)

lemma stays_encode: "stays R (encode_all S T st inp i dir bs)"
  by (induction bs) (auto simp: encode_one_def transcode_def storage_Upload_def Let_def
      intro!: worker_rules stays_give_up)

lemma stays_upload: "stays R (upload_handler S T st sc m)"
  unfolding upload_handler_def process_def take_up_def transcode_track_def downloadFromS3_def probeDuration_def
    in_temp_dir_def set_ready_def index_track_def storage_Download_def Let_def
  by (intro worker_rules stays_give_up stays_encode stays_os_Index)

lemma stays_analytics: "stays R (analytics_handler S m)"
  unfolding analytics_handler_def
  by (intro worker_rules stays_analytics_record) (blast intro: step_in db_step.intros)

lemmas stays_entry = stays_serve stays_task stays_upload stays_analytics

end

interpretation steps: table_contract db_steps
  by unfold_locales auto

text \<open>An invariant of the steps is an invariant of every entry point.\<close>

lemma step_invariant_contract:
  assumes "\<And>d d'. db_step d d' \<Longrightarrow> P d \<Longrightarrow> P d'"
  shows "table_contract (kept P)"
  by unfold_locales (auto simp: kept_def assms)

lemma steps_invariant:
  assumes "db_steps d d'" and "P d" and "\<And>d d'. db_step d d' \<Longrightarrow> P d \<Longrightarrow> P d'"
  shows "P d'"
  using assms(1,2) by (induction) (auto intro: assms(3))

end
