(* ===== verification/Integrity.thy ===== *)
theory Integrity
  imports System
begin

text \<open>
  Invariants of the tables: the integrity of keys and references, and the facts that follow from
  which columns the statements set.
\<close>

section \<open>Keys and references\<close>

lemmas row_integrity = integrity_defs image_subset_iff

lemma image_update_where [simp]: "(\<And>r. key (f r) = key r) \<Longrightarrow> key ` set (update_where P f rows) = key ` set rows"
  by (metis list.set_map update_where_key)

lemma update_one_key:
  assumes "distinct (map ident rows)" and "distinct (map key rows)"
    and "\<And>r. P r \<Longrightarrow> ident r = i" and "\<And>r. P r \<Longrightarrow> key (f r) = k"
    and "\<And>r. r \<in> set rows \<Longrightarrow> ident r \<noteq> i \<Longrightarrow> key r \<noteq> k"
  shows "distinct (map key (update_where P f rows))"
  using assms(1,2,5)
proof (induction rows)
  case (Cons r rows)
  then have rest: "distinct (map key (update_where P f rows))" by auto
  show ?case
  proof (cases "P r")
    case True
    then have i: "ident r = i" by (rule assms(3))
    have others: "ident s \<noteq> i" if "s \<in> set rows" for s using Cons.prems(1) that i by (auto simp: image_iff)
    then have "update_where P f rows = rows"
      using assms(3) by (intro update_where_none) (auto simp: affected_0_iff)
    moreover have "k \<notin> key ` set rows" using Cons.prems(3) others by auto
    ultimately show ?thesis using True assms(4) Cons.prems(2) by (auto simp: update_where_def)
  next
    case False
    have "key r \<noteq> key (f s)" if "s \<in> set rows" "P s" for s
    proof -
      have "ident r \<noteq> i" using Cons.prems(1) that assms(3) [OF that(2)] by (auto simp: image_iff)
      then show ?thesis using Cons.prems(3) assms(4) [OF that(2)] by auto
    qed
    then have "key r \<notin> set (map key (update_where P f rows))"
      using Cons.prems(2) by (auto simp: set_update_where image_iff)
    moreover have "update_where P f (r # rows) = r # update_where P f rows"
      using False by (simp add: update_where_def)
    ultimately show ?thesis using rest by simp
  qed
qed (simp add: update_where_def)

lemma soft_deleted_id [simp]: "us_id (soft_deleted now u) = us_id u"
  by (simp add: soft_deleted_def)

lemma soft_delete_emails:
  assumes "keys_ok d" and "upd_soft_delete cast v e d = Some (n, d')"
  shows "distinct (map us_email (d_users d'))"
proof -
  obtain i where i: "uuid_arg cast v = Some i"
    using assms(2) by (auto simp: upd_soft_delete_def split: option.splits)
  let ?P = "\<lambda>u. us_id u = i \<and> us_deleted u = None"
  have d': "d_users d' = update_where ?P (soft_deleted (e_now e)) (d_users d)"
    and free: "affected ?P (d_users d) \<noteq> 0 \<Longrightarrow>
        u \<in> set (d_users d) \<Longrightarrow> us_id u \<noteq> i \<Longrightarrow> us_email u \<noteq> removed_email i" for u
    using assms(2) i by (auto simp: upd_soft_delete_def Let_def split: if_splits)
  show ?thesis
  proof (cases "affected ?P (d_users d) = 0")
    case True
    with assms(1) show ?thesis by (simp add: d' update_where_none keys_ok_def)
  next
    case False
    show ?thesis
      unfolding d'
    proof (rule update_one_key [where ident = us_id and i = i and k = "removed_email i"])
      show "u \<in> set (d_users d) \<Longrightarrow> us_id u \<noteq> i \<Longrightarrow> us_email u \<noteq> removed_email i" for u
        by (rule free [OF False])
    qed (use assms(1) in \<open>auto simp: keys_ok_def soft_deleted_def\<close>)
  qed
qed

text \<open>One lemma per table for a row that is added.\<close>

lemmas added_row = integrity_defs subset_insertI2

lemma add_artist_ok: "db_ok d \<Longrightarrow> ar_id a \<notin> artist_ids d \<Longrightarrow> db_ok (d\<lparr>d_artists := d_artists d @ [a]\<rparr>)"
  by (simp add: added_row)

lemma add_track_ok:
  "db_ok d \<Longrightarrow> tr_id t \<notin> track_ids d \<Longrightarrow> tr_artist t \<in> artist_ids d \<Longrightarrow>
     db_ok (d\<lparr>d_tracks := d_tracks d @ [t]\<rparr>)"
  by (simp add: added_row)

lemma add_user_ok:
  "db_ok d \<Longrightarrow> us_id u \<notin> user_ids d \<Longrightarrow> us_email u \<notin> us_email ` set (d_users d) \<Longrightarrow>
     db_ok (d\<lparr>d_users := d_users d @ [u]\<rparr>)"
  by (simp add: added_row)

lemma add_playlist_ok:
  "db_ok d \<Longrightarrow> pl_id p \<notin> playlist_ids d \<Longrightarrow> db_ok (d\<lparr>d_playlists := d_playlists d @ [p]\<rparr>)"
  by (simp add: added_row)

lemma add_ptrack_ok:
  "db_ok d \<Longrightarrow> pt_key p \<notin> pt_key ` set (d_ptracks d) \<Longrightarrow> pt_playlist p \<in> playlist_ids d \<Longrightarrow>
     pt_track p \<in> track_ids d \<Longrightarrow> db_ok (d\<lparr>d_ptracks := d_ptracks d @ [p]\<rparr>)"
  by (simp add: added_row)

lemma add_favorite_ok:
  "db_ok d \<Longrightarrow> fv_key f \<notin> fv_key ` set (d_favs d) \<Longrightarrow> fv_id f \<notin> fv_id ` set (d_favs d) \<Longrightarrow>
     fv_user f \<in> user_ids d \<Longrightarrow> fv_track f \<in> track_ids d \<Longrightarrow> db_ok (d\<lparr>d_favs := d_favs d @ [f]\<rparr>)"
  by (simp add: added_row)

lemma add_audit_ok:
  "db_ok d \<Longrightarrow> au_id a \<notin> au_id ` set (d_audits d) \<Longrightarrow> (\<And>u. au_user a = Some u \<Longrightarrow> u \<in> user_ids d) \<Longrightarrow>
     db_ok (d\<lparr>d_audits := d_audits d @ [a]\<rparr>)"
  by (simp add: added_row)

lemma add_event_ok:
  "db_ok d \<Longrightarrow> pe_id p \<notin> pe_id ` set (d_events d) \<Longrightarrow> pe_track p \<in> track_ids d \<Longrightarrow>
     db_ok (d\<lparr>d_events := d_events d @ [p]\<rparr>)"
  by (simp add: added_row)

lemma add_format_ok:
  "db_ok d \<Longrightarrow> fmt_key f \<notin> fmt_key ` set (d_formats d) \<Longrightarrow> tf_id f \<notin> tf_id ` set (d_formats d) \<Longrightarrow>
     tf_track f \<in> track_ids d \<Longrightarrow> db_ok (d\<lparr>d_formats := d_formats d @ [f]\<rparr>)"
  by (simp add: added_row)

text \<open>Rows removed from a table nothing refers to, and tracks updated in place.\<close>

lemma remove_ptracks_ok: "db_ok d \<Longrightarrow> db_ok (d\<lparr>d_ptracks := delete_where P (d_ptracks d)\<rparr>)"
  by (simp add: integrity_defs delete_where_keys image_subset_iff)

lemma remove_favs_ok: "db_ok d \<Longrightarrow> db_ok (d\<lparr>d_favs := delete_where P (d_favs d)\<rparr>)"
  by (simp add: integrity_defs delete_where_keys image_subset_iff)

lemmas row_changes_ok [wf_intros] = add_artist_ok add_track_ok add_user_ok add_playlist_ok add_ptrack_ok add_favorite_ok
  add_audit_ok add_event_ok add_format_ok remove_ptracks_ok remove_favs_ok

lemma del_playlist_shape:
  assumes "del_playlist cast i owner e d = Some (n, d')"
  obtains P X where "X = pl_id ` {p \<in> set (d_playlists d). P p}" "n = affected P (d_playlists d)"
    "d' = d\<lparr>d_playlists := delete_where P (d_playlists d),
             d_ptracks := delete_where (\<lambda>pt. pt_playlist pt \<in> X) (d_ptracks d)\<rparr>"
    "\<And>p. P p \<Longrightarrow> pl_owner p \<noteq> None" "\<And>p. P p \<Longrightarrow> cast i = Some (pl_id p)"
proof -
  obtain v w where v: "cast i = Some v" "cast owner = Some w"
    using assms by (auto simp: del_playlist_def split: option.splits)
  show thesis
    by (rule that [OF refl, where P = "\<lambda>p. pl_id p = v \<and> pl_owner p = Some w"])
      (use assms v in \<open>simp_all add: del_playlist_def Let_def\<close>)
qed

lemma del_playlist_ok:
  assumes "db_ok d" and "del_playlist cast i owner e d = Some (n, d')"
  shows "db_ok d'"
proof -
  obtain P X where d': "X = pl_id ` {p \<in> set (d_playlists d). P p}"
      "d' = d\<lparr>d_playlists := delete_where P (d_playlists d),
             d_ptracks := delete_where (\<lambda>pt. pt_playlist pt \<in> X) (d_ptracks d)\<rparr>"
    using assms(2) by (rule del_playlist_shape)
  have "keys_ok d'"
    using assms(1) by (simp add: d'(2) db_ok_def keys_ok_def delete_where_keys)
  moreover have "pt_playlist pt \<in> playlist_ids d'" if "pt \<in> set (d_ptracks d')" for pt
  proof -
    from that have "pt_playlist pt \<in> playlist_ids d" "pt_playlist pt \<notin> X"
      using assms(1) by (auto simp: d'(2) db_ok_def refs_ok_def)
    then show ?thesis unfolding d' by auto
  qed
  ultimately show ?thesis
    using assms(1) by (auto simp: d'(2) db_ok_def refs_ok_def)
qed

lemma ids_delete_where: "key ` set (delete_where (\<lambda>r. key r = k) rows) = key ` set rows - {k}"
  by auto

lemma del_user_ok:
  assumes "db_ok d" and "del_user cast i e d = Some (n, d')"
  shows "db_ok d'"
proof -
  obtain u where u: "cast i = Some u" using assms(2) by (auto simp: del_user_def split: option.splits)
  have d': "user_ids d' = user_ids d - {u}"
    "set (d_favs d') = {f \<in> set (d_favs d). fv_user f \<noteq> u}"
    "\<And>a. a \<in> set (d_audits d') \<Longrightarrow> au_user a = None \<or> (a \<in> set (d_audits d) \<and> au_user a \<noteq> Some u)"
    "d_artists d' = d_artists d" "d_tracks d' = d_tracks d" "d_playlists d' = d_playlists d"
    "d_ptracks d' = d_ptracks d" "d_events d' = d_events d" "d_formats d' = d_formats d"
    using assms(2) u by (auto simp: del_user_def set_update_where)
  have old: "refs_ok d" using assms(1) by (simp add: db_ok_def)
  have "w \<in> user_ids d'" if "a \<in> set (d_audits d')" "au_user a = Some w" for a w
    using d'(3) [OF that(1)] that old unfolding d'(1) refs_ok_def by auto
  moreover have "fv_user ` set (d_favs d') \<subseteq> user_ids d'"
    using old unfolding d'(1,2) refs_ok_def by auto
  ultimately have "refs_ok d'"
    using old unfolding refs_ok_def d'(2,4-9) by auto
  moreover have "keys_ok d'"
    using assms u by (auto simp: del_user_def db_ok_def keys_ok_def delete_where_keys)
  ultimately show ?thesis by (simp add: db_ok_def)
qed

lemma update_tracks_ok:
  assumes "db_ok d" and "\<And>t. tr_id (f t) = tr_id t" and "\<And>t. tr_artist (f t) = tr_artist t"
  shows "db_ok (d\<lparr>d_tracks := update_where P f (d_tracks d)\<rparr>)"
  using assms by (simp add: integrity_defs)

lemma ins_format_shape:
  assumes "ins_format cast i bitrate key bytes e d = Some (x, d')"
  obtains (old) f where "d' = d\<lparr>d_formats := update_where (\<lambda>g. fmt_key g = fmt_key f)
        (\<lambda>g. g\<lparr>tf_key := key, tf_size := bytes\<rparr>) (d_formats d)\<rparr>"
      "cast i = Some (tf_track f)" "tf_bitrate f = bitrate" "tf_codec f = ''ogg''" "fmt_key f \<in> fmt_key ` set (d_formats d)"
      "int64 bytes"
    | (new) f where "tf_track f \<in> track_ids d" "fmt_key f \<notin> fmt_key ` set (d_formats d)"
        "tf_id f \<notin> tf_id ` set (d_formats d)" "d' = d\<lparr>d_formats := d_formats d @ [f]\<rparr>"
        "cast i = Some (tf_track f)" "tf_bitrate f = bitrate" "tf_codec f = ''ogg''" "tf_key f = key"
        "int32 bitrate" "tf_size f = bytes" "int64 bytes"
proof -
  obtain u where u: "cast i = Some u" using assms by (auto simp: ins_format_def split: option.splits)
  let ?f = "\<lparr>tf_id = e_id e, tf_track = u, tf_bitrate = bitrate, tf_codec = ''ogg'',
     tf_key = key, tf_size = bytes, tf_created = e_now e\<rparr>"
  show thesis
  proof (cases "fmt_key ?f \<in> fmt_key ` set (d_formats d)")
    case True
    with assms u show thesis by (intro old [of ?f]) (simp_all add: ins_format_def Let_def split: if_splits)
  next
    case False
    with assms u show thesis
      by (intro new [of ?f]) (simp_all add: ins_format_def Let_def split: if_splits option.splits)
  qed
qed

lemma ins_format_ok:
  assumes "db_ok d" and "ins_format cast i bitrate key bytes e d = Some (x, d')"
  shows "db_ok d'"
  using assms(2)
proof (cases rule: ins_format_shape)
  case (old f)
  with assms(1) show ?thesis by (simp add: integrity_defs fmt_key_def)
next
  case (new f)
  with assms(1) show ?thesis by (auto intro: wf_intros)
qed

lemma step_db_ok:
  assumes "db_step d d'" and "db_ok d"
  shows "db_ok d'"
  using assms(1)
proof (cases rule: db_step.cases)
  case (step_soft_delete cast v e n)
  then have "distinct (map us_email (d_users d'))"
    using assms(2) by (auto intro: soft_delete_emails simp: db_ok_def)
  with step_soft_delete assms(2) show ?thesis
    by (auto simp: upd_soft_delete_def row_integrity Let_def split: option.splits if_splits)
next
  case step_del_playlist
  with assms(2) show ?thesis by (rule del_playlist_ok)
next
  case step_del_user
  with assms(2) show ?thesis by (rule del_user_ok)
next
  case step_format
  with assms(2) show ?thesis by (rule ins_format_ok)
next
  case (step_play cast i src e1 x d1 e2 y)
  then have "db_ok d1"
    using assms(2) by (auto simp: ins_play_event_def Let_def intro!: wf_intros split: option.splits if_splits)
  with step_play show ?thesis
    by (auto simp: upd_play_count_def update_tracks_ok split: option.splits if_splits)
qed (insert assms(2), auto simp: op_defs insert_or_ignore_def Let_def update_tracks_ok intro!: wf_intros
    split: option.splits if_splits)

section \<open>What a step does to each table\<close>

text \<open>The tables each statement writes.\<close>

lemma frames:
  "ins_artist name e d = Some (a, d') \<Longrightarrow> \<exists>as. d' = d\<lparr>d_artists := as\<rparr>"
  "ins_track cast i title art audio e d = Some (r, d') \<Longrightarrow> \<exists>ts. d' = d\<lparr>d_tracks := ts\<rparr>"
  "ins_user email hash name terms e d = Some (u, d') \<Longrightarrow> \<exists>us. d' = d\<lparr>d_users := us\<rparr>"
  "upd_soft_delete cast v e d = Some (n, d') \<Longrightarrow> \<exists>us. d' = d\<lparr>d_users := us\<rparr>"
  "ins_playlist name e d = Some (p, d') \<Longrightarrow> \<exists>ps. d' = d\<lparr>d_playlists := ps\<rparr>"
  "ins_playlist_track cast i tid e d = Some (x, d') \<Longrightarrow> \<exists>ps. d' = d\<lparr>d_ptracks := ps\<rparr>"
  "del_playlist cast i owner e d = Some (n, d') \<Longrightarrow> \<exists>ps pts. d' = d\<lparr>d_playlists := ps, d_ptracks := pts\<rparr>"
  "del_playlist_track cast i tid e d = Some (x, d') \<Longrightarrow> \<exists>ps. d' = d\<lparr>d_ptracks := ps\<rparr>"
  "ins_favorite cast i tid e d = Some (x, d') \<Longrightarrow> \<exists>fs. d' = d\<lparr>d_favs := fs\<rparr>"
  "del_favorite cast i tid e d = Some (x, d') \<Longrightarrow> \<exists>fs. d' = d\<lparr>d_favs := fs\<rparr>"
  "del_user cast i e d = Some (n, d') \<Longrightarrow> \<exists>us fs as. d' = d\<lparr>d_users := us, d_favs := fs, d_audits := as\<rparr>"
  "ins_audit cast ci uid action rtype rid ip agent status rqid e d = Some (x, d') \<Longrightarrow>
     \<exists>as. d' = d\<lparr>d_audits := as\<rparr>"
  "upd_processing cast i e d = Some (n, d') \<Longrightarrow> \<exists>ts. d' = d\<lparr>d_tracks := ts\<rparr>"
  "upd_error cast i e d = Some (n, d') \<Longrightarrow> \<exists>ts. d' = d\<lparr>d_tracks := ts\<rparr>"
  "upd_ready cast ms i e d = Some (n, d') \<Longrightarrow> \<exists>ts. d' = d\<lparr>d_tracks := ts\<rparr>"
  "ins_format cast i bitrate key bytes e d = Some (x, d') \<Longrightarrow> \<exists>fs. d' = d\<lparr>d_formats := fs\<rparr>"
  "ins_play_event cast i src e d = Some (x, d') \<Longrightarrow> \<exists>es. d' = d\<lparr>d_events := es\<rparr>"
  "upd_play_count cast i e d = Some (y, d') \<Longrightarrow> \<exists>ts. d' = d\<lparr>d_tracks := ts\<rparr>"
proof -
  show "ins_playlist_track cast i tid e d = Some (x, d') \<Longrightarrow> \<exists>ps. d' = d\<lparr>d_ptracks := ps\<rparr>"
    by (rule exI [of _ "d_ptracks d'"]) (clarsimp simp: op_defs Let_def split: option.splits if_splits)
  show "ins_favorite cast i tid e d = Some (x, d') \<Longrightarrow> \<exists>fs. d' = d\<lparr>d_favs := fs\<rparr>"
    by (rule exI [of _ "d_favs d'"]) (clarsimp simp: op_defs Let_def split: option.splits if_splits)
  show "del_playlist cast i owner e d = Some (n, d') \<Longrightarrow> \<exists>ps pts. d' = d\<lparr>d_playlists := ps, d_ptracks := pts\<rparr>"
    by (erule del_playlist_shape) blast
  show "ins_format cast i bitrate key bytes e d = Some (x, d') \<Longrightarrow> \<exists>fs. d' = d\<lparr>d_formats := fs\<rparr>"
    by (erule ins_format_shape) blast+
qed (clarsimp simp: op_defs Let_def split: option.splits if_splits, blast)+

lemma playlists_change:
  assumes "db_step d d'"
  obtains "d_playlists d' = d_playlists d"
    | p where "pl_owner p = None" "d_playlists d' = d_playlists d @ [p]"
    | P where "d_playlists d' = delete_where P (d_playlists d)" "\<And>p. P p \<Longrightarrow> pl_owner p \<noteq> None"
  using assms
proof (cases rule: db_step.cases)
  case (step_playlist name e p)
  then show ?thesis by (intro that(2) [of p]) (auto simp: op_defs Let_def split: option.splits)
next
  case (step_del_playlist cast i owner e n)
  then show ?thesis by (auto elim!: del_playlist_shape intro: that(3))
qed (rule that(1), (drule frames)+, elim exE, simp)+

lemma tracks_change:
  assumes "db_step d d'"
  obtains (same) "d_tracks d' = d_tracks d \<and> d_events d' = d_events d"
    | (created) t where "tr_plays t = 0" "tr_status t = ''pending''" "tr_id t \<notin> track_ids d"
        "d_tracks d' = d_tracks d @ [t]" "d_events d' = d_events d"
    | (status) P f where "d_tracks d' = update_where P f (d_tracks d)" "d_events d' = d_events d"
        "\<And>t. tr_id (f t) = tr_id t" "\<And>t. tr_artist (f t) = tr_artist t" "\<And>t. tr_plays (f t) = tr_plays t"
        "\<And>t. tr_status (f t) \<in> {''processing'', ''error'', ''ready''}"
        "\<And>t. P t \<Longrightarrow> tr_status (f t) = ''processing'' \<Longrightarrow> tr_status t = ''pending''"
    | (played) p where "pe_user p = None" "pe_track p \<in> track_ids d" "d_events d' = d_events d @ [p]"
        "d_tracks d' = update_where (\<lambda>t. tr_id t = pe_track p) (\<lambda>t. t\<lparr>tr_plays := tr_plays t + 1\<rparr>) (d_tracks d)"
  using assms
proof (cases rule: db_step.cases)
  case (step_track cast i title art audio e r)
  then show ?thesis
    by (cases "cast i"; cases "cast art") (auto simp: op_defs Let_def split: if_splits option.splits intro!: created)
next
  case (step_processing cast i e n)
  then show ?thesis
    by (cases "cast i") (auto simp: op_defs Let_def intro!: status)
next
  case (step_error cast i e n)
  then show ?thesis
    by (cases "cast i") (auto simp: op_defs Let_def intro!: status)
next
  case (step_ready cast ms i e n)
  then show ?thesis
    by (cases "cast i") (auto simp: op_defs Let_def split: if_splits intro!: status)
next
  case (step_play cast i src e1 x d1 e2 y)
  then obtain u where u: "cast i = Some u" by (auto simp: op_defs split: option.splits)
  let ?p = "\<lparr>pe_id = e_id e1, pe_user = None, pe_track = u, pe_played = e_now e1, pe_ms = None, pe_source = Some src\<rparr>"
  have "u \<in> track_ids d" "d1 = d\<lparr>d_events := d_events d @ [?p]\<rparr>"
    using step_play(1) u by (simp_all add: op_defs Let_def split: if_splits option.splits)
  with step_play(2) u show ?thesis
    by (intro played [of ?p]) (clarsimp simp: op_defs split: if_splits)+
qed (rule same, (drule frames)+, elim exE, simp)+

lemma audits_change:
  assumes "db_step d d'"
  obtains (same) "d_audits d' = d_audits d"
    | (added) a where "d_audits d' = d_audits d @ [a]"
    | (anonymised) u where "d_audits d' = update_where (\<lambda>a. au_user a = Some u) (\<lambda>a. a\<lparr>au_user := None\<rparr>) (d_audits d)"
  using assms
proof (cases rule: db_step.cases)
  case step_audit
  then show ?thesis by (auto simp: op_defs Let_def split: if_splits option.splits intro!: added)
next
  case (step_del_user cast i e n)
  then show ?thesis by (cases "cast i") (auto simp: op_defs intro!: anonymised)
qed (rule same, (drule frames)+, elim exE, simp)+

lemma users_change:
  assumes "db_step d d'"
  obtains (same) "d_users d' = d_users d"
    | (registered) u where "us_id u \<notin> user_ids d" "us_role u = ''user''" "d_users d' = d_users d @ [u]"
    | (soft) P now where "d_users d' = update_where P (soft_deleted now) (d_users d)" "\<And>u. P u \<Longrightarrow> us_deleted u = None"
    | (erased) P where "d_users d' = delete_where P (d_users d)"
  using assms
proof (cases rule: db_step.cases)
  case step_user
  then show ?thesis by (auto simp: op_defs Let_def split: if_splits option.splits intro!: registered)
next
  case (step_soft_delete cast v e n)
  then show ?thesis by (cases "uuid_arg cast v") (auto simp: op_defs Let_def split: if_splits intro!: soft)
next
  case (step_del_user cast i e n)
  then show ?thesis by (cases "cast i") (auto simp: op_defs intro!: erased)
qed (rule same, (drule frames)+, elim exE, simp)+

lemma formats_change:
  assumes "db_step d d'"
  obtains (same) "d_formats d' = d_formats d"
    | (added) f where "d_formats d' = d_formats d @ [f]"
    | (replaced) P key bytes where "d_formats d' = update_where P (\<lambda>g. g\<lparr>tf_key := key, tf_size := bytes\<rparr>) (d_formats d)"
  using assms
proof (cases rule: db_step.cases)
  case (step_format cast i bitrate key bytes e x)
  then show ?thesis by (cases rule: ins_format_shape) (auto intro: added replaced)
qed (rule same, (drule frames)+, elim exE, simp)+

section \<open>Invariants of the columns\<close>

text \<open>No statement names a playlist's owner or an event's user.\<close>

definition ownerless :: "db \<Rightarrow> bool" where
  "ownerless d \<longleftrightarrow> (\<forall>p \<in> set (d_playlists d). pl_owner p = None)"

definition anonymous_plays :: "db \<Rightarrow> bool" where
  "anonymous_plays d \<longleftrightarrow> (\<forall>p \<in> set (d_events d). pe_user p = None)"

text \<open>The counter of a track is the number of its play events.\<close>

definition events_of :: "db \<Rightarrow> uuid \<Rightarrow> play_event list" where
  "events_of d u = filter (\<lambda>p. pe_track p = u) (d_events d)"

definition plays_counted :: "db \<Rightarrow> bool" where
  "plays_counted d \<longleftrightarrow> (\<forall>t \<in> set (d_tracks d). tr_plays t = int (length (events_of d (tr_id t))))"

definition known_status :: "db \<Rightarrow> bool" where
  "known_status d \<longleftrightarrow> tr_status ` set (d_tracks d) \<subseteq> {''pending'', ''processing'', ''ready'', ''error''}"

lemma step_ownerless: "db_step d d' \<Longrightarrow> ownerless d \<Longrightarrow> ownerless d'"
  by (erule playlists_change) (auto simp: ownerless_def)

lemma step_anonymous: "db_step d d' \<Longrightarrow> anonymous_plays d \<Longrightarrow> anonymous_plays d'"
  by (erule tracks_change) (auto simp: anonymous_plays_def)

lemma step_known_status:
  assumes "db_step d d'" and "known_status d"
  shows "known_status d'"
  using assms(1)
proof (cases rule: tracks_change)
  case (status P f)
  have "tr_status (f t) \<in> {''pending'', ''processing'', ''ready'', ''error''}" for t
    using status(6) [of t] by auto
  then have new: "tr_status (if P t then f t else t) \<in> {''pending'', ''processing'', ''ready'', ''error''}"
    if "t \<in> set (d_tracks d)" for t
    using assms(2) that unfolding known_status_def image_subset_iff by (simp only: split: if_split) blast
  show ?thesis
    unfolding known_status_def status(1) set_update_where image_image image_subset_iff using new by blast
next
  case (played p)
  have "tr_status ` set (d_tracks d') = tr_status ` set (d_tracks d)"
    unfolding played(4) by (rule image_update_where) simp
  with assms(2) show ?thesis by (simp only: known_status_def)
qed (use assms(2) in \<open>simp_all add: known_status_def\<close>)

lemma step_plays_counted:
  assumes "db_step d d'" and "db_ok d" and "plays_counted d"
  shows "plays_counted d'"
  using assms(1)
proof (cases rule: tracks_change)
  case (created t)
  have "pe_track p \<noteq> tr_id t" if "p \<in> set (d_events d)" for p
    using assms(2) created(3) that unfolding db_ok_def refs_ok_def by (metis image_subset_iff)
  then have "events_of d (tr_id t) = []" by (simp add: events_of_def filter_empty_conv)
  with created assms(3) show ?thesis by (auto simp: plays_counted_def events_of_def)
next
  case (status P f)
  with assms(3) show ?thesis by (auto simp: plays_counted_def events_of_def set_update_where)
next
  case (played p)
  with assms(3) show ?thesis by (auto simp: plays_counted_def events_of_def set_update_where)
qed (use assms(3) in \<open>simp add: plays_counted_def events_of_def\<close>)

definition tables_ok :: "db \<Rightarrow> bool" where
  "tables_ok d \<longleftrightarrow> db_ok d \<and> ownerless d \<and> anonymous_plays d \<and> plays_counted d \<and> known_status d"

lemma tables_ok_empty [simp, intro]: "tables_ok empty_db"
  unfolding tables_ok_def
  by (simp add: ownerless_def anonymous_plays_def plays_counted_def known_status_def)
    (simp add: empty_db_def)

lemma step_tables_ok: "db_step d d' \<Longrightarrow> tables_ok d \<Longrightarrow> tables_ok d'"
  unfolding tables_ok_def
  by (intro conjI; elim conjE)
    (auto intro: step_db_ok step_ownerless step_anonymous step_plays_counted step_known_status)

interpretation tables: table_contract "kept tables_ok"
  by (rule step_invariant_contract) (rule step_tables_ok)

lemma reachable_tables_ok: "reachable d \<Longrightarrow> tables_ok d"
  unfolding reachable_def by (erule steps_invariant) (auto intro: step_tables_ok)

section \<open>Histories\<close>

text \<open>Rows that are only added: play events, and audit rows up to the reference to an erased user.\<close>

definition trail :: "db \<Rightarrow> audit_row list" where
  "trail d = map (\<lambda>a. a\<lparr>au_user := None\<rparr>) (d_audits d)"

definition grows :: "db \<Rightarrow> db \<Rightarrow> bool" where
  "grows d d' \<longleftrightarrow> (\<exists>es. d_events d' = d_events d @ es) \<and> (\<exists>as. trail d' = trail d @ as)"

lemma trail_anonymised:
  "map (\<lambda>a. a\<lparr>au_user := None\<rparr>) (update_where P (\<lambda>a. a\<lparr>au_user := None\<rparr>) as) = map (\<lambda>a. a\<lparr>au_user := None\<rparr>) as"
  by (simp add: update_where_def comp_def if_distrib cong: if_cong)

lemma step_grows:
  assumes "db_step d d'"
  shows "grows d d'"
proof -
  have "\<exists>es. d_events d' = d_events d @ es" using assms by (cases rule: tracks_change) auto
  moreover have "\<exists>as. trail d' = trail d @ as"
    using assms by (cases rule: audits_change) (auto simp: trail_def trail_anonymised)
  ultimately show ?thesis by (simp add: grows_def)
qed

interpretation history: table_contract grows
proof unfold_locales
  show "grows d d" for d by (simp add: grows_def)
  show "grows d e \<Longrightarrow> grows e f \<Longrightarrow> grows d f" for d e f unfolding grows_def by auto
qed (rule step_grows)

text \<open>A track's status leaves \<open>pending\<close> once and for all, and tracks do not disappear.\<close>

definition moved_on :: "track \<Rightarrow> track \<Rightarrow> bool" where
  "moved_on t t' \<longleftrightarrow> tr_id t' = tr_id t \<and> tr_artist t' = tr_artist t \<and> tr_plays t \<le> tr_plays t' \<and>
     (tr_status t \<noteq> ''pending'' \<longrightarrow> tr_status t' \<noteq> ''pending'')"

definition forward :: "db \<Rightarrow> db \<Rightarrow> bool" where
  "forward d d' \<longleftrightarrow> (\<forall>t \<in> set (d_tracks d). \<exists>t' \<in> set (d_tracks d'). moved_on t t')"

lemma moved_on_refl [simp]: "moved_on t t"
  by (simp add: moved_on_def)

lemma moved_on_trans: "moved_on t u \<Longrightarrow> moved_on u v \<Longrightarrow> moved_on t v"
  by (auto simp: moved_on_def)

lemma forward_same: "d_tracks d' = d_tracks d @ ts \<Longrightarrow> forward d d'"
  unfolding forward_def by (metis UnCI set_append moved_on_refl)

lemma forward_update:
  assumes "d_tracks d' = update_where P f (d_tracks d)" and "\<And>t. moved_on t (f t)"
  shows "forward d d'"
  unfolding forward_def
proof
  fix t assume "t \<in> set (d_tracks d)"
  then have "(if P t then f t else t) \<in> set (d_tracks d')"
    using assms(1) by (auto simp: set_update_where)
  then show "\<exists>t' \<in> set (d_tracks d'). moved_on t t'"
    using assms(2) by (intro bexI) auto
qed

lemma step_forward:
  assumes "db_step d d'"
  shows "forward d d'"
  using assms
proof (cases rule: tracks_change)
  case (status P f)
  have "tr_status (f t) \<noteq> ''pending''" for t using status(6) [of t] by auto
  with status show ?thesis by (intro forward_update) (auto simp: moved_on_def)
next
  case (played p)
  then show ?thesis by (intro forward_update) (auto simp: moved_on_def)
qed (auto intro: forward_same [where ts = "[]"] forward_same)

interpretation progress: table_contract forward
proof unfold_locales
  show "forward d d" for d by (rule forward_same [where ts = "[]"]) simp
  show "forward d e \<Longrightarrow> forward e f \<Longrightarrow> forward d f" for d e f
    unfolding forward_def by (meson moved_on_trans)
qed (rule step_forward)

end
