(* ===== verification/Lab.thy ===== *)
theory Lab
  imports Integrity
begin

text \<open>
  A concrete environment: every service answers, the outside state is a counter that gives ids and
  times, and a token is its claims in the clear. The witnesses of the properties evaluate the model
  in it.
\<close>

definition lab_env :: "nat \<Rightarrow> pg_env" where
  "lab_env n = \<lparr>e_fault = Fine, e_id = nat_digits n, e_now = int n, e_cut = None, e_deferred = False\<rparr>"

text \<open>The goroutines of the laboratory find the context of another request, which was answered 404.\<close>

definition lab_late :: late_context where
  "lab_late = \<lparr>lc_ip = ''10.0.0.2'', lc_agent = ''curl'', lc_status = 404, lc_source = ''radio''\<rparr>"

definition lab :: "nat services" where
  "lab = \<lparr>svc_pg = (\<lambda>n. (lab_env n, Suc n)),
     svc_cast = Some, svc_cast_int = (\<lambda>s. Some (int (digits_val s))),
     svc_cast_inet = Some, svc_scan_inet = Some, svc_uuid_ok = (\<lambda>_. True),
     svc_uuid_new = (\<lambda>n. (nat_digits n, Suc n)), svc_clock = (\<lambda>n. (int n * 10 ^ 9, Suc n)),
     svc_cache_get = (\<lambda>n k. (None, n)), svc_cache_set = (\<lambda>n k v t. n),
     svc_eval = (\<lambda>n k s. (Some (sc_reply (s (None, None))), n)),
     svc_incr = (\<lambda>n k. (Some 1, n)), svc_expire = (\<lambda>n k t. n), svc_ttl = (\<lambda>n k. (0, n)),
     svc_produce = (\<lambda>n t k v. (True, n)), svc_put = (\<lambda>n b k v c. (True, n)),
     svc_get = (\<lambda>n b k. (Some ''audio'', n)), svc_presign = (\<lambda>n b k t. (Some k, n)),
     svc_http = (\<lambda>n r. (None, n)), svc_collate = (\<lambda>s. length s), svc_match = (\<lambda>t q. t = q),
     svc_rank = (\<lambda>t q. 0), svc_late = (\<lambda>n. (lab_late, n))\<rparr>"

definition lab_claims :: "string \<Rightarrow> (string \<rightharpoonup> json)" where
  "lab_claims tok = [''user_id'' \<mapsto> JStr tok, ''role'' \<mapsto> JStr ''user'']"

definition lab_crypto :: "nat crypto" where
  "lab_crypto = \<lparr>bc_hash = (\<lambda>n pw. (Some pw, n)), bc_check = (\<lambda>h pw. h = pw),
     jw_sign = (\<lambda>cl secret. Some secret),
     jw_parse = (\<lambda>now tok kf ms. if tok \<noteq> [] \<and> kf (HMAC ''HS256'') = Some tok
        then (Some \<lparr>tk_valid = True, tk_claims = Some (lab_claims tok)\<rparr>, False) else (None, True)),
     em_valid = (\<lambda>s. True)\<rparr>"

definition lab_engine :: "nat engine" where
  "lab_engine = \<lparr>en_recover = (\<lambda>out. out\<lparr>out_reply := recovered (out_reply out)\<rparr>), en_trace = (\<lambda>nxt. nxt),
     en_span = (\<lambda>cx. None), en_unrouted = (\<lambda>cx. abort_with cx (Reply 404 NoBody))\<rparr>"

definition lab_server :: "nat server" where
  "lab_server = \<lparr>sv_services = lab, sv_crypto = lab_crypto, sv_engine = lab_engine,
     sv_app = \<lparr>app_store = Some \<lparr>st_bucket = ''b''\<rparr>, app_producer = True\<rparr>, sv_search = None,
     sv_secret = ''k'', sv_origins = ''''\<rparr>"

definition lab_tools :: "nat tools" where
  "lab_tools = \<lparr>tl_mktemp = (\<lambda>n p. (Some p, n)), tl_create = (\<lambda>n p. (True, n)), tl_copy = (\<lambda>n p d. (True, n)),
     tl_exec = (\<lambda>n args. (Some ''12.5'', n)), tl_stat = (\<lambda>n p. (Some 7, n)), tl_read = (\<lambda>n p. (Some ''ogg'', n)),
     tl_remove_all = (\<lambda>n p. n)\<rparr>"

definition lab_world :: "db \<Rightarrow> nat world" where
  "lab_world d = \<lparr>w_db = d, w_ext = 0, w_counts = [], w_tasks = [], w_log = [], w_crashed = False\<rparr>"

text \<open>A request with nothing in it but a method and a route.\<close>

definition lab_request :: "string \<Rightarrow> string \<Rightarrow> request" where
  "lab_request m r = \<lparr>rq_method = m, rq_path = r, rq_rawquery = '''', rq_route = r, rq_param = (\<lambda>_. ''''),
     rq_query = (\<lambda>_. None), rq_header = (\<lambda>_. ''''), rq_cookie = (\<lambda>_. None), rq_form = (\<lambda>_. ''''),
     rq_file = (\<lambda>_. None), rq_json = None, rq_bind_err = ''invalid body'', rq_ip = ''10.0.0.1''\<rparr>"

definition lab_cx :: "request \<Rightarrow> gin_ctx" where
  "lab_cx rq = \<lparr>cx_req = rq, cx_keys = Map.empty\<rparr>"

definition lab_artist :: artist where
  "lab_artist = \<lparr>ar_id = ''a'', ar_name = ''Ann'', ar_created = 0\<rparr>"

definition lab_track :: track where
  "lab_track = \<lparr>tr_id = ''t'', tr_title = ''Song'', tr_artist = ''a'', tr_duration = 0, tr_audio = ''k'',
     tr_release = None, tr_plays = 0, tr_created = 0, tr_status = ''pending''\<rparr>"

definition lab_user :: user where
  "lab_user = \<lparr>us_id = ''u'', us_email = ''e'', us_hash = ''p'', us_name = ''n'', us_created = 0,
     us_role = ''user'', us_deleted = None, us_terms = 1\<rparr>"

definition lab_db :: db where
  "lab_db = empty_db\<lparr>d_artists := [lab_artist], d_tracks := [lab_track], d_users := [lab_user]\<rparr>"

lemmas lab_defs = lab_def lab_env_def lab_crypto_def lab_engine_def lab_server_def lab_tools_def
  lab_world_def lab_request_def lab_cx_def

lemma lab_simps [simp]:
  "svc_pg lab n = (lab_env n, Suc n)" "svc_cast lab = Some" "svc_cast_inet lab = Some" "svc_scan_inet lab = Some"
  "svc_cast_int lab t = Some (int (digits_val t))" "svc_uuid_ok lab t" "svc_uuid_new lab n = (nat_digits n, Suc n)"
  "svc_clock lab n = (int n * 10 ^ 9, Suc n)" "svc_cache_get lab n t = (None, n)" "svc_cache_set lab n t doc k = n"
  "svc_eval lab n t sc = (Some (sc_reply (sc (None, None))), n)" "svc_incr lab n t = (Some 1, n)"
  "svc_expire lab n t k = n" "svc_ttl lab n t = (0, n)" "svc_produce lab n t v j = (True, n)"
  "svc_put lab n b t v2 c = (True, n)" "svc_get lab n b t = (Some ''audio'', n)" "svc_presign lab n b t k = (Some t, n)"
  "svc_http lab n rq = (None, n)" "svc_late lab n = (lab_late, n)"
  by (simp_all add: lab_def)

lemma lab_env_simps [simp]:
  "e_fault (lab_env n) = Fine" "e_id (lab_env n) = nat_digits n" "e_now (lab_env n) = int n"
  "e_cut (lab_env n) = None" "\<not> e_deferred (lab_env n)"
  by (simp_all add: lab_env_def)

lemma lab_crypto_simps [simp]:
  "bc_hash lab_crypto n pw = (Some pw, n)" "bc_check lab_crypto h pw \<longleftrightarrow> h = pw"
  "jw_sign lab_crypto cl secret = Some secret" "em_valid lab_crypto s"
  by (simp_all add: lab_crypto_def)

lemma lab_world_simps [simp]: "w_db (lab_world d) = d" "w_ext (lab_world d) = 0" "w_tasks (lab_world d) = []"
  "\<not> w_crashed (lab_world d)"
  by (simp_all add: lab_world_def)

lemma lab_digits: "nat_digits (Suc 0) = ''1''" "nat_digits 0 = ''0''"
  by code_simp+

lemma lab_engine_ok [simp]: "engine_ok lab_engine"
  by (simp add: engine_ok_def lab_engine_def)

lemma lab_engine_of [simp]: "engine_ok (sv_engine lab_server)"
  by (simp add: lab_server_def)

lemma lab_tables_ok: "tables_ok lab_db"
  by (simp add: tables_ok_def integrity_defs ownerless_def anonymous_plays_def plays_counted_def known_status_def
      lab_db_def lab_artist_def lab_track_def lab_user_def empty_db_def events_of_def)

definition lab_verified :: "instant \<Rightarrow> string \<Rightarrow> string \<Rightarrow> bool" where
  "lab_verified now tok k \<longleftrightarrow> tok \<noteq> [] \<and> tok = k"

lemma lab_jwt_sound: "jwt_sound lab_crypto lab_verified"
  unfolding jwt_sound_def
proof (intro allI impI)
  fix now tok kf ms token
  assume "jw_parse lab_crypto now tok kf ms = (token, False)"
  then have "tok \<noteq> []" "kf (HMAC ''HS256'') = Some tok" "token = Some \<lparr>tk_valid = True, tk_claims = Some (lab_claims tok)\<rparr>"
    by (auto simp: lab_crypto_def split: if_splits)
  then show "\<exists>t m. token = Some t \<and> tk_valid t \<and> (case kf m of Some k \<Rightarrow> lab_verified now tok k | None \<Rightarrow> False)"
    by (intro exI [of _ "\<lparr>tk_valid = True, tk_claims = Some (lab_claims tok)\<rparr>"] exI [of _ "HMAC ''HS256''"])
      (simp add: lab_verified_def)
qed

end
