(* ===== verification/Accounts.thy ===== *)
theory Accounts
  imports Lab
begin

text \<open>
  Accounts over time: what a token proves about the tables, registration followed by login, erasure,
  and the two features that the written columns leave without effect (deleting a playlist,
  recommendations for a user).
\<close>

section \<open>Login\<close>

lemma sel_login_SomeD:
  "sel_login email e d = Some ((u, h), d') \<Longrightarrow>
     \<exists>r \<in> set (d_users d). us_email r = email \<and> us_deleted r = None \<and> u = scan_user r \<and> h = us_hash r \<and> d' = d"
  by (auto simp: sel_login_def select_row_def dest!: find_SomeD)

lemma sel_login_row:
  assumes "keys_ok d" and "r \<in> set (d_users d)" and "us_deleted r = None"
  shows "sel_login (us_email r) e d = Some ((scan_user r, us_hash r), d)"
proof -
  obtain y where y: "find (\<lambda>u. us_email u = us_email r \<and> us_deleted u = None) (d_users d) = Some y"
    using find_exists [OF assms(2), of "\<lambda>u. us_email u = us_email r \<and> us_deleted u = None"] assms(3) by auto
  then have "y \<in> set (d_users d)" "us_email y = us_email r" by (auto dest!: find_SomeD)
  with assms have "y = r" by (auto simp: keys_ok_def distinct_map inj_on_def)
  with y show ?thesis by (simp add: sel_login_def select_row_def)
qed

lemma run_generateToken:
  "\<exists>now1 now2 w'. run_state (generateToken S C secret u) w =
     (jw_sign C (token_claims (ur_id u) (ur_email u) (ur_name u) (ur_role u) now1 now2) secret, w') \<and> w_db w' = w_db w"
  by (cases "svc_clock S (w_ext w)"; cases "svc_clock S (snd (svc_clock S (w_ext w)))")
    (auto simp: generateToken_def)

section \<open>The login limiter\<close>

text \<open>
  What Redis documents for \<open>INCR\<close>: it adds one to the number under the key and answers it. \<open>count x\<close>
  is that number in the state \<open>x\<close>, and no other call of a login changes it while the key has not
  expired (reading the time to live and setting it included).
\<close>

definition counts_attempts :: "'x services \<Rightarrow> string \<Rightarrow> ('x \<Rightarrow> int) \<Rightarrow> bool" where
  "counts_attempts S k count \<longleftrightarrow>
     (\<forall>x. fst (svc_incr S x k) = Some (count x + 1) \<and> count (snd (svc_incr S x k)) = count x + 1) \<and>
     (\<forall>x n. count (svc_expire S x k n) = count x) \<and> (\<forall>x. count (snd (svc_ttl S x k)) = count x) \<and>
     (\<forall>x. count (snd (svc_pg S x)) = count x) \<and> (\<forall>x. count (snd (svc_clock S x)) = count x)"

text \<open>Attempts one after the other: did the answer come from the limiter?\<close>

primrec login_attempts :: "'x server \<Rightarrow> gin_ctx list \<Rightarrow> ('x, bool list) run" where
  "login_attempts sv [] = State_Monad.return []"
| "login_attempts sv (cx # cxs) = do {
     out \<leftarrow> login_chain sv cx;
     rest \<leftarrow> login_attempts sv cxs;
     State_Monad.return ((\<exists>j. out_reply out = Reply 429 (JSON j)) # rest)
   }"

lemma login_keeps_count:
  assumes "counts_attempts S k count"
  shows "post (auth_Login S C secret cx)
     (\<lambda>r w'. count (w_ext w') = count (w_ext w) \<and> (\<forall>b. r \<noteq> Reply 429 b)) w"
proof -
  have pg: "count x' = count x" if "svc_pg S x = (e, x')" for x e x'
    using assms that unfolding counts_attempts_def by (metis snd_conv)
  have clock: "count x' = count x" if "svc_clock S x = (t, x')" for x t x'
    using assms that unfolding counts_attempts_def by (metis snd_conv)
  show ?thesis
    by (auto simp: post_def auth_Login_def generateToken_def token_reply_def fail_with_def ok_json_def run_sql
        dest!: pg clock split: option.splits prod.splits)
qed

lemma login_chain_step:
  assumes "counts_attempts (sv_services sv) (login_key (rq_ip (cx_req cx))) count"
    and "run_state (login_chain sv cx) w = (out, w')"
  shows "(\<exists>j. out_reply out = Reply 429 (JSON j)) \<longleftrightarrow> 5 \<le> count (w_ext w)" and "count (w_ext w') = count (w_ext w) + 1"
proof -
  let ?S = "sv_services sv" and ?k = "login_key (rq_ip (cx_req cx))"
  let ?n = "count (w_ext w) + 1"
  obtain x where incr: "svc_incr ?S (w_ext w) ?k = (Some ?n, x)" "count x = ?n"
    using assms(1) unfolding counts_attempts_def by (metis prod.collapse)
  have expire: "count (svc_expire ?S x ?k windowSecs) = count x" and ttl: "\<And>x. count (snd (svc_ttl ?S x ?k)) = count x"
    using assms(1) by (simp_all add: counts_attempts_def)
  define v where "v = w\<lparr>w_ext := if ?n = 1 then svc_expire ?S x ?k windowSecs else x\<rparr>"
  have v: "count (w_ext v) = ?n" using incr(2) expire by (simp add: v_def)
  obtain r u where login: "run_state (auth_Login ?S (sv_crypto sv) (sv_secret sv) cx) v = (r, u)" by fastforce
  have kept: "count (w_ext u) = count (w_ext v)" "\<And>b. r \<noteq> Reply 429 b"
    using postD [OF login_keeps_count [OF assms(1)] login] by auto
  have "((\<exists>j. out_reply out = Reply 429 (JSON j)) \<longleftrightarrow> 5 < ?n) \<and> count (w_ext w') = ?n"
    using assms(2) incr(1) login kept v ttl [of "w_ext v"]
    by (auto simp: login_chain_def LoginRateLimit_def Let_def with_header_def finish_def maxAttempts_def v_def
        split: if_splits prod.splits)
  then show "(\<exists>j. out_reply out = Reply 429 (JSON j)) \<longleftrightarrow> 5 \<le> count (w_ext w)"
    and "count (w_ext w') = ?n" by auto
qed

text \<open>
  C27. As long as the key has not expired, the limiter lets the first five login attempts of an address
  through and answers every further one 429 itself, whatever the attempts carry and however the ones
  that pass end.
\<close>

theorem five_login_attempts:
  assumes "counts_attempts (sv_services sv) (login_key ip) count" and "\<forall>cx \<in> set cxs. rq_ip (cx_req cx) = ip"
    and "run_state (login_attempts sv cxs) w = (denied, w')"
  shows "denied = map (\<lambda>i. 5 \<le> count (w_ext w) + int i) [0..<length cxs]"
  using assms(2,3)
proof (induction cxs arbitrary: w denied)
  case (Cons cx cxs)
  obtain out v where one: "run_state (login_chain sv cx) w = (out, v)" by fastforce
  obtain rest where rest: "run_state (login_attempts sv cxs) v = (rest, w')"
    "denied = (\<exists>j. out_reply out = Reply 429 (JSON j)) # rest"
    using Cons.prems(2) one by (auto split: prod.splits)
  have "rest = map (\<lambda>i. 5 \<le> count (w_ext v) + int i) [0..<length cxs]"
    using Cons.prems(1) rest(1) by (intro Cons.IH) auto
  moreover have "[0..<length (cx # cxs)] = 0 # map Suc [0..<length cxs]" by (simp add: map_Suc_upt upt_conv_Cons del: upt_Suc)
  moreover have "counts_attempts (sv_services sv) (login_key (rq_ip (cx_req cx))) count"
    using assms(1) Cons.prems(1) by simp
  ultimately show ?case
    using rest(2) login_chain_step [OF _ one, of count] by (simp add: algebra_simps comp_def)
qed simp

text \<open>A Redis that counts the attempts of one address.\<close>

definition lab_counter :: "nat services" where
  "lab_counter = lab\<lparr>svc_pg := \<lambda>n. (lab_env n, n), svc_clock := \<lambda>n. (0, n), svc_incr := \<lambda>n k. (Some (int n + 1), Suc n)\<rparr>"

theorem five_login_attempts_witness:
  "\<exists>w'. run_state (login_attempts (lab_server\<lparr>sv_services := lab_counter\<rparr>)
       (replicate 7 (lab_cx (lab_request ''POST'' ''/v1/auth/login'')))) (lab_world empty_db) =
     ([False, False, False, False, False, True, True], w')"
proof -
  let ?sv = "lab_server\<lparr>sv_services := lab_counter\<rparr>" and ?cx = "lab_cx (lab_request ''POST'' ''/v1/auth/login'')"
  obtain ds w' where run: "run_state (login_attempts ?sv (replicate 7 ?cx)) (lab_world empty_db) = (ds, w')"
    by fastforce
  have law: "counts_attempts (sv_services ?sv) (login_key ''10.0.0.1'') int"
    by (simp add: counts_attempts_def lab_counter_def)
  have "\<forall>cx \<in> set (replicate 7 ?cx). rq_ip (cx_req cx) = ''10.0.0.1''" by (simp add: lab_cx_def lab_request_def)
  from five_login_attempts [OF law this run] run show ?thesis by (simp add: upt_rec)
qed

text \<open>
  C20. Login answers 200 only with a token signed for the row of an account that is not erased, whose
  e-mail is the one sent and whose hash bcrypt accepts for the password sent; it changes no table.
\<close>

theorem login_token_sound:
  assumes "run_state (auth_Login S C secret cx) w = (Reply 200 b, w')"
  shows "\<exists>u \<in> set (d_users (w_db w)). \<exists>password now1 now2 tok. bind_login cx = Some (us_email u, password) \<and>
     us_deleted u = None \<and> bc_check C (us_hash u) password \<and>
     jw_sign C (token_claims (us_id u) (us_email u) (us_name u) (us_role u) now1 now2) secret = Some tok \<and>
     b = JSON (JObj [(''token'', JStr tok), (''user'', enc_user (scan_user u))]) \<and> w_db w' = w_db w"
proof -
  obtain email password where bound: "bind_login cx = Some (email, password)"
    using assms by (auto simp: auth_Login_def split: option.splits)
  obtain e x where pg: "svc_pg S (w_ext w) = (e, x)" by (cases "svc_pg S (w_ext w)")
  obtain r d where ex: "exec_stmt e (sel_login email) (w_db w) = (r, d)" by (cases "exec_stmt e (sel_login email) (w_db w)")
  let ?w = "w\<lparr>w_ext := x, w_db := d\<rparr>"
  obtain u h where r: "r = Some (u, h)" "bc_check C h password"
    and rest: "run_state (generateToken S C secret u \<bind> (\<lambda>t. token_reply 200 u t)) ?w = (Reply 200 b, w')"
    using assms bound pg ex
    by (auto simp: auth_Login_def run_sql split: option.splits prod.splits if_splits)
  obtain row where row: "row \<in> set (d_users (w_db w))" "us_email row = email" "us_deleted row = None"
    "u = scan_user row" "h = us_hash row" "d = w_db w"
    using sel_login_SomeD [OF exec_stmt_SomeD [OF ex [unfolded r(1)]]] by blast
  obtain now1 now2 w2 where t: "run_state (generateToken S C secret u) ?w =
      (jw_sign C (token_claims (ur_id u) (ur_email u) (ur_name u) (ur_role u) now1 now2) secret, w2)" "w_db w2 = w_db ?w"
    using run_generateToken by blast
  then obtain tok where "jw_sign C (token_claims (ur_id u) (ur_email u) (ur_name u) (ur_role u) now1 now2) secret = Some tok"
    "b = JSON (JObj [(''token'', JStr tok), (''user'', enc_user u)])" "w' = w2"
    using rest by (auto simp: token_reply_def split: option.splits)
  with row bound r t show ?thesis
    by (intro bexI [OF _ row(1)] exI [of _ password] exI [of _ now1] exI [of _ now2] exI [of _ tok])
      (auto simp: scan_user_def)
qed

text \<open>A database that answers, and a signer that signs.\<close>

definition pg_up :: "'x services \<Rightarrow> 'x world \<Rightarrow> bool" where
  "pg_up S w \<longleftrightarrow> e_fault (fst (svc_pg S (w_ext w))) = Fine"

lemma run_sql_fine:
  assumes "pg_up S w"
  shows "\<exists>x. run_state (sql S st) w = (case st (fst (svc_pg S (w_ext w))) (w_db w) of
     None \<Rightarrow> (None, w\<lparr>w_ext := x\<rparr>) | Some (a, d) \<Rightarrow> (Some a, w\<lparr>w_ext := x, w_db := d\<rparr>))"
  using assms by (auto simp: run_sql pg_up_def exec_stmt_def split: prod.splits option.splits)

lemma login_accepts:
  assumes "keys_ok (w_db w)" and "pg_up S w" and "u \<in> set (d_users (w_db w))" and "us_deleted u = None"
    and "bind_login cx = Some (us_email u, password)" and "bc_check C (us_hash u) password"
    and "\<forall>cl. jw_sign C cl secret \<noteq> None"
  shows "\<exists>tok w'. run_state (auth_Login S C secret cx) w =
     (Reply 200 (JSON (JObj [(''token'', JStr tok), (''user'', enc_user (scan_user u))])), w') \<and> w_db w' = w_db w"
proof -
  obtain x where s: "run_state (sql S (sel_login (us_email u))) w =
      (Some (scan_user u, us_hash u), w\<lparr>w_ext := x\<rparr>)"
    using run_sql_fine [OF assms(2), of "sel_login (us_email u)"] sel_login_row [OF assms(1,3,4)] by auto
  obtain now1 now2 w2 where t: "run_state (generateToken S C secret (scan_user u)) (w\<lparr>w_ext := x\<rparr>) =
      (jw_sign C (token_claims (ur_id (scan_user u)) (ur_email (scan_user u)) (ur_name (scan_user u)) (ur_role (scan_user u))
         now1 now2) secret, w2)" "w_db w2 = w_db w"
    using run_generateToken [of S C secret "scan_user u" "w\<lparr>w_ext := x\<rparr>"] by auto
  obtain tok where "jw_sign C (token_claims (ur_id (scan_user u)) (ur_email (scan_user u)) (ur_name (scan_user u))
      (ur_role (scan_user u)) now1 now2) secret = Some tok"
    using assms(7) by blast
  with s t assms(5,6) show ?thesis by (simp add: auth_Login_def token_reply_def)
qed

section \<open>Registration, then login\<close>

lemma ins_user_SomeD:
  "ins_user email h name t e d = Some (u, d') \<Longrightarrow> \<exists>v. d' = d\<lparr>d_users := d_users d @ [v]\<rparr> \<and> us_email v = email \<and>
     us_hash v = h \<and> us_deleted v = None \<and> us_role v = ''user'' \<and> us_name v = name \<and> u = scan_user v"
  by (rule exI [of _ "\<lparr>us_id = e_id e, us_email = email, us_hash = h, us_name = name, us_created = e_now e,
        us_role = ''user'', us_deleted = None, us_terms = t\<rparr>"])
    (clarsimp simp: ins_user_def Let_def split: if_splits option.splits)

lemma register_201:
  assumes "run_state (auth_Register S C secret cx) w = (Reply 201 b, w')"
  obtains rb h x x' u where "bind_register C cx = Some rb" "bc_hash C x (rb_password rb) = (Some h, x')"
    "u \<in> set (d_users (w_db w'))" "us_email u = rb_email rb" "us_hash u = h" "us_deleted u = None"
    "us_role u = ''user''" "us_name u = rb_name rb"
proof -
  obtain rb where rb: "bind_register C cx = Some rb"
    using assms by (auto simp: auth_Register_def split: option.splits)
  obtain ho x' where hash: "bc_hash C (w_ext w) (rb_password rb) = (ho, x')" by (cases "bc_hash C (w_ext w) (rb_password rb)")
  let ?t = "if rb_terms rb = 0 then 1 else rb_terms rb"
  obtain h where h: "ho = Some h" using assms rb hash by (auto simp: auth_Register_def split: option.splits)
  obtain e x2 where pg: "svc_pg S x' = (e, x2)" by (cases "svc_pg S x'")
  obtain r d where ex: "exec_stmt e (ins_user (rb_email rb) h (rb_name rb) ?t) (w_db w) = (r, d)"
    by (cases "exec_stmt e (ins_user (rb_email rb) h (rb_name rb) ?t) (w_db w)")
  obtain u where u: "r = Some u"
    and rest: "run_state (generateToken S C secret u \<bind> (\<lambda>t. token_reply 201 u t)) (w\<lparr>w_ext := x2, w_db := d\<rparr>) = (Reply 201 b, w')"
    using assms rb hash h pg ex
    by (auto simp: auth_Register_def Let_def run_sql split: option.splits prod.splits)
  obtain now1 now2 w2 where t: "run_state (generateToken S C secret u) (w\<lparr>w_ext := x2, w_db := d\<rparr>) =
      (jw_sign C (token_claims (ur_id u) (ur_email u) (ur_name u) (ur_role u) now1 now2) secret, w2)" "w_db w2 = d"
    using run_generateToken [of S C secret u "w\<lparr>w_ext := x2, w_db := d\<rparr>"] by auto
  have "w' = w2"
  proof (cases "jw_sign C (token_claims (ur_id u) (ur_email u) (ur_name u) (ur_role u) now1 now2) secret")
    case None
    with rest t(1) show ?thesis by (simp add: token_reply_def)
  next
    case (Some tok)
    with rest t(1) show ?thesis by (simp add: token_reply_def)
  qed
  with t(2) have "w_db w' = d" by simp
  moreover have "ins_user (rb_email rb) h (rb_name rb) ?t e (w_db w) = Some (u, d)"
    using exec_stmt_SomeD [OF ex [unfolded u]] .
  moreover from this obtain v where "d = (w_db w)\<lparr>d_users := d_users (w_db w) @ [v]\<rparr>"
    "us_email v = rb_email rb" "us_hash v = h" "us_deleted v = None" "us_role v = ''user''" "us_name v = rb_name rb"
    by (blast dest: ins_user_SomeD)
  ultimately show thesis
    by (intro that [OF rb hash [unfolded h], of v]) simp_all
qed

text \<open>
  C21. An account that registration confirmed can log in with the password it was registered with, in
  any later state of the program in which its row is still there, and gets the same user back.
\<close>

theorem register_then_login:
  assumes "\<forall>x x' pw h. bc_hash C x pw = (Some h, x') \<longrightarrow> bc_check C h pw"
    and "run_state (auth_Register S C secret cx) w = (Reply 201 b, w1)"
    and "bind_register C cx = Some rb" and "bind_login cx' = Some (rb_email rb, rb_password rb)"
    and "\<forall>u \<in> set (d_users (w_db w1)). us_email u = rb_email rb \<longrightarrow> u \<in> set (d_users (w_db w2))"
    and "reachable (w_db w2)" and "pg_up S w2"
    and "\<forall>cl. jw_sign C cl secret \<noteq> None"
  shows "\<exists>tok u w3. run_state (auth_Login S C secret cx') w2 =
     (Reply 200 (JSON (JObj [(''token'', JStr tok), (''user'', enc_user u)])), w3) \<and>
     ur_email u = rb_email rb \<and> ur_name u = rb_name rb \<and> ur_role u = ''user''"
proof -
  obtain h x x' u where u: "bc_hash C x (rb_password rb) = (Some h, x')"
    "u \<in> set (d_users (w_db w1))" "us_email u = rb_email rb" "us_hash u = h" "us_deleted u = None"
    "us_role u = ''user''" "us_name u = rb_name rb"
    using register_201 [OF assms(2)] assms(3) by (metis option.inject)
  have "keys_ok (w_db w2)"
    using reachable_tables_ok [OF assms(6)] by (simp add: tables_ok_def db_ok_def)
  moreover have "u \<in> set (d_users (w_db w2))" using assms(5) u(2,3) by blast
  moreover have "bind_login cx' = Some (us_email u, rb_password rb)" using assms(4) u(3) by simp
  moreover have "bc_check C (us_hash u) (rb_password rb)" using assms(1) u(1,4) by blast
  ultimately obtain tok w3 where "run_state (auth_Login S C secret cx') w2 =
      (Reply 200 (JSON (JObj [(''token'', JStr tok), (''user'', enc_user (scan_user u))])), w3)"
    using login_accepts [OF _ assms(7) _ u(5)] assms(8) by blast
  with u show ?thesis by (intro exI [of _ tok] exI [of _ "scan_user u"] exI [of _ w3]) (simp add: scan_user_def)
qed

definition lab_body :: "(string \<times> json) list" where
  "lab_body = [(''email'', JStr ''e''), (''password'', JStr ''secret''), (''name'', JStr ''n'')]"

definition lab_post :: "string \<Rightarrow> gin_ctx" where
  "lab_post r = lab_cx ((lab_request ''POST'' r)\<lparr>rq_json := Some lab_body\<rparr>)"

lemma lab_key_eq: "key_eq ''email'' ''email''" "\<not> key_eq ''email'' ''password''" "\<not> key_eq ''email'' ''name''"
  "\<not> key_eq ''password'' ''email''" "key_eq ''password'' ''password''" "\<not> key_eq ''password'' ''name''"
  "\<not> key_eq ''name'' ''email''" "\<not> key_eq ''name'' ''password''" "key_eq ''name'' ''name''"
  "\<not> key_eq ''email'' ''terms_version''" "\<not> key_eq ''password'' ''terms_version''" "\<not> key_eq ''name'' ''terms_version''"
  by (simp_all add: key_eq_def to_lower_def lower_char_def)

lemma lab_register_body: "bind_register lab_crypto (lab_post r) =
    Some \<lparr>rb_email = ''e'', rb_password = ''secret'', rb_name = ''n'', rb_terms = 0\<rparr>"
  by (simp add: bind_register_def lab_post_def lab_cx_def lab_request_def lab_body_def lab_key_eq lab_crypto_def
      dec_str_def rune_count_def)

lemma lab_login_body: "bind_login (lab_post r) = Some (''e'', ''secret'')"
  by (simp add: bind_login_def bind_required_def lab_post_def lab_cx_def lab_request_def lab_body_def lab_key_eq
      dec_str_def)

theorem register_then_login_witness:
  "\<exists>b w1 tok u w3. run_state (auth_Register lab lab_crypto ''k'' (lab_post '''')) (lab_world empty_db) = (Reply 201 b, w1) \<and>
     run_state (auth_Login lab lab_crypto ''k'' (lab_post '''')) w1 =
       (Reply 200 (JSON (JObj [(''token'', JStr tok), (''user'', enc_user u)])), w3) \<and> ur_email u = ''e''"
proof -
  let ?R = "auth_Register lab lab_crypto ''k'' (lab_post '''')"
  obtain b w1 where run: "run_state ?R (lab_world empty_db) = (Reply 201 b, w1)"
    by (simp add: auth_Register_def lab_register_body run_sql exec_stmt_def ins_user_def
        empty_db_def int32_def generateToken_def token_reply_def insert_row_def Let_def)
  have "reachable (w_db w1)"
    using staysD [OF steps.stays_auth(1), of "lab_world empty_db" lab lab_crypto "''k''" "lab_post ''''"] run
    by (simp add: reachable_def)
  from register_then_login [OF _ run lab_register_body, of "lab_post ''''" w1] this
  show ?thesis using run
    by (auto simp: lab_login_body pg_up_def)
qed

definition lab_account :: user where
  "lab_account = lab_user\<lparr>us_hash := ''secret''\<rparr>"

definition lab_accounts :: db where
  "lab_accounts = empty_db\<lparr>d_users := [lab_account]\<rparr>"

theorem login_token_sound_witness:
  "\<exists>b w'. run_state (auth_Login lab lab_crypto ''k'' (lab_post '''')) (lab_world lab_accounts) = (Reply 200 b, w') \<and>
     (\<exists>u \<in> set (d_users lab_accounts). us_email u = ''e'' \<and> us_deleted u = None \<and> us_hash u = ''secret'') \<and>
     w_db w' = lab_accounts"
proof -
  let ?R = "auth_Login lab lab_crypto ''k'' (lab_post '''')"
  obtain b w1 where run: "run_state ?R (lab_world lab_accounts) = (Reply 200 b, w1)"
    by (simp add: auth_Login_def lab_login_body run_sql exec_stmt_def sel_login_def select_row_def
        lab_accounts_def lab_account_def lab_user_def empty_db_def generateToken_def token_reply_def)
  from login_token_sound [OF this] run show ?thesis by (auto simp: lab_login_body)
qed

section \<open>Erasure\<close>

lemma erased_users:
  assumes "keys_ok (w_db w)" and "cx_keys cx ''user_id'' = Some (JStr s)" and "svc_cast S s = Some i"
    and "run_state (auth_DeleteMe S cx) w = (Reply 204 NoBody, w1)"
    and "u \<in> set (d_users (w_db w))" and "us_id u = i"
  obtains t where "us_deleted u = None"
    "d_users (w_db w1) = update_where (\<lambda>v. us_id v = i \<and> us_deleted v = None) (soft_deleted t) (d_users (w_db w))"
proof -
  let ?P = "\<lambda>u. us_id u = i \<and> us_deleted u = None"
  obtain e x where pg: "svc_pg S (w_ext w) = (e, x)" by (cases "svc_pg S (w_ext w)")
  obtain r d where ex: "exec_stmt e (upd_soft_delete (svc_cast S) (Some (JStr s))) (w_db w) = (r, d)"
    by (cases "exec_stmt e (upd_soft_delete (svc_cast S) (Some (JStr s))) (w_db w)")
  have "(\<exists>n. r = Some n \<and> n \<noteq> 0) \<and> w_db w1 = d"
    using assms(2,4) pg ex by (auto simp: auth_DeleteMe_def run_sql split: option.splits if_splits)
  then obtain n where n: "r = Some n" "n \<noteq> 0" "w_db w1 = d" by blast
  have upd: "upd_soft_delete (svc_cast S) (Some (JStr s)) e (w_db w) = Some (n, d)"
    using exec_stmt_SomeD [OF ex [unfolded n(1)]] .
  then have d: "d_users d = update_where ?P (soft_deleted (e_now e)) (d_users (w_db w))"
    and some: "affected ?P (d_users (w_db w)) = n"
    using assms(3) by (auto simp: upd_soft_delete_def uuid_arg_def Let_def split: if_splits)
  have "v = u" if "v \<in> set (d_users (w_db w))" "us_id v = i" for v
    using assms(1,5,6) that by (auto simp: keys_ok_def distinct_map inj_on_def)
  then have "us_deleted u = None" using some n(2) affected_0_iff [of ?P "d_users (w_db w)"] by auto
  with d n(3) show thesis by (intro that) auto
qed

text \<open>The only row that had the e-mail is no longer active.\<close>

definition open_account :: "db \<Rightarrow> string \<Rightarrow> bool" where
  "open_account d email \<longleftrightarrow> (\<exists>v \<in> set (d_users d). us_email v = email \<and> us_deleted v = None)"

lemma email_closed:
  assumes "keys_ok d" and "u \<in> set (d_users d)"
    and "d_users d' = update_where (\<lambda>v. us_id v = us_id u \<and> us_deleted v = None) (soft_deleted t) (d_users d)"
  shows "\<not> open_account d' (us_email u)"
proof
  let ?P = "\<lambda>v. us_id v = us_id u \<and> us_deleted v = None"
  assume "open_account d' (us_email u)"
  then obtain v0 where v0: "v0 \<in> set (d_users d)" "us_email (if ?P v0 then soft_deleted t v0 else v0) = us_email u"
    "us_deleted (if ?P v0 then soft_deleted t v0 else v0) = None"
    unfolding open_account_def assms(3) set_update_where by blast
  then have "\<not> ?P v0" "us_email v0 = us_email u" "us_deleted v0 = None"
    by (auto simp: soft_deleted_def split: if_splits)
  then show False using assms(1,2) v0(1) by (auto simp: keys_ok_def distinct_map inj_on_def)
qed

text \<open>
  The one statement that gives an e-mail an active row is the insert of a registration with it: no other
  step of the program does, nor does a sequence of other steps.
\<close>

definition registers :: "string \<Rightarrow> db \<Rightarrow> db \<Rightarrow> bool" where
  "registers email d d' \<longleftrightarrow> (\<exists>hash name terms e r. ins_user email hash name terms e d = Some (r, d'))"

inductive other_step :: "string \<Rightarrow> db \<Rightarrow> db \<Rightarrow> bool" for email where
  other_step: "db_step d d' \<Longrightarrow> \<not> registers email d d' \<Longrightarrow> other_step email d d'"

lemma account_opened:
  assumes "db_step d d'" and "\<not> open_account d email" and "open_account d' email"
  shows "registers email d d'"
proof -
  have same: ?thesis if "d_users d' = d_users d" using that assms(2,3) unfolding open_account_def by auto
  show ?thesis
    using assms(1)
  proof (cases rule: db_step.cases)
    case (step_user em hash name terms e r)
    then have "\<exists>u. d_users d' = d_users d @ [u] \<and> us_email u = em"
      by (auto simp: op_defs Let_def split: if_splits option.splits)
    then have "em = email" using assms(2,3) by (auto simp: open_account_def)
    with step_user show ?thesis unfolding registers_def by blast
  next
    case (step_soft_delete cast v e n)
    then obtain P where "d_users d' = update_where P (soft_deleted (e_now e)) (d_users d)"
      by (cases "uuid_arg cast v") (auto simp: op_defs Let_def split: if_splits)
    then have False using assms(2,3) by (auto simp: open_account_def set_update_where soft_deleted_def split: if_splits)
    then show ?thesis ..
  next
    case (step_del_user cast i e n)
    then obtain P where "d_users d' = delete_where P (d_users d)" by (cases "cast i") (auto simp: op_defs)
    then have False using assms(2,3) by (auto simp: open_account_def delete_where_def)
    then show ?thesis ..
  qed (rule same, (drule frames)+, elim exE, simp)+
qed

lemma account_stays_closed:
  "(other_step email)\<^sup>*\<^sup>* d d' \<Longrightarrow> \<not> open_account d email \<Longrightarrow> \<not> open_account d' email"
  by (induction rule: rtranclp_induct) (auto elim!: other_step.cases dest: account_opened)

text \<open>
  C22. After an account has been erased (204), its row keeps no hash and no name, and the e-mail it had
  opens no session: after any further steps of the program that are not a registration with that e-mail,
  login with it answers 401, whatever the password.
\<close>

theorem erased_cannot_login:
  assumes "keys_ok (w_db w)" and "cx_keys cx ''user_id'' = Some (JStr s)" and "svc_cast S s = Some i"
    and "run_state (auth_DeleteMe S cx) w = (Reply 204 NoBody, w1)"
    and "u \<in> set (d_users (w_db w))" and "us_id u = i"
    and "(other_step (us_email u))\<^sup>*\<^sup>* (w_db w1) (w_db w2)"
    and "bind_login cx' = Some (us_email u, password)"
  shows "fst (run_state (auth_Login S' C secret cx') w2) = Reply 401 (JSON (apiError ''invalid email or password'')) \<and>
     (\<exists>r \<in> set (d_users (w_db w1)). us_id r = i \<and> us_hash r = '''' \<and> us_name r = ''[deleted]'' \<and> us_deleted r \<noteq> None)"
proof -
  obtain t where t: "us_deleted u = None"
    "d_users (w_db w1) = update_where (\<lambda>v. us_id v = i \<and> us_deleted v = None) (soft_deleted t) (d_users (w_db w))"
    by (rule erased_users [OF assms(1-6)])
  have "\<not> open_account (w_db w1) (us_email u)"
    using t(2) assms(6) by (intro email_closed [OF assms(1,5)]) simp
  then have "\<not> open_account (w_db w2) (us_email u)"
    by (rule account_stays_closed [OF assms(7)])
  then have none: "sel_login (us_email u) e' (w_db w2) = None" for e'
    by (auto simp: sel_login_def select_row_def find_None_iff open_account_def)
  have "fst (run_state (sql S' (sel_login (us_email u))) w2) = None"
    by (auto simp: run_sql exec_stmt_def none split: prod.splits fault.splits)
  then have "fst (run_state (auth_Login S' C secret cx') w2) = Reply 401 (JSON (apiError ''invalid email or password''))"
    using assms(8) by (cases "run_state (sql S' (sel_login (us_email u))) w2") (simp add: auth_Login_def)
  moreover have "soft_deleted t u \<in> set (d_users (w_db w1))"
    using t assms(5,6) by (force simp: set_update_where)
  ultimately show ?thesis
    using assms(6) by (intro conjI bexI [of _ "soft_deleted t u"]) (simp_all add: soft_deleted_def)
qed

text \<open>Between the erasure and the login somebody registers with another e-mail.\<close>

theorem erased_cannot_login_witness:
  "\<exists>w1 r d2. run_state (auth_DeleteMe lab (set_key ''user_id'' (JStr ''u'') (lab_post ''''))) (lab_world lab_accounts) =
       (Reply 204 NoBody, w1) \<and>
     ins_user ''f'' ''h'' ''m'' 1 (lab_env 9) (w_db w1) = Some (r, d2) \<and>
     fst (run_state (auth_Login lab lab_crypto ''k'' (lab_post '''')) (lab_world d2)) =
       Reply 401 (JSON (apiError ''invalid email or password''))"
proof -
  let ?cx = "set_key ''user_id'' (JStr ''u'') (lab_post '''')"
  obtain w1 where run: "run_state (auth_DeleteMe lab ?cx) (lab_world lab_accounts) = (Reply 204 NoBody, w1)"
    and users: "d_users (w_db w1) = [soft_deleted 0 lab_account]"
    by (simp add: auth_DeleteMe_def run_sql exec_stmt_def upd_soft_delete_def uuid_arg_def set_key_def soft_deleted_def
        removed_email_def lab_accounts_def lab_account_def lab_user_def empty_db_def update_where_def affected_def Let_def)
  have "nat_digits 9 = ''9''" by code_simp
  then obtain r d2 where ins: "ins_user ''f'' ''h'' ''m'' 1 (lab_env 9) (w_db w1) = Some (r, d2)"
    and email: "us_email (last (d_users d2)) = ''f''"
    using users by (auto simp: ins_user_def insert_row_def soft_deleted_def removed_email_def lab_account_def lab_user_def
        int32_def Let_def)
  have "\<not> registers ''e'' (w_db w1) d2"
  proof
    assume "registers ''e'' (w_db w1) d2"
    then have "us_email (last (d_users d2)) = ''e''"
      by (auto simp: registers_def ins_user_def insert_row_def Let_def split: if_splits)
    with email show False by simp
  qed
  then have later: "(other_step (us_email lab_account))\<^sup>*\<^sup>* (w_db w1) (w_db (lab_world d2))"
    using step_user [OF ins] by (auto simp: lab_account_def lab_user_def intro!: r_into_rtranclp other_step)
  have "keys_ok (w_db (lab_world lab_accounts))"
    by (simp add: keys_ok_def lab_accounts_def lab_account_def empty_db_def)
  from erased_cannot_login [OF this _ _ run _ _ later, of "''u''" "''u''" "lab_post ''''" "''secret''" lab lab_crypto "''k''"]
  have "fst (run_state (auth_Login lab lab_crypto ''k'' (lab_post '''')) (lab_world d2)) =
      Reply 401 (JSON (apiError ''invalid email or password''))"
    by (simp add: set_key_def lab_accounts_def lab_account_def lab_user_def lab_login_body)
  with run ins show ?thesis by blast
qed

section \<open>Playlists without owners\<close>

text \<open>
  C30. In every reachable state of the tables, deleting a playlist deletes nothing: no playlist has an
  owner, so the request never gets 204 and the playlists stay as they are.
\<close>

theorem playlist_delete_never:
  assumes "reachable (w_db w)" and "run_state (playlists_Delete S cx) w = (r, w')"
  shows "r \<noteq> Reply 204 NoBody \<and> w_db w' = w_db w"
proof -
  have "ownerless (w_db w)" using reachable_tables_ok [OF assms(1)] by (simp add: tables_ok_def)
  then have none: "affected (\<lambda>p. pl_id p = u \<and> pl_owner p = Some v) (d_playlists (w_db w)) = 0" for u v
    by (auto simp: ownerless_def affected_0_iff)
  have "del_playlist cast i owner e (w_db w) = Some (n, d) \<Longrightarrow> n = 0 \<and> d = w_db w" for cast i owner e n d
  proof -
    assume "del_playlist cast i owner e (w_db w) = Some (n, d)"
    then obtain P X where P: "X = pl_id ` {p \<in> set (d_playlists (w_db w)). P p}" "n = affected P (d_playlists (w_db w))"
      "d = (w_db w)\<lparr>d_playlists := delete_where P (d_playlists (w_db w)),
         d_ptracks := delete_where (\<lambda>pt. pt_playlist pt \<in> X) (d_ptracks (w_db w))\<rparr>"
      "\<And>p. P p \<Longrightarrow> pl_owner p \<noteq> None" "\<And>p. P p \<Longrightarrow> cast i = Some (pl_id p)"
      by (elim del_playlist_shape) blast
    have "\<not> P p" if "p \<in> set (d_playlists (w_db w))" for p
    proof
      assume "P p"
      then have "pl_owner p \<noteq> None" by (rule P(4))
      with that \<open>ownerless (w_db w)\<close> show False by (simp add: ownerless_def)
    qed
    then have none: "X = {}" "affected P (d_playlists (w_db w)) = 0" using P(1) by (auto simp: affected_0_iff)
    have "delete_where (\<lambda>pt. pt_playlist pt \<in> X) (d_ptracks (w_db w)) = d_ptracks (w_db w)"
      unfolding none(1) by (simp add: delete_where_def)
    with P(2,3) none(2) show ?thesis by (simp add: delete_where_none)
  qed
  then have ex: "exec_stmt e (del_playlist cast i owner) (w_db w) \<in> {(None, w_db w), (Some 0, w_db w)}" for e cast i owner
    by (auto simp: exec_stmt_def split: fault.splits option.splits prod.splits)
  obtain e x where pg: "svc_pg S (w_ext w) = (e, x)" by (cases "svc_pg S (w_ext w)")
  consider "exec_stmt e (del_playlist (svc_cast S) (param cx ''id'') (key_string cx ''user_id'')) (w_db w) = (None, w_db w)"
    | "exec_stmt e (del_playlist (svc_cast S) (param cx ''id'') (key_string cx ''user_id'')) (w_db w) = (Some 0, w_db w)"
    using ex by blast
  then show ?thesis
    using assms(2) pg by cases (auto simp: playlists_Delete_def Let_def run_sql split: if_splits)
qed

theorem playlist_delete_never_witness:
  "\<exists>r w'. run_state (playlists_Delete lab (lab_cx (lab_request ''DELETE'' ''/v1/playlists/:id''))) (lab_world empty_db) = (r, w') \<and>
     r \<noteq> Reply 204 NoBody \<and> w_db w' = empty_db"
proof -
  let ?m = "playlists_Delete lab (lab_cx (lab_request ''DELETE'' ''/v1/playlists/:id''))"
  obtain r w' where run: "run_state ?m (lab_world empty_db) = (r, w')" by (cases "run_state ?m (lab_world empty_db)")
  have "reachable (w_db (lab_world empty_db))" by (simp add: reachable_def)
  from playlist_delete_never [OF this run] run show ?thesis by auto
qed

section \<open>Recommendations without listeners\<close>

text \<open>
  C31. In every reachable state, a user's recommendations that do not come from the cache are empty:
  no play event names a user. The empty list is then cached and answered as such.
\<close>

theorem for_you_is_empty:
  assumes "reachable (w_db w)" and "key_string cx ''user_id'' \<noteq> ''''"
    and "decode_cached dec_search (fst (svc_cache_get S (w_ext w) (''recs:foryou:'' @ key_string cx ''user_id''))) = None"
  shows "fst (run_state (recs_ForYou S cx) w) \<in>
     {Reply 500 (JSON (apiError ''failed to fetch recommendations'')), Reply 200 (JSON (enc_search (response_of [])))}"
proof -
  have anon: "\<forall>p \<in> set (d_events (w_db w)). pe_user p = None"
    using reachable_tables_ok [OF assms(1)] by (simp add: tables_ok_def anonymous_plays_def)
  let ?uid = "key_string cx ''user_id''"
  obtain c x where c: "svc_cache_get S (w_ext w) (''recs:foryou:'' @ ?uid) = (c, x)"
    by (cases "svc_cache_get S (w_ext w) (''recs:foryou:'' @ ?uid)")
  obtain e x2 where pg: "svc_pg S x = (e, x2)" by (cases "svc_pg S x")
  have "query_rows e (sel_for_you (svc_cast S) ?uid) (w_db w) \<in> {None, Some []}"
    using sel_for_you_None_played [OF anon, of "svc_cast S" ?uid e]
    by (auto simp: query_rows_def split: option.splits)
  then show ?thesis
    using assms(2,3) c pg
    by (auto simp: recs_ForYou_def Let_def service_defs run_sql_query cache_and_send_def split: option.splits)
qed

theorem for_you_is_empty_witness:
  "fst (run_state (recs_ForYou lab (set_key ''user_id'' (JStr ''u'') (lab_cx (lab_request ''GET'' '''')))) (lab_world empty_db)) \<in>
     {Reply 500 (JSON (apiError ''failed to fetch recommendations'')), Reply 200 (JSON (enc_search (response_of [])))}"
  by (rule for_you_is_empty)
    (simp_all add: reachable_def set_key_def string_key_def decode_cached_def)

end
