(* ===== verification/Stack.thy ===== *)
theory Stack
  imports Lab
begin

text \<open>
  A request through the middleware stack of \<open>main\<close>, in terms of a run of its route's chain: the reply as
  it is sent, the headers, the samples of \<open>PrometheusMetrics\<close> and the line of \<open>ZapLogger\<close>.
\<close>

section \<open>Through the stack\<close>

text \<open>
  The reply as it is sent: the logger panics on a \<open>user_id\<close> that is not a string, and the recovery
  turns a panic before the answer into status 500.
\<close>

definition odd_user :: "outcome \<Rightarrow> bool" where
  "odd_user out = (case out_keys out ''user_id'' of None \<Rightarrow> False | Some (JStr _) \<Rightarrow> False | _ \<Rightarrow> True)"

definition sent :: "outcome \<Rightarrow> reply" where
  "sent out = recovered (if odd_user out \<and> \<not> panicking (out_reply out) then late_panic (out_reply out) else out_reply out)"

definition security_headers :: "string \<Rightarrow> (string \<times> string) list" where
  "security_headers ao =
     [(''X-Content-Type-Options'', ''nosniff''), (''X-Frame-Options'', ''DENY''),
      (''X-XSS-Protection'', ''1; mode=block''),
      (''Strict-Transport-Security'', ''max-age=31536000; includeSubDomains''),
      (''Content-Security-Policy'', buildCSP ao), (''Referrer-Policy'', ''strict-origin-when-cross-origin''),
      (''Permissions-Policy'', ''camera=(), microphone=(), geolocation=()'')]"

text \<open>Two worlds that agree on what requests act on.\<close>

definition same_state :: "'x world \<Rightarrow> 'x world \<Rightarrow> bool" where
  "same_state w w' \<longleftrightarrow> w_db w' = w_db w \<and> w_tasks w' = w_tasks w \<and> w_crashed w' = w_crashed w"

lemma same_state_refl [simp]: "same_state w w"
  by (simp add: same_state_def)

lemma same_state_trans: "same_state u v \<Longrightarrow> same_state v w \<Longrightarrow> same_state u w"
  by (simp add: same_state_def)

lemma same_state_ext [simp]: "same_state w (w'\<lparr>w_ext := x\<rparr>) = same_state w w'"
  "same_state (w\<lparr>w_ext := x\<rparr>) w' = same_state w w'"
  "same_state w (w'\<lparr>w_counts := c\<rparr>) = same_state w w'" "same_state w (w'\<lparr>w_log := l\<rparr>) = same_state w w'"
  by (simp_all add: same_state_def)

section \<open>The two middlewares\<close>

text \<open>What the request is filed under: \<open>c.FullPath()\<close>, or \<open>unknown\<close> where no route matched.\<close>

definition metric_path :: "request \<Rightarrow> string" where
  "metric_path rq = (if rq_route rq = '''' then ''unknown'' else rq_route rq)"

definition samples :: "request \<Rightarrow> reply \<Rightarrow> rat \<Rightarrow> metric list" where
  "samples rq r s = (if panicking r then []
     else [RequestDuration (rq_method rq) (metric_path rq) s,
           RequestsTotal (rq_method rq) (metric_path rq) (itoa (int (reply_status r)))])"

definition lines :: "(string \<times> string) list \<Rightarrow> outcome \<Rightarrow> (nat \<times> (string \<times> string) list) list" where
  "lines fs out = (if panicking (out_reply out) \<or> odd_user out then []
     else [(level_number (log_level (reply_status (out_reply out))), fs)])"

lemma run_SecurityHeaders:
  assumes "run_state (h cx) w = (out, w')"
  shows "run_state (SecurityHeaders ao h cx) w = (out\<lparr>out_headers := security_headers ao @ out_headers out\<rparr>, w')"
  using assms by (simp add: SecurityHeaders_def run_with_header security_headers_def)

lemma prometheus_samples:
  assumes "run_state (h cx) (w\<lparr>w_ext := x\<rparr>) = (out, w2)" and "svc_clock S (w_ext w) = (t, x)"
  obtains w3 s where "run_state (PrometheusMetrics S h cx) w = (out, w3)"
    "w_counts w3 = samples (cx_req cx) (out_reply out) s @ w_counts w2" "w_log w3 = w_log w2" "same_state w2 w3"
proof (cases "panicking (out_reply out)")
  case True
  with assms show thesis by (intro that [of w2]) (simp_all add: PrometheusMetrics_def samples_def)
next
  case False
  obtain now y where "svc_clock S (w_ext w2) = (now, y)" by (cases "svc_clock S (w_ext w2)")
  with False assms show thesis
    by (intro that [of "w2\<lparr>w_ext := y, w_counts := samples (cx_req cx) (out_reply out) (of_int (now - t) / 10 ^ 9) @ w_counts w2\<rparr>"
        "of_int (now - t) / 10 ^ 9"])
      (simp_all add: PrometheusMetrics_def Let_def samples_def metric_path_def)
qed

lemma zap_lines:
  assumes "run_state (h cx) (w\<lparr>w_ext := x\<rparr>) = (out, w2)" and "svc_clock S (w_ext w) = (t, x)"
  obtains w3 uid n where "run_state (ZapLogger S sp h cx) w =
      (out\<lparr>out_reply := (if odd_user out \<and> \<not> panicking (out_reply out) then late_panic (out_reply out) else out_reply out)\<rparr>, w3)"
    "w_log w3 = lines (log_fields (cx_req cx) (reply_status (out_reply out)) n (string_key (out_keys out) ''request_id'') uid (sp cx)) out
       @ w_log w2"
    "w_counts w3 = w_counts w2" "same_state w2 w3"
proof -
  obtain t' y where clock: "svc_clock S (w_ext w2) = (t', y)" by (cases "svc_clock S (w_ext w2)")
  show thesis
  proof (cases "panicking (out_reply out)")
    case True
    with assms show thesis by (intro that [of w2]) (simp_all add: ZapLogger_def lines_def)
  next
    case False
    show thesis
    proof (cases "out_keys out ''user_id''")
      case None
      with assms False clock show thesis
        by (simp add: ZapLogger_def Let_def odd_user_def lines_def that)
    next
      case (Some v)
      with assms False clock show thesis
        by (cases "v = JStr ''''"; cases v) (simp_all add: ZapLogger_def Let_def odd_user_def lines_def that)
    qed
  qed
qed

lemma run_RequestID:
  obtains i x where "run_state (RequestID S h cx) w =
      run_state (with_header HeaderRequestID i (h (set_key ''request_id'' (JStr i) cx))) (w\<lparr>w_ext := x\<rparr>)"
    "rq_header (cx_req cx) HeaderRequestID \<noteq> '''' \<Longrightarrow> i = rq_header (cx_req cx) HeaderRequestID"
proof (cases "rq_header (cx_req cx) HeaderRequestID = ''''")
  case True
  then show thesis
    by (cases "svc_uuid_new S (w_ext w)") (auto simp: RequestID_def intro: that)
next
  case False
  have "w\<lparr>w_ext := w_ext w\<rparr> = w" by simp
  with False show thesis
    by (intro that [of "rq_header (cx_req cx) HeaderRequestID" "w_ext w"]) (simp_all add: RequestID_def)
qed

text \<open>The context a chain of the group \<open>/v1\<close> starts in.\<close>

definition start_cx :: "request \<Rightarrow> string \<Rightarrow> gin_ctx" where
  "start_cx rq i = set_key ''request_id'' (JStr i) \<lparr>cx_req = rq, cx_keys = Map.empty\<rparr>"

lemma start_cx_req [simp]: "cx_req (start_cx rq i) = rq"
  by (simp add: start_cx_def set_key_def)

lemma start_cx_keys [simp]: "cx_keys (start_cx rq i) = [''request_id'' \<mapsto> JStr i]"
  by (simp add: start_cx_def set_key_def)

section \<open>The stack\<close>

lemma serve_run:
  assumes "engine_ok (sv_engine sv)" and "run_state (serve sv rq) w = (out, w')"
  obtains i w1 o' w2 s fs where
    "same_state w w1" "w_counts w1 = w_counts w" "w_log w1 = w_log w" "same_state w2 w'"
    "run_state (dispatch sv (start_cx rq i)) w1 = (o', w2)"
    "w_counts w' = samples rq (out_reply o') s @ w_counts w2" "w_log w' = lines fs o' @ w_log w2"
    "set [(''method'', rq_method rq), (''path'', rq_path rq), (''status'', itoa (int (reply_status (out_reply o'))))] \<subseteq> set fs"
    "out = o'\<lparr>out_reply := sent o', out_headers := (HeaderRequestID, i) # security_headers (sv_origins sv) @ out_headers o'\<rparr>"
    "rq_header rq HeaderRequestID \<noteq> '''' \<Longrightarrow> i = rq_header rq HeaderRequestID"
proof -
  let ?S = "sv_services sv" and ?E = "sv_engine sv" and ?ao = "sv_origins sv" and ?h = "dispatch sv"
  let ?z = "ZapLogger ?S (en_span ?E) (SecurityHeaders ?ao (PrometheusMetrics ?S ?h))"
  obtain i x where rid: "run_state (RequestID ?S ?z \<lparr>cx_req = rq, cx_keys = Map.empty\<rparr>) w =
      run_state (with_header HeaderRequestID i (?z (start_cx rq i))) (w\<lparr>w_ext := x\<rparr>)"
    "rq_header rq HeaderRequestID \<noteq> '''' \<Longrightarrow> i = rq_header rq HeaderRequestID"
    using run_RequestID [of ?S ?z "\<lparr>cx_req = rq, cx_keys = Map.empty\<rparr>" w] unfolding start_cx_def
    by (metis gin_ctx.select_convs(1))
  let ?cx = "start_cx rq i" and ?w = "w\<lparr>w_ext := x\<rparr>"
  obtain t1 x1 where c1: "svc_clock ?S (w_ext ?w) = (t1, x1)" by (cases "svc_clock ?S (w_ext ?w)")
  let ?wa = "?w\<lparr>w_ext := x1\<rparr>"
  obtain t2 x2 where c2: "svc_clock ?S (w_ext ?wa) = (t2, x2)" by (cases "svc_clock ?S (w_ext ?wa)")
  obtain o' w2 where h: "run_state (?h ?cx) (?wa\<lparr>w_ext := x2\<rparr>) = (o', w2)" by (cases "run_state (?h ?cx) (?wa\<lparr>w_ext := x2\<rparr>)")
  obtain w3 s where p: "run_state (PrometheusMetrics ?S ?h ?cx) ?wa = (o', w3)"
    "w_counts w3 = samples rq (out_reply o') s @ w_counts w2" "w_log w3 = w_log w2" "same_state w2 w3"
    using prometheus_samples [where h = ?h and cx = ?cx and w = ?wa and x = x2, OF h c2] by (metis start_cx_req)
  let ?o = "o'\<lparr>out_headers := security_headers ?ao @ out_headers o'\<rparr>"
  obtain w4 uid n where z: "run_state (?z ?cx) ?w =
      (?o\<lparr>out_reply := (if odd_user ?o \<and> \<not> panicking (out_reply ?o) then late_panic (out_reply ?o) else out_reply ?o)\<rparr>, w4)"
    "w_log w4 = lines (log_fields rq (reply_status (out_reply ?o)) n (string_key (out_keys ?o) ''request_id'') uid (en_span ?E ?cx)) ?o @ w_log w3"
    "w_counts w4 = w_counts w3" "same_state w3 w4"
    using zap_lines [where h = "SecurityHeaders ?ao (PrometheusMetrics ?S ?h)" and cx = ?cx and w = ?w and x = x1 and sp = "en_span ?E",
        OF run_SecurityHeaders [where h = "PrometheusMetrics ?S ?h" and cx = ?cx, OF p(1)] c1] by (metis start_cx_req)
  have "w' = w4" "out = o'\<lparr>out_reply := sent o', out_headers := (HeaderRequestID, i) # security_headers ?ao @ out_headers o'\<rparr>"
    using assms rid(1) z(1) by (auto simp: serve_def stack_def engine_ok_def run_with_header sent_def odd_user_def)
  with z(2-4) p(2-4) h rid(2) same_state_trans [OF p(4) z(4)] show thesis
    by (intro that [of "?wa\<lparr>w_ext := x2\<rparr>" w2 i o' s
          "log_fields rq (reply_status (out_reply o')) n (string_key (out_keys o') ''request_id'') uid (en_span ?E ?cx)"])
      (simp_all add: lines_def odd_user_def log_fields_def)
qed

end
