(* ===== verification/Access.thy ===== *)
theory Access
  imports Stack
begin

text \<open>
  Who may do what: the middleware stack and the route groups put together. What a request through
  the whole server leaves in the tables, in the list of started goroutines, in the headers and
  in the reply, in terms of the chain of its route.
\<close>

section \<open>Requests to the groups\<close>

lemma find_route:
  assumes "((rq_method rq, rq_route rq), h) \<in> set (routes sv)" and "cx_req cx = rq"
  shows "dispatch sv cx = h cx"
  using route_eq [OF assms(1)] assms(2) by (simp add: dispatch_def)

lemma v1_route: "(k, h) \<in> set (v1_routes sv) \<Longrightarrow> (k, AuditLog h) \<in> set (routes sv)"
  by (force simp: routes_def on_routes_def)

lemma protected_route:
  "(k, h) \<in> set (protected_routes sv) \<Longrightarrow> (k, requireAuth sv (finish h)) \<in> set (v1_routes sv)"
  "(k, h) \<in> set (admin_routes sv) \<Longrightarrow> (k, requireAuth sv (RequireRole ''admin'' (finish h))) \<in> set (v1_routes sv)"
  "(k, h) \<in> set (public_routes sv) \<Longrightarrow> (k, finish h) \<in> set (v1_routes sv)"
  by (force simp: v1_routes_def on_routes_def)+

text \<open>What the audit middleware adds to a chain: nothing for a read, one task otherwise.\<close>

definition audit_task :: "gin_ctx \<Rightarrow> outcome \<Rightarrow> string \<Rightarrow> task" where
  "audit_task cx out action = (let p = parseResource (rq_route (cx_req cx)) (rq_param (cx_req cx)) in
     Write_audit (nullableStr (string_key (out_keys out) ''user_id'')) action (fst p) (nullableStr (snd p))
       (nullableStr (string_key (out_keys out) ''request_id'')))"

lemma run_AuditLog:
  assumes "run_state (h cx) w = (out, w')"
  shows "run_state (AuditLog h cx) w =
    (if rq_method (cx_req cx) \<in> {''GET'', ''HEAD'', ''OPTIONS''} \<or> panicking (out_reply out) then (out, w')
     else case buildAction (rq_method (cx_req cx)) (rq_route (cx_req cx)) of
        None \<Rightarrow> (out\<lparr>out_reply := late_panic (out_reply out)\<rparr>, w')
      | Some action \<Rightarrow> (out, w'\<lparr>w_tasks := w_tasks w' @ [audit_task cx out action]\<rparr>))"
  using assms by (auto simp: AuditLog_def Let_def audit_task_def split: option.splits prod.splits)

text \<open>The actions of the registered routes: none of them makes \<open>buildAction\<close> panic.\<close>

definition audited_actions :: "'x server \<Rightarrow> ((string \<times> string) \<times> string option) list" where
  "audited_actions sv = map (\<lambda>k. (k, buildAction (fst k) (snd k)))
     (filter (\<lambda>k. fst k \<noteq> ''GET'') (map fst (v1_routes sv)))"

lemma audited_actions_table: "audited_actions sv =
  [((''POST'', ''/v1/auth/login''), Some ''auth.login''),
   ((''POST'', ''/v1/auth/register''), Some ''auth.register''),
   ((''DELETE'', ''/v1/me''), Some ''delete.me''),
   ((''POST'', ''/v1/artists''), Some ''artist.create''),
   ((''POST'', ''/v1/tracks''), Some ''track.create''),
   ((''POST'', ''/v1/playlists''), Some ''playlist.create''),
   ((''DELETE'', ''/v1/playlists/:id''), Some ''playlist.delete''),
   ((''POST'', ''/v1/playlists/:id/tracks''), Some ''playlist.track.add''),
   ((''DELETE'', ''/v1/playlists/:id/tracks/:track_id''), Some ''playlist.track.remove''),
   ((''POST'', ''/v1/favorites''), Some ''favorite.create''),
   ((''DELETE'', ''/v1/favorites/:track_id''), Some ''favorite.delete''),
   ((''DELETE'', ''/v1/admin/users/:id''), Some ''delete.admin.users.:id'')]"
  by (simp add: audited_actions_def v1_routes_def public_routes_def protected_routes_def admin_routes_def Let_def)
    (simp add: buildAction_def singular_def trim_prefix_def has_prefix_def to_lower_def lower_char_def
      replace_char_def Let_def, code_simp)

lemma action_exists:
  assumes "((m, r), h) \<in> set (v1_routes sv)" and "m \<noteq> ''GET''"
  obtains action where "buildAction m r = Some action"
proof -
  have "((m, r), buildAction m r) \<in> set (audited_actions sv)"
    using assms by (force simp: audited_actions_def)
  then show thesis using that unfolding audited_actions_table by auto
qed

lemma v1_methods: "list_all (\<lambda>k. fst k \<in> {''GET'', ''POST'', ''DELETE''}) (map fst (v1_routes sv))"
  by (simp add: v1_routes_def public_routes_def protected_routes_def admin_routes_def Let_def)

lemma v1_method: "((m, r), h) \<in> set (v1_routes sv) \<Longrightarrow> m \<in> {''GET'', ''POST'', ''DELETE''}"
  using v1_methods [of sv] unfolding list_all_iff by force

lemma serve_v1:
  assumes "engine_ok (sv_engine sv)" and "((rq_method rq, rq_route rq), h) \<in> set (v1_routes sv)"
    and "run_state (serve sv rq) w = (out, w')"
  obtains i w1 o' w2 where "same_state w w1" "run_state (h (start_cx rq i)) w1 = (o', w2)"
    "w_db w' = w_db w2" "out_reply out = sent o'"
    "rq_method rq = ''GET'' \<or> panicking (out_reply o') \<Longrightarrow> w_tasks w' = w_tasks w2"
    "rq_method rq \<noteq> ''GET'' \<and> \<not> panicking (out_reply o') \<Longrightarrow> \<exists>action.
       buildAction (rq_method rq) (rq_route rq) = Some action \<and>
       w_tasks w' = w_tasks w2 @ [audit_task (start_cx rq i) o' action]"
    "w_crashed w' = w_crashed w2"
proof -
  obtain i w1 o1 w2 s fs where r: "same_state w w1" "run_state (dispatch sv (start_cx rq i)) w1 = (o1, w2)"
    "same_state w2 w'" "out = o1\<lparr>out_reply := sent o1,
       out_headers := (HeaderRequestID, i) # security_headers (sv_origins sv) @ out_headers o1\<rparr>"
    by (rule serve_run [OF assms(1,3)])
  have "dispatch sv (start_cx rq i) = AuditLog h (start_cx rq i)"
    by (rule find_route [where rq = rq]) (use assms(2) v1_route in auto)
  with r(2) have a: "run_state (AuditLog h (start_cx rq i)) w1 = (o1, w2)" by simp
  obtain o' wh where h: "run_state (h (start_cx rq i)) w1 = (o', wh)" by (cases "run_state (h (start_cx rq i)) w1")
  have out: "out_reply out = sent o1" "w_db w' = w_db w2" "w_tasks w' = w_tasks w2" "w_crashed w' = w_crashed w2"
    using r(3,4) by (auto simp: same_state_def)
  have ro: "rq_method rq \<noteq> ''HEAD''" "rq_method rq \<noteq> ''OPTIONS''"
    using v1_method [OF assms(2)] by auto
  show thesis
  proof (cases "rq_method rq = ''GET'' \<or> panicking (out_reply o')")
    case True
    with a run_AuditLog [where h = h and cx = "start_cx rq i", OF h] ro have "o1 = o'" "w2 = wh" by auto
    with True out r(1) h show thesis by (intro that [of w1 i o' wh]) auto
  next
    case False
    then obtain action where act: "buildAction (rq_method rq) (rq_route rq) = Some action"
      using action_exists [OF assms(2)] by blast
    with False a run_AuditLog [where h = h and cx = "start_cx rq i", OF h] ro
    have "o1 = o'" "w2 = wh\<lparr>w_tasks := w_tasks wh @ [audit_task (start_cx rq i) o' action]\<rparr>" by auto
    with False out r(1) h act show thesis by (intro that [of w1 i o' wh]) auto
  qed
qed

section \<open>Tokens\<close>

lemma RequireAuth_rejects:
  assumes "jwt_sound C verified" and "\<forall>now. \<not> verified now (extractToken (cx_req cx)) secret"
  shows "\<exists>msg w'. run_state (RequireAuth S C secret nxt cx) w =
     (\<lparr>out_headers = [], out_reply = Reply 401 (JSON (apiError msg)), out_keys = cx_keys cx\<rparr>, w') \<and> same_state w w'"
proof (cases "extractToken (cx_req cx) = ''''")
  case True
  then show ?thesis by (auto simp: RequireAuth_def Let_def)
next
  case False
  obtain now x where t: "svc_clock S (w_ext w) = (now, x)" by (cases "svc_clock S (w_ext w)")
  obtain c err where p: "parseToken C now (extractToken (cx_req cx)) secret = (c, err)"
    by (cases "parseToken C now (extractToken (cx_req cx)) secret")
  have err using parseToken_verified [OF assms(1), of now "extractToken (cx_req cx)" secret c] p assms(2)
    by (cases err) auto
  with False t p show ?thesis by (auto simp: RequireAuth_def Let_def)
qed

lemma RequireAuth_cases:
  obtains (rejected) msg w' where "run_state (RequireAuth S C secret nxt cx) w =
      (\<lparr>out_headers = [], out_reply = Reply 401 (JSON (apiError msg)), out_keys = cx_keys cx\<rparr>, w')" "same_state w w'"
  | (accepted) now c w' where "parseToken C now (extractToken (cx_req cx)) secret = (c, False)" "same_state w w'"
      "run_state (RequireAuth S C secret nxt cx) w = run_state (nxt (set_identity c cx)) w'"
proof (cases "extractToken (cx_req cx) = ''''")
  case True
  then show thesis by (intro rejected) (auto simp: RequireAuth_def Let_def)
next
  case False
  obtain now x where t: "svc_clock S (w_ext w) = (now, x)" by (cases "svc_clock S (w_ext w)")
  obtain c err where p: "parseToken C now (extractToken (cx_req cx)) secret = (c, err)"
    by (cases "parseToken C now (extractToken (cx_req cx)) secret")
  show thesis
  proof (cases err)
    case True
    with False t p show thesis by (intro rejected) (auto simp: RequireAuth_def Let_def)
  next
    case False
    with \<open>extractToken (cx_req cx) \<noteq> ''''\<close> t p show thesis
      by (intro accepted) (auto simp: RequireAuth_def Let_def)
  qed
qed

lemma sent_plain: "out_keys out = [''request_id'' \<mapsto> JStr i] \<Longrightarrow> out_reply out = Reply n b \<Longrightarrow> sent out = Reply n b"
  by (simp add: sent_def odd_user_def recovered_def)

text \<open>A reply with a body reaches the client whatever the logger does afterwards.\<close>

lemma sent_body: "out_reply out = Reply n b \<Longrightarrow> b \<noteq> NoBody \<Longrightarrow> sent out = Reply n b"
  by (simp add: sent_def late_panic_def recovered_def panicking_def)

text \<open>
  C6. Without a token that verifies under the server's secret at some instant, every route of the
  protected and the admin groups answers 401, changes no table and, for a read, starts no goroutine.
\<close>

theorem protected_needs_token:
  assumes "engine_ok (sv_engine sv)" and "jwt_sound (sv_crypto sv) verified"
    and "((rq_method rq, rq_route rq), h) \<in> set (protected_routes sv @ admin_routes sv)"
    and "\<forall>now. \<not> verified now (extractToken rq) (sv_secret sv)"
    and "run_state (serve sv rq) w = (out, w')"
  shows "(\<exists>msg. out_reply out = Reply 401 (JSON (apiError msg))) \<and> w_db w' = w_db w \<and>
     (rq_method rq = ''GET'' \<longrightarrow> w_tasks w' = w_tasks w)"
proof -
  obtain nxt where "((rq_method rq, rq_route rq), requireAuth sv nxt) \<in> set (v1_routes sv)"
    using assms(3) protected_route by (metis UnE set_append)
  then obtain i w1 o' w2 where r: "same_state w w1" "run_state (requireAuth sv nxt (start_cx rq i)) w1 = (o', w2)"
    "w_db w' = w_db w2" "out_reply out = sent o'" "rq_method rq = ''GET'' \<or> panicking (out_reply o') \<Longrightarrow> w_tasks w' = w_tasks w2"
    using serve_v1 [OF assms(1) _ assms(5)] by metis
  obtain msg where "o' = \<lparr>out_headers = [], out_reply = Reply 401 (JSON (apiError msg)), out_keys = cx_keys (start_cx rq i)\<rparr>"
      "same_state w1 w2"
    using RequireAuth_rejects [OF assms(2), of "start_cx rq i" "sv_secret sv" "sv_services sv" nxt w1] assms(4) r(2)
    by (auto simp: requireAuth_def)
  with r show ?thesis by (auto simp: same_state_def sent_body)
qed

theorem protected_needs_token_witness:
  "\<exists>out w'. run_state (serve lab_server (lab_request ''GET'' ''/v1/auth/me'')) (lab_world lab_db) = (out, w') \<and>
     (\<exists>msg. out_reply out = Reply 401 (JSON (apiError msg))) \<and> w_db w' = lab_db"
proof -
  let ?rq = "lab_request ''GET'' ''/v1/auth/me''"
  obtain out w' where run: "run_state (serve lab_server ?rq) (lab_world lab_db) = (out, w')"
    by (cases "run_state (serve lab_server ?rq) (lab_world lab_db)")
  have route: "((rq_method ?rq, rq_route ?rq), auth_Me lab) \<in> set (protected_routes lab_server @ admin_routes lab_server)"
    by (simp add: protected_routes_def lab_request_def lab_server_def Let_def)
  have tok: "\<forall>now. \<not> lab_verified now (extractToken ?rq) (sv_secret lab_server)"
    by (simp add: lab_verified_def extractToken_def lab_request_def has_prefix_def Let_def)
  have "engine_ok (sv_engine lab_server)" "jwt_sound (sv_crypto lab_server) lab_verified"
    using lab_jwt_sound by (simp_all add: lab_server_def)
  from protected_needs_token [OF this route tok run] run show ?thesis
    by (auto simp: lab_world_def)
qed

text \<open>
  C7. Unless some clock reading makes the token's claims carry the role \<open>admin\<close>, every admin route
  answers 401 or 403 and changes no table: users cannot be erased or listed by anybody else.
\<close>

theorem admin_needs_role:
  assumes "engine_ok (sv_engine sv)"
    and "((rq_method rq, rq_route rq), h) \<in> set (admin_routes sv)"
    and "\<forall>now c. parseToken (sv_crypto sv) now (extractToken rq) (sv_secret sv) = (c, False) \<longrightarrow>
       claim c ''role'' \<noteq> JStr ''admin''"
    and "run_state (serve sv rq) w = (out, w')"
  shows "(\<exists>n msg. n \<in> {401, 403} \<and> out_reply out = Reply n (JSON (apiError msg))) \<and> w_db w' = w_db w"
proof -
  let ?h = "RequireRole ''admin'' (finish h)"
  obtain i w1 o' w2 where r: "same_state w w1" "run_state (requireAuth sv ?h (start_cx rq i)) w1 = (o', w2)"
    "w_db w' = w_db w2" "out_reply out = sent o'"
    using serve_v1 [OF assms(1) protected_route(2) [OF assms(2)] assms(4)] by metis
  show ?thesis
  proof (cases rule: RequireAuth_cases [where S = "sv_services sv" and C = "sv_crypto sv" and secret = "sv_secret sv"
        and nxt = ?h and cx = "start_cx rq i" and w = w1])
    case (rejected msg w3)
    with r show ?thesis by (auto simp: requireAuth_def same_state_def sent_body)
  next
    case (accepted now c w3)
    then have "claim c ''role'' \<noteq> JStr ''admin''" using assms(3) by auto
    then have "run_state (?h (set_identity c (start_cx rq i))) w3 =
        (\<lparr>out_headers = [], out_reply = Reply 403 (JSON (apiError ''forbidden'')),
          out_keys = cx_keys (set_identity c (start_cx rq i))\<rparr>, w3)"
      by (simp add: RequireRole_def)
    with accepted r show ?thesis by (auto simp: requireAuth_def same_state_def sent_body)
  qed
qed

theorem admin_needs_role_witness:
  "\<exists>out w'. run_state (serve lab_server (lab_request ''GET'' ''/v1/admin/users'')) (lab_world lab_db) = (out, w') \<and>
     (\<exists>n msg. n \<in> {401, 403} \<and> out_reply out = Reply n (JSON (apiError msg))) \<and> w_db w' = lab_db"
proof -
  let ?rq = "lab_request ''GET'' ''/v1/admin/users''"
  obtain out w' where run: "run_state (serve lab_server ?rq) (lab_world lab_db) = (out, w')"
    by (cases "run_state (serve lab_server ?rq) (lab_world lab_db)")
  have route: "((rq_method ?rq, rq_route ?rq), \<lambda>_. admin_ListUsers lab) \<in> set (admin_routes lab_server)"
    by (simp add: admin_routes_def lab_request_def lab_server_def Let_def)
  have tok: "\<forall>now c. parseToken (sv_crypto lab_server) now (extractToken ?rq) (sv_secret lab_server) = (c, False) \<longrightarrow>
      claim c ''role'' \<noteq> JStr ''admin''"
    by (simp add: extractToken_def lab_request_def has_prefix_def parseToken_def lab_server_def lab_crypto_def)
  have "engine_ok (sv_engine lab_server)" by (simp add: lab_server_def)
  from admin_needs_role [OF this route tok run] run show ?thesis
    by (auto simp: lab_world_def)
qed

text \<open>
  C28. Every answer of the server, whatever the route, the failures of the services or a panic in a
  handler, carries the security headers and a request id, which is the client's when it sent one;
  and no panic reaches the client.
\<close>

theorem every_answer_is_guarded:
  assumes "engine_ok (sv_engine sv)" and "run_state (serve sv rq) w = (out, w')"
  shows "set (security_headers (sv_origins sv)) \<subseteq> set (out_headers out) \<and>
     (\<exists>i. (HeaderRequestID, i) \<in> set (out_headers out) \<and>
        (rq_header rq HeaderRequestID \<noteq> '''' \<longrightarrow> i = rq_header rq HeaderRequestID)) \<and>
     \<not> panicking (out_reply out)"
proof -
  obtain i o' where "out = o'\<lparr>out_reply := sent o',
       out_headers := (HeaderRequestID, i) # security_headers (sv_origins sv) @ out_headers o'\<rparr>"
    "rq_header rq HeaderRequestID \<noteq> '''' \<Longrightarrow> i = rq_header rq HeaderRequestID"
    by (rule serve_run [OF assms]) blast
  then show ?thesis
    by (auto simp: sent_def recovered_def panicking_def split: reply.splits)
qed

theorem every_answer_is_guarded_witness:
  "\<exists>out w'. run_state (serve lab_server (lab_request ''GET'' '''')) (lab_world lab_db) = (out, w') \<and>
     set (security_headers '''') \<subseteq> set (out_headers out) \<and> \<not> panicking (out_reply out)"
proof -
  obtain out w' where run: "run_state (serve lab_server (lab_request ''GET'' '''')) (lab_world lab_db) = (out, w')"
    by (cases "run_state (serve lab_server (lab_request ''GET'' '''')) (lab_world lab_db)")
  have "engine_ok (sv_engine lab_server)" "sv_origins lab_server = ''''" by (simp_all add: lab_server_def)
  with every_answer_is_guarded [OF _ run] run show ?thesis by auto
qed

text \<open>
  What the goroutine of an audit record does when it runs in \<^term>\<open>v\<close>: it appends one row with the user, the
  action, the resource and the request id it was started with, and with the address, the agent and the
  status that gin's context holds by then; or it changes nothing, and then the statement was refused, a
  value did not convert, the status is no \<open>SMALLINT\<close>, the user is gone or the generated id is taken.
\<close>

definition audit_written :: "'x services \<Rightarrow> task \<Rightarrow> 'x world \<Rightarrow> 'x world \<Rightarrow> bool" where
  "audit_written S t v v' = (case t of
      Publish_play i \<Rightarrow> False
    | Write_audit uid action rtype rid rqid \<Rightarrow>
        (case svc_late S (w_ext v) of (c, x) \<Rightarrow> (case svc_pg S x of (e, _) \<Rightarrow>
          (\<exists>a. w_db v' = (w_db v)\<lparr>d_audits := d_audits (w_db v) @ [a]\<rparr> \<and>
              cast_opt (svc_cast S) uid = Some (au_user a) \<and> au_action a = action \<and> au_rtype a = Some rtype \<and>
              cast_opt (svc_cast S) rid = Some (au_rid a) \<and> au_request a = rqid \<and>
              svc_cast_inet S (lc_ip c) = Some (au_ip a) \<and> au_agent a = lc_agent c \<and> au_status a = lc_status c) \<or>
          w_db v' = w_db v \<and> (e_fault e = Refused \<or> cast_opt (svc_cast S) uid = None \<or> cast_opt (svc_cast S) rid = None \<or>
              svc_cast_inet S (lc_ip c) = None \<or> \<not> int16 (lc_status c) \<or>
              (\<exists>u. cast_opt (svc_cast S) uid = Some (Some u) \<and> u \<notin> user_ids (w_db v)) \<or>
              e_id e \<in> au_id ` set (d_audits (w_db v))))))"

lemma run_write_audit:
  "audit_written (sv_services sv) (Write_audit uid action rtype rid rqid) v
     (snd (run_state (run_task sv (Write_audit uid action rtype rid rqid)) v))"
proof -
  let ?S = "sv_services sv"
  obtain c x where c: "svc_late ?S (w_ext v) = (c, x)" by fastforce
  obtain e y where e: "svc_pg ?S x = (e, y)" by fastforce
  obtain r d where r: "exec_stmt e (ins_audit (svc_cast ?S) (svc_cast_inet ?S) uid action rtype rid (lc_ip c) (lc_agent c)
      (lc_status c) rqid) (w_db v) = (r, d)" by fastforce
  have run: "w_db (snd (run_state (run_task sv (Write_audit uid action rtype rid rqid)) v)) = d"
    using c e r by (simp add: run_task_def write_audit_def run_sql)
  show ?thesis
    using r unfolding audit_written_def run
    by (simp add: c e exec_stmt_def ins_audit_def insert_row_def Let_def split: fault.splits option.splits if_splits)
      auto
qed

text \<open>
  C23. A write to a route of \<open>/v1\<close> whose chain does not panic starts exactly one goroutine for its audit
  record, after whatever the chain itself started. Whenever that goroutine runs, it appends one row with
  the user the token named, the action of the route, the resource and the request id, or the database
  refuses the row; the address, the agent and the status of the row are those of whatever request gin's
  context serves by then. The action exists for every registered route.
\<close>

theorem writes_are_audited:
  assumes "((rq_method (cx_req cx), rq_route (cx_req cx)), h) \<in> set (v1_routes sv)"
    and "rq_method (cx_req cx) \<noteq> ''GET''"
    and "run_state (h cx) w = (out, w')" and "\<not> panicking (out_reply out)"
  shows "\<exists>action. buildAction (rq_method (cx_req cx)) (rq_route (cx_req cx)) = Some action \<and>
     run_state (AuditLog h cx) w = (out, w'\<lparr>w_tasks := w_tasks w' @ [audit_task cx out action]\<rparr>) \<and>
     (\<forall>v. audit_written (sv_services sv) (audit_task cx out action) v
        (snd (run_state (run_task sv (audit_task cx out action)) v)))"
proof -
  obtain action where act: "buildAction (rq_method (cx_req cx)) (rq_route (cx_req cx)) = Some action"
    using action_exists [OF assms(1,2)] .
  have "rq_method (cx_req cx) \<noteq> ''HEAD''" "rq_method (cx_req cx) \<noteq> ''OPTIONS''"
    using v1_method [OF assms(1)] by auto
  moreover have "audit_written (sv_services sv) (audit_task cx out action) v
      (snd (run_state (run_task sv (audit_task cx out action)) v))" for v
    unfolding audit_task_def Let_def by (rule run_write_audit)
  ultimately show ?thesis
    using act run_AuditLog [where h = h and cx = cx, OF assms(3)] assms(2,4) by auto
qed

text \<open>The row of a rejected registration: its goroutine ran in the context of a request answered 404.\<close>

theorem writes_are_audited_witness:
  "\<exists>w' a. w_tasks (snd (run_state (AuditLog (finish (auth_Register lab lab_crypto ''k'')) (lab_cx (lab_request ''POST'' ''/v1/auth/register'')))
       (lab_world lab_db))) = [Write_audit None ''auth.register'' ''user'' None None] \<and>
     run_state (run_task lab_server (Write_audit None ''auth.register'' ''user'' None None)) (lab_world lab_db) = ((), w') \<and>
     d_audits (w_db w') = [a] \<and> au_action a = ''auth.register'' \<and> au_status a = 404 \<and> au_ip a = ''10.0.0.2''"
proof -
  let ?cx = "lab_cx (lab_request ''POST'' ''/v1/auth/register'')"
  let ?h = "finish (auth_Register lab lab_crypto ''k'')"
  let ?o = "\<lparr>out_headers = [], out_reply = Reply 400 (JSON (apiError ''invalid body'')), out_keys = Map.empty\<rparr>"
  let ?t = "Write_audit None ''auth.register'' ''user'' None None"
  have route: "((rq_method (cx_req ?cx), rq_route (cx_req ?cx)), ?h) \<in> set (v1_routes lab_server)"
    by (simp add: v1_routes_def public_routes_def on_routes_def lab_cx_def lab_request_def lab_server_def Let_def)
  have run: "run_state (?h ?cx) (lab_world lab_db) = (?o, lab_world lab_db)"
    by (simp add: finish_def auth_Register_def bind_register_def lab_cx_def lab_request_def)
  have m: "rq_method (cx_req ?cx) \<noteq> ''GET''" by (simp add: lab_cx_def lab_request_def)
  have np: "\<not> panicking (out_reply ?o)" by (simp add: panicking_def)
  have act: "buildAction ''POST'' ''/v1/auth/register'' = Some ''auth.register''"
    by (simp add: buildAction_def trim_prefix_def has_prefix_def Let_def)
  have task: "audit_task ?cx ?o action = Write_audit None action ''user'' None None" for action
    by (simp add: audit_task_def parseResource_def lab_cx_def lab_request_def trim_prefix_def has_prefix_def
        nullableStr_def string_key_def Let_def)
  obtain w' where w': "run_state (run_task lab_server ?t) (lab_world lab_db) = ((), w')"
    by (cases "run_state (run_task lab_server ?t) (lab_world lab_db)") simp
  have at: "rq_method (cx_req ?cx) = ''POST''" "rq_route (cx_req ?cx) = ''/v1/auth/register''"
    by (simp_all add: lab_cx_def lab_request_def)
  have audited: "run_state (AuditLog ?h ?cx) (lab_world lab_db) =
      (?o, (lab_world lab_db)\<lparr>w_tasks := w_tasks (lab_world lab_db) @ [?t]\<rparr>) \<and>
      (\<forall>v. audit_written (sv_services lab_server) ?t v (snd (run_state (run_task lab_server ?t) v)))"
    using writes_are_audited [where h = ?h, OF route m run np] unfolding at act task by blast
  then have "w_tasks (snd (run_state (AuditLog ?h ?cx) (lab_world lab_db))) = [?t]" by simp
  moreover have "audit_written lab ?t (lab_world lab_db) w'"
    using spec [OF conjunct2 [OF audited], of "lab_world lab_db"] w' by (simp add: lab_server_def)
  ultimately show ?thesis
    using w' by (auto simp: audit_written_def cast_opt_def lab_late_def int16_def lab_db_def empty_db_def)
qed

text \<open>
  The action recorded for each registered write. The erasure of one's own account is recorded as
  \<open>delete.me\<close>: the case of \<open>buildAction\<close> for it expects another path.
\<close>

theorem recorded_actions:
  "map snd (audited_actions sv) = map Some
     [''auth.login'', ''auth.register'', ''delete.me'', ''artist.create'', ''track.create'', ''playlist.create'',
      ''playlist.delete'', ''playlist.track.add'', ''playlist.track.remove'', ''favorite.create'',
      ''favorite.delete'', ''delete.admin.users.:id'']"
  by (simp add: audited_actions_table)

end
