(* ===== verification/Monitoring.thy ===== *)
theory Monitoring
  imports Access
begin

text \<open>
  What the operators see of a request: the samples and the log line that a run of the whole stack adds to
  what the request's own chain has counted and logged.
\<close>

section \<open>Results\<close>

text \<open>
  C29. A request whose chain does not panic is counted once and timed once, under its method, its route and
  the status its chain answered. If its key \<open>user_id\<close> is absent or a string, it is logged in one line with
  its method, its path and that status, at the status's level, and the client gets the answer that was
  counted. Otherwise (a token without the claim) the logger panics: no line is written, and the client
  gets the answer only if its body had been written, else 500. A request whose chain panics is answered
  500, or what it had already written, and leaves neither sample nor line.
\<close>

theorem requests_are_observed:
  assumes "engine_ok (sv_engine sv)" and "run_state (serve sv rq) w = (out, w')"
  shows "\<exists>i w1 o' w2. run_state (dispatch sv (start_cx rq i)) w1 = (o', w2) \<and> same_state w w1 \<and>
     w_counts w1 = w_counts w \<and> w_log w1 = w_log w \<and>
     (if panicking (out_reply o') then w_counts w' = w_counts w2 \<and> w_log w' = w_log w2 \<and>
        out_reply out = recovered (out_reply o')
      else let n = reply_status (out_reply o') in
        (\<exists>s. w_counts w' = [RequestDuration (rq_method rq) (metric_path rq) s,
           RequestsTotal (rq_method rq) (metric_path rq) (itoa (int n))] @ w_counts w2) \<and>
        (if odd_user o' then w_log w' = w_log w2 \<and> out_reply out = recovered (late_panic (out_reply o'))
         else out_reply out = out_reply o' \<and>
           (\<exists>fs. w_log w' = (level_number (log_level n), fs) # w_log w2 \<and>
              {(''method'', rq_method rq), (''path'', rq_path rq), (''status'', itoa (int n))} \<subseteq> set fs)))"
proof -
  obtain i w1 o' w2 s fs where r: "same_state w w1" "w_counts w1 = w_counts w" "w_log w1 = w_log w"
    "run_state (dispatch sv (start_cx rq i)) w1 = (o', w2)"
    "w_counts w' = samples rq (out_reply o') s @ w_counts w2" "w_log w' = lines fs o' @ w_log w2"
    "{(''method'', rq_method rq), (''path'', rq_path rq), (''status'', itoa (int (reply_status (out_reply o'))))} \<subseteq> set fs"
    "out_reply out = sent o'"
    by (rule serve_run [OF assms]) auto
  then show ?thesis
    by (intro exI [of _ i] exI [of _ w1] exI [of _ o'] exI [of _ w2])
      (auto simp: samples_def lines_def Let_def sent_def recovered_def panicking_def split: reply.splits)
qed

theorem requests_are_observed_witness:
  "\<exists>out w' s fs. run_state (serve lab_server (lab_request ''GET'' ''/health'')) (lab_world lab_db) = (out, w') \<and>
     w_counts w' = [RequestDuration ''GET'' ''/health'' s, RequestsTotal ''GET'' ''/health'' ''200''] \<and>
     w_log w' = [(level_number InfoLevel, fs)] \<and>
     {(''method'', ''GET''), (''path'', ''/health''), (''status'', ''200'')} \<subseteq> set fs"
proof -
  let ?rq = "lab_request ''GET'' ''/health''"
  have rq: "rq_method ?rq = ''GET''" "rq_path ?rq = ''/health''" "metric_path ?rq = ''/health''" "w_counts (lab_world lab_db) = []" "w_log (lab_world lab_db) = []"
    by (simp_all add: lab_request_def metric_path_def lab_world_def)
  obtain out w' where run: "run_state (serve lab_server ?rq) (lab_world lab_db) = (out, w')" by fastforce
  obtain i w1 o' w2 where r: "run_state (dispatch lab_server (start_cx ?rq i)) w1 = (o', w2)"
    "w_counts w1 = []" "w_log w1 = []"
    "if panicking (out_reply o') then w_counts w' = w_counts w2 \<and> w_log w' = w_log w2 \<and>
        out_reply out = recovered (out_reply o')
      else let n = reply_status (out_reply o') in
        (\<exists>s. w_counts w' = [RequestDuration ''GET'' ''/health'' s, RequestsTotal ''GET'' ''/health'' (itoa (int n))] @ w_counts w2) \<and>
        (if odd_user o' then w_log w' = w_log w2 \<and> out_reply out = recovered (late_panic (out_reply o'))
         else out_reply out = out_reply o' \<and>
           (\<exists>fs. w_log w' = (level_number (log_level n), fs) # w_log w2 \<and>
              {(''method'', ''GET''), (''path'', ''/health''), (''status'', itoa (int n))} \<subseteq> set fs))"
    using requests_are_observed [OF lab_engine_of run, unfolded rq] by (elim exE conjE)
  have "dispatch lab_server (start_cx ?rq i) = finish health (start_cx ?rq i)"
    by (rule find_route [where rq = ?rq]) (simp_all add: routes_def lab_request_def)
  with r(1) have "w2 = w1" "out_reply o' = Reply 200 (JSON (status_json ''ok''))" "\<not> odd_user o'"
    by (auto simp: finish_def health_def odd_user_def ok_json_def start_cx_def set_key_def)
  moreover have "itoa 200 = ''200''" by code_simp
  ultimately show ?thesis using r(2-4) run by (auto simp: panicking_def reply_status_def log_level_def)
qed

end
