(* ===== verification/Pipeline.thy ===== *)
theory Pipeline
  imports Lab
begin

text \<open>
  The upload pipeline from the event to the transcoded track: what a successful run of \<open>process\<close>
  leaves in the tables, what a failed one leaves, what a redelivered event does, and the analytics
  transaction. The consumer that drives both workers is at the end.
\<close>

section \<open>Rows the worker touches\<close>

definition has_format :: "db \<Rightarrow> string \<Rightarrow> uuid \<Rightarrow> int \<Rightarrow> bool" where
  "has_format d i u b \<longleftrightarrow> (\<exists>f \<in> set (d_formats d). fmt_key f = (u, b, ''ogg'') \<and> tf_key f = format_key i b)"

definition status_in :: "db \<Rightarrow> uuid \<Rightarrow> string option" where
  "status_in d u = map_option tr_status (track_by_id d u)"

lemma find_update_where:
  assumes "\<And>r. key (f r) = key r"
  shows "find (\<lambda>r. key r = k) (update_where P f rows) = map_option (\<lambda>r. if P r then f r else r) (find (\<lambda>r. key r = k) rows)"
  by (induction rows) (auto simp: update_where_def assms)

lemma track_by_id_update:
  assumes "\<And>t. tr_id (f t) = tr_id t"
  shows "track_by_id (d\<lparr>d_tracks := update_where P f (d_tracks d)\<rparr>) u =
     map_option (\<lambda>t. if P t then f t else t) (track_by_id d u)"
  by (simp add: track_by_id_def find_update_where assms)

lemma status_in_cong: "d_tracks d' = d_tracks d \<Longrightarrow> status_in d' u = status_in d u"
  by (simp add: status_in_def track_by_id_def)

lemma has_format_cong: "d_formats d' = d_formats d \<Longrightarrow> has_format d' i u b = has_format d i u b"
  by (simp add: has_format_def)

lemma upd_error_effect:
  assumes "upd_error cast i e d = Some (n, d')" and "cast i = Some u"
  shows "status_in d' u = map_option (\<lambda>_. ''error'') (status_in d u)" and "d_formats d' = d_formats d"
  using assms
  by (cases "track_by_id d u"; auto simp: upd_error_def Let_def status_in_def track_by_id_update
      dest: track_by_id_SomeD)+

lemma upd_processing_effect:
  assumes "upd_processing cast i e d = Some (n, d')" and "cast i = Some u" and "status_in d u = Some ''pending''"
  shows "status_in d' u = Some ''processing''" and "d_formats d' = d_formats d"
  using assms
  by (auto simp: upd_processing_def Let_def status_in_def track_by_id_update dest: track_by_id_SomeD)

lemma upd_ready_effect:
  assumes "upd_ready cast ms i e d = Some (n, d')" and "cast i = Some u" and "track_by_id d u = Some t"
  shows "track_by_id d' u = Some (t\<lparr>tr_status := ''ready'', tr_duration := ms\<rparr>)" and "d_formats d' = d_formats d"
  using assms
  by (auto simp: upd_ready_def Let_def track_by_id_update dest: track_by_id_SomeD split: if_splits)

lemma ins_format_effect:
  assumes "ins_format cast i b (format_key i b) bytes e d = Some (x, d')" and "cast i = Some u"
  shows "has_format d' i u b" and "has_format d i u b' \<Longrightarrow> has_format d' i u b'" and "d_tracks d' = d_tracks d"
proof -
  show "d_tracks d' = d_tracks d" using frames(16) [OF assms(1)] by auto
  show "has_format d' i u b"
    using assms(1)
  proof (cases rule: ins_format_shape)
    case (old f)
    then obtain g where g: "g \<in> set (d_formats d)" "fmt_key g = fmt_key f" by auto
    let ?g = "g\<lparr>tf_key := format_key i b, tf_size := bytes\<rparr>"
    have "?g \<in> set (d_formats d')" using g old(1) by (auto simp: set_update_where)
    moreover have "fmt_key ?g = (u, b, ''ogg'')" using g(2) old(2-4) assms(2) by (simp add: fmt_key_def)
    ultimately show ?thesis unfolding has_format_def by (intro bexI [of _ ?g]) auto
  next
    case (new f)
    then show ?thesis using assms(2) by (simp add: has_format_def fmt_key_def)
  qed
  show "has_format d' i u b'" if h: "has_format d i u b'"
  proof -
    obtain g where g: "g \<in> set (d_formats d)" "fmt_key g = (u, b', ''ogg'')" "tf_key g = format_key i b'"
      using h by (auto simp: has_format_def)
    show ?thesis
      using assms(1)
    proof (cases rule: ins_format_shape)
      case (old f)
      let ?g = "if fmt_key g = fmt_key f then g\<lparr>tf_key := format_key i b, tf_size := bytes\<rparr> else g"
      have "?g \<in> set (d_formats d')" using g old(1) by (auto simp: set_update_where)
      moreover have "b' = b" if "fmt_key g = fmt_key f" using that g(2) old(3) by (simp add: fmt_key_def)
      ultimately show ?thesis
        using g unfolding has_format_def by (intro bexI [of _ ?g]) (auto simp: fmt_key_def)
    next
      case (new f)
      with g show ?thesis by (auto simp: has_format_def)
    qed
  qed
qed

section \<open>A successful run\<close>

lemmas format_effects = ins_format_effect(1) ins_format_effect(2) ins_format_effect(3)

definition formats_kept :: "db \<Rightarrow> db \<Rightarrow> string \<Rightarrow> uuid \<Rightarrow> bool" where
  "formats_kept d d' i u \<longleftrightarrow> d_tracks d' = d_tracks d \<and> (\<forall>b. has_format d i u b \<longrightarrow> has_format d' i u b)"

lemma formats_kept_refl [simp]: "formats_kept d d i u"
  by (simp add: formats_kept_def)

lemma formats_kept_trans: "formats_kept d e i u \<Longrightarrow> formats_kept e f i u \<Longrightarrow> formats_kept d f i u"
  by (simp add: formats_kept_def)

lemma encode_one_success:
  assumes "svc_cast S i = Some u"
  shows "post (encode_one S T st inp i dir b)
     (\<lambda>r w'. r = Inr () \<longrightarrow> has_format (w_db w') i u b \<and> formats_kept (w_db w) (w_db w') i u) w"
  unfolding encode_one_def transcode_def service_defs Let_def give_up_def markError_def
  using assms
  by (intro post_flow post_sql)
    (auto simp: status_in_cong formats_kept_def dest: format_effects split: option.splits)

lemma encode_all_success:
  assumes "svc_cast S i = Some u"
  shows "post (encode_all S T st inp i dir bs)
     (\<lambda>r w'. r = Inr () \<longrightarrow> (\<forall>b \<in> set bs. has_format (w_db w') i u b) \<and> formats_kept (w_db w) (w_db w') i u) w"
proof (induction bs arbitrary: w)
  case Nil
  show ?case by (auto intro: post_return)
next
  case (Cons b bs)
  have "post (encode_one S T st inp i dir b \<bind>
      (\<lambda>r. case r of Inl err \<Rightarrow> State_Monad.return (Inl err) | Inr _ \<Rightarrow> encode_all S T st inp i dir bs))
     (\<lambda>r w'. r = Inr () \<longrightarrow> (\<forall>b \<in> set (b # bs). has_format (w_db w') i u b) \<and> formats_kept (w_db w) (w_db w') i u) w"
  proof (rule post_bind, rule post_weaken [OF encode_one_success [OF assms]])
    fix r :: "upload_error + unit" and w' :: "'a world"
    assume one: "r = Inr () \<longrightarrow> has_format (w_db w') i u b \<and> formats_kept (w_db w) (w_db w') i u"
    show "post (case r of Inl err \<Rightarrow> State_Monad.return (Inl err) | Inr _ \<Rightarrow> encode_all S T st inp i dir bs)
       (\<lambda>r w'. r = Inr () \<longrightarrow> (\<forall>b \<in> set (b # bs). has_format (w_db w') i u b) \<and> formats_kept (w_db w) (w_db w') i u) w'"
    proof (cases r)
      case (Inl err)
      then show ?thesis by (auto intro: post_return)
    next
      case (Inr x)
      with one have "has_format (w_db w') i u b" "formats_kept (w_db w) (w_db w') i u" by auto
      then show ?thesis
        using Inr by (auto intro!: post_weaken [OF Cons.IH] simp: formats_kept_def)
    qed
  qed
  then show ?case by simp
qed

lemma index_track_db: "post (index_track S sc i) (\<lambda>_ w'. w_db w' = w_db w) w"
  unfolding index_track_def os_defs
  by (intro post_flow post_sql) (auto simp: sel_title_artist_def select_row_def)

lemma probe_db: "post (probeDuration T inp) (\<lambda>_ w'. w_db w' = w_db w) w"
  unfolding probeDuration_def by (intro post_flow) simp

lemma download_db: "post (downloadFromS3 S T st key dest) (\<lambda>_ w'. w_db w' = w_db w) w"
  unfolding downloadFromS3_def service_defs by (intro post_flow) simp_all

definition transcoded :: "db \<Rightarrow> string \<Rightarrow> uuid \<Rightarrow> bool" where
  "transcoded d i u \<longleftrightarrow> status_in d u = Some ''ready'' \<and> (\<forall>b \<in> set Bitrates. has_format d i u b)"

text \<open>An error return reports an error.\<close>

lemma give_up_post: "post (give_up S i err) (\<lambda>r w'. r \<noteq> Inr a) w"
  unfolding give_up_def markError_def by (intro post_flow post_sql) simp_all

lemma set_ready_success:
  assumes "svc_cast S i = Some u" and "track_by_id (w_db w) u = Some t" and "\<forall>b \<in> set Bitrates. has_format (w_db w) i u b"
  shows "post (set_ready S sc i ms) (\<lambda>r w'. r = Inr () \<longrightarrow> transcoded (w_db w') i u) w"
  unfolding set_ready_def
proof (rule post_bind, rule post_sql; simp only: option.case)
  fix e x n d
  assume eff: "upd_ready (svc_cast S) ms i e (w_db w) = Some (n, d)"
  have "transcoded d i u"
    using upd_ready_effect [OF eff assms(1,2)] assms(3) has_format_cong [of d "w_db w"]
    by (simp add: transcoded_def status_in_def)
  then show "post (index_track S sc i \<bind> (\<lambda>_. State_Monad.return (Inr ())))
      (\<lambda>r w'. r = Inr () \<longrightarrow> transcoded (w_db w') i u) (w\<lparr>w_ext := x, w_db := d\<rparr>)"
    by (intro post_bind post_weaken [OF index_track_db] post_return) simp
qed (rule post_weaken [OF give_up_post], simp)+

lemma transcode_stored_success:
  assumes "svc_cast S (ue_track ev) = Some u" and "status_in (w_db w) u \<noteq> None"
  shows "post (transcode_track S T (Some st) sc dir ev)
     (\<lambda>r w'. r = Inr () \<longrightarrow> transcoded (w_db w') (ue_track ev) u) w"
  unfolding transcode_track_def Let_def option.case
proof (rule post_bind, rule post_weaken [OF download_db], rule post_if)
  fix got dur ms and w1 w2 w3 :: "'a world" and enc :: "upload_error + unit"
  let ?i = "ue_track ev" and ?inp = "path_join dir ''input''"
  assume "w_db w1 = w_db w"
  show "post (give_up S ?i Err_download) (\<lambda>r w'. r = Inr () \<longrightarrow> transcoded (w_db w') ?i u) w1"
    by (rule post_weaken [OF give_up_post]) simp
  show "post (probeDuration T ?inp \<bind> (\<lambda>dur. case dur of
         None \<Rightarrow> give_up S ?i Err_probe
       | Some ms \<Rightarrow> encode_all S T st ?inp ?i dir Bitrates \<bind> (\<lambda>enc. case enc of
             Inl err \<Rightarrow> State_Monad.return (Inl err)
           | Inr _ \<Rightarrow> set_ready S sc ?i ms)))
     (\<lambda>r w'. r = Inr () \<longrightarrow> transcoded (w_db w') ?i u) w1"
  proof (rule post_bind, rule post_weaken [OF probe_db], rule post_option)
    fix dur ms and w2 :: "'a world"
    assume "w_db w2 = w_db w1"
    with \<open>w_db w1 = w_db w\<close> have w2: "w_db w2 = w_db w" by simp
    show "post (give_up S ?i Err_probe) (\<lambda>r w'. r = Inr () \<longrightarrow> transcoded (w_db w') ?i u) w2"
      by (rule post_weaken [OF give_up_post]) simp
    show "post (encode_all S T st ?inp ?i dir Bitrates \<bind> (\<lambda>enc. case enc of
             Inl err \<Rightarrow> State_Monad.return (Inl err)
           | Inr _ \<Rightarrow> set_ready S sc ?i ms))
       (\<lambda>r w'. r = Inr () \<longrightarrow> transcoded (w_db w') ?i u) w2"
    proof (rule post_bind, rule post_weaken [OF encode_all_success [OF assms(1)]], rule post_sum)
      fix enc :: "upload_error + unit" and w3 :: "'a world" and y
      assume "enc = Inr () \<longrightarrow> (\<forall>b \<in> set Bitrates. has_format (w_db w3) ?i u b) \<and> formats_kept (w_db w2) (w_db w3) ?i u"
        and "enc = Inr y"
      then have all: "\<forall>b \<in> set Bitrates. has_format (w_db w3) ?i u b" "d_tracks (w_db w3) = d_tracks (w_db w)"
        using w2 by (auto simp: formats_kept_def)
      then obtain t where "track_by_id (w_db w3) u = Some t"
        using assms(2) status_in_cong [of "w_db w3" "w_db w" u] by (auto simp: status_in_def)
      with all show "post (set_ready S sc ?i ms) (\<lambda>r w'. r = Inr () \<longrightarrow> transcoded (w_db w') ?i u) w3"
        by (intro set_ready_success [OF assms(1)])
    qed (auto intro: post_return)
  qed
qed
lemma transcode_track_success:
  assumes "svc_cast S (ue_track ev) = Some u" and "status_in (w_db w) u \<noteq> None"
  shows "post (transcode_track S T st sc dir ev)
     (\<lambda>r w'. r = Inr () \<longrightarrow> transcoded (w_db w') (ue_track ev) u) w"
proof (cases st)
  case None
  then show ?thesis unfolding transcode_track_def by (auto intro!: post_bind post_crash post_return)
qed (simp add: transcode_stored_success assms)

lemma in_temp_dir_success:
  assumes "svc_cast S (ue_track ev) = Some u" and "status_in (w_db w) u \<noteq> None"
  shows "post (in_temp_dir S T st sc ev) (\<lambda>r w'. r = Inr () \<longrightarrow> transcoded (w_db w') (ue_track ev) u) w"
  unfolding in_temp_dir_def
proof (rule post_bind, rule post_ext, rule post_option)
  fix x dir
  show "post (give_up S (ue_track ev) Err_temp_dir) (\<lambda>r w'. r = Inr () \<longrightarrow> transcoded (w_db w') (ue_track ev) u)
      (w\<lparr>w_ext := x\<rparr>)"
    by (rule post_weaken [OF give_up_post]) simp
  show "post (transcode_track S T st sc dir ev \<bind> (\<lambda>r. ext_call (\<lambda>x. ((), tl_remove_all T x dir)) \<bind>
           (\<lambda>_. State_Monad.return r))) (\<lambda>r w'. r = Inr () \<longrightarrow> transcoded (w_db w') (ue_track ev) u) (w\<lparr>w_ext := x\<rparr>)"
    using assms(2)
    by (intro post_bind post_weaken [OF transcode_track_success [OF assms(1)]]) (auto intro!: post_bind post_ext post_return)
qed

lemma sel_status_row:
  assumes "cast i = Some u" and "status_in d u = Some s"
  shows "sel_status cast i e d = Some (s, d)"
  using assms by (simp add: sel_status_def select_row_def status_in_def)

lemma process_success:
  assumes "svc_cast S (ue_track ev) = Some u" and "status_in (w_db w) u = Some ''pending''"
  shows "post (process S T st sc ev) (\<lambda>r w'. r = Inr () \<longrightarrow> transcoded (w_db w') (ue_track ev) u) w"
  unfolding process_def take_up_def Let_def
proof (rule post_bind, rule post_sql)
  let ?i = "ue_track ev"
  let ?claim = "sql S (upd_processing (svc_cast S) ?i) \<bind> (\<lambda>claimed. case claimed of
      None \<Rightarrow> State_Monad.return (Inl Err_set_processing) | Some _ \<Rightarrow> in_temp_dir S T st sc ev)"
  have claim: "post ?claim (\<lambda>r w'. r = Inr () \<longrightarrow> transcoded (w_db w') ?i u) (w\<lparr>w_ext := x\<rparr>)" for x
  proof (rule post_bind, rule post_sql; simp only: option.case)
    fix e x' n d
    assume "upd_processing (svc_cast S) ?i e (w_db (w\<lparr>w_ext := x\<rparr>)) = Some (n, d)"
    then have "status_in d u = Some ''processing''"
      using upd_processing_effect(1) [of "svc_cast S" ?i e "w_db w" n d u] assms by simp
    then show "post (in_temp_dir S T st sc ev) (\<lambda>r w'. r = Inr () \<longrightarrow> transcoded (w_db w') ?i u)
        (w\<lparr>w_ext := x, w_ext := x', w_db := d\<rparr>)"
      by (intro in_temp_dir_success [OF assms(1)]) simp
  qed (auto intro: post_return)
  show "post (case Some s of None \<Rightarrow> State_Monad.return (Inl Err_status_check)
      | Some s \<Rightarrow> if s \<noteq> ''pending'' then State_Monad.return (Inr ()) else ?claim)
      (\<lambda>r w'. r = Inr () \<longrightarrow> transcoded (w_db w') ?i u) (w\<lparr>w_ext := x, w_db := d\<rparr>)"
    if "sel_status (svc_cast S) ?i e (w_db w) = Some (s, d)" for e x s d
  proof -
    from that have "s = ''pending''" "d = w_db w" using sel_status_row [of "svc_cast S" ?i u "w_db w" "''pending''" e] assms by auto
    with claim [of x] show ?thesis by simp
  qed
qed (auto intro: post_return)

section \<open>A failed run\<close>

text \<open>With a database that answers, every error return after the claim has marked the track.\<close>

definition marked :: "uuid \<Rightarrow> 'e + 'a \<Rightarrow> 'x world \<Rightarrow> bool" where
  "marked u r w \<longleftrightarrow> (case r of Inl _ \<Rightarrow> status_in (w_db w) u = Some ''error'' | Inr _ \<Rightarrow> status_in (w_db w) u \<noteq> None)"

lemma marked_simps [simp]:
  "marked u (Inl err) w \<longleftrightarrow> status_in (w_db w) u = Some ''error''"
  "marked u (Inr a) w \<longleftrightarrow> status_in (w_db w) u \<noteq> None"
  by (simp_all add: marked_def)

lemma marked_ext [simp]: "marked u r (w\<lparr>w_ext := x\<rparr>) = marked u r w"
  by (cases r) simp_all

lemma status_in_formats [simp]: "status_in (d\<lparr>d_formats := fs\<rparr>) u = status_in d u"
  by (simp add: status_in_def track_by_id_def)

lemma give_up_marks:
  assumes "pg_always S" and "svc_cast S i = Some u" and "status_in (w_db w) u \<noteq> None"
  shows "post (give_up S i err) (marked u) w"
  unfolding give_up_def markError_def
proof (intro post_bind post_sql_up [OF assms(1)] post_return)
  fix e x n d
  show "marked u (Inl err) (w\<lparr>w_ext := x\<rparr>)" if "upd_error (svc_cast S) i e (w_db w) = None"
    using that assms(2) by (simp add: upd_error_def Let_def)
  show "marked u (Inl err) (w\<lparr>w_ext := x, w_db := d\<rparr>)" if "upd_error (svc_cast S) i e (w_db w) = Some (n, d)"
    using upd_error_effect(1) [OF that assms(2)] assms(3) by auto
qed

lemma encode_one_marks:
  assumes "pg_always S" and "svc_cast S i = Some u" and "status_in (w_db w) u \<noteq> None"
  shows "post (encode_one S T st inp i dir b) (marked u) w"
  unfolding encode_one_def transcode_def service_defs Let_def
  using assms(3)
  by (intro post_flow post_sql_up [OF assms(1)] give_up_marks [OF assms(1,2)])
    (auto simp: assms(2) dest!: frames(16))

lemma encode_all_marks:
  assumes "pg_always S" and "svc_cast S i = Some u"
  shows "status_in (w_db w) u \<noteq> None \<Longrightarrow> post (encode_all S T st inp i dir bs) (marked u) w"
proof (induction bs arbitrary: w)
  case Nil
  then show ?case by (auto intro: post_return)
next
  case (Cons b bs)
  show ?case
    unfolding encode_all.simps
  proof (rule post_bind, rule post_weaken [OF encode_one_marks [OF assms Cons.prems]], rule post_sum)
    fix r :: "upload_error + unit" and w' :: "'a world" and err y
    assume m: "marked u r w'"
    show "r = Inl err \<Longrightarrow> post (State_Monad.return (Inl err)) (marked u) w'"
      using m by (intro post_return) simp
    show "r = Inr y \<Longrightarrow> post (encode_all S T st inp i dir bs) (marked u) w'"
      using m by (intro Cons.IH) simp
  qed
qed

lemma set_ready_marks:
  assumes "pg_always S" and "svc_cast S i = Some u" and "status_in (w_db w) u \<noteq> None"
  shows "post (set_ready S sc i ms) (marked u) w"
  unfolding set_ready_def
proof (rule post_bind, rule post_sql_up [OF assms(1)]; simp only: option.case)
  show "post (give_up S i Err_set_ready) (marked u) (w\<lparr>w_ext := x\<rparr>)" for x
    using assms by (intro give_up_marks) simp_all
  fix e x n d
  assume eff: "upd_ready (svc_cast S) ms i e (w_db w) = Some (n, d)"
  obtain t where "track_by_id (w_db w) u = Some t" using assms(3) by (auto simp: status_in_def)
  then have "status_in d u \<noteq> None" using upd_ready_effect(1) [OF eff assms(2)] by (simp add: status_in_def)
  then show "post (index_track S sc i \<bind> (\<lambda>_. State_Monad.return (Inr ()))) (marked u) (w\<lparr>w_ext := x, w_db := d\<rparr>)"
    by (intro post_bind post_weaken [OF index_track_db] post_return) simp
qed

lemma transcode_track_marks:
  assumes "pg_always S" and "svc_cast S (ue_track ev) = Some u" and "status_in (w_db w) u \<noteq> None"
  shows "post (transcode_track S T (Some st) sc dir ev) (marked u) w"
  unfolding transcode_track_def Let_def option.case
  using assms(3)
  by (intro post_bind post_ext post_option post_if post_sum post_return give_up_marks [OF assms(1,2)]
      post_weaken [OF download_db] post_weaken [OF probe_db] post_weaken [OF encode_all_marks [OF assms(1,2)]]
      set_ready_marks [OF assms(1,2)]; simp)

lemma in_temp_dir_marks:
  assumes "pg_always S" and "svc_cast S (ue_track ev) = Some u" and "status_in (w_db w) u \<noteq> None"
  shows "post (in_temp_dir S T (Some st) sc ev) (marked u) w"
  unfolding in_temp_dir_def
  using assms(3)
  by (intro post_bind post_ext post_option post_return give_up_marks [OF assms(1,2)]
      post_weaken [OF transcode_track_marks [OF assms(1,2)]]; simp)

lemma process_marks:
  assumes "pg_always S" and "svc_cast S (ue_track ev) = Some u" and "status_in (w_db w) u = Some ''pending''"
  shows "post (process S T (Some st) sc ev) (marked u) w"
  unfolding process_def take_up_def Let_def
proof (rule post_bind, rule post_sql_up [OF assms(1)])
  let ?i = "ue_track ev"
  let ?claim = "sql S (upd_processing (svc_cast S) ?i) \<bind> (\<lambda>claimed. case claimed of
      None \<Rightarrow> State_Monad.return (Inl Err_set_processing) | Some _ \<Rightarrow> in_temp_dir S T (Some st) sc ev)"
  note sel = sel_status_row [of "svc_cast S" ?i u "w_db w" "''pending''", OF assms(2,3)]
  have claim: "post ?claim (marked u) (w\<lparr>w_ext := x\<rparr>)" for x
  proof (rule post_bind, rule post_sql_up [OF assms(1)]; simp only: option.case)
    fix e x' n d
    show "post (State_Monad.return (Inl Err_set_processing)) (marked u) (w\<lparr>w_ext := x, w_ext := x'\<rparr>)"
      if "upd_processing (svc_cast S) ?i e (w_db (w\<lparr>w_ext := x\<rparr>)) = None"
      using that assms(2) by (simp add: upd_processing_def Let_def)
    assume "upd_processing (svc_cast S) ?i e (w_db (w\<lparr>w_ext := x\<rparr>)) = Some (n, d)"
    then have "status_in d u = Some ''processing''"
      using upd_processing_effect(1) [of "svc_cast S" ?i e "w_db w" n d u] assms(2,3) by simp
    then show "post (in_temp_dir S T (Some st) sc ev) (marked u) (w\<lparr>w_ext := x, w_ext := x', w_db := d\<rparr>)"
      by (intro in_temp_dir_marks [OF assms(1,2)]) simp
  qed
  fix e x s d
  show "post (case None of None \<Rightarrow> State_Monad.return (Inl Err_status_check)
      | Some s \<Rightarrow> if s \<noteq> ''pending'' then State_Monad.return (Inr ()) else ?claim) (marked u) (w\<lparr>w_ext := x\<rparr>)"
    if "sel_status (svc_cast S) ?i e (w_db w) = None" using that sel by simp
  show "post (case Some s of None \<Rightarrow> State_Monad.return (Inl Err_status_check)
      | Some s \<Rightarrow> if s \<noteq> ''pending'' then State_Monad.return (Inr ()) else ?claim) (marked u) (w\<lparr>w_ext := x, w_db := d\<rparr>)"
    if "sel_status (svc_cast S) ?i e (w_db w) = Some (s, d)"
  proof -
    from that have "s = ''pending''" "d = w_db w" using sel [of e] by auto
    with claim [of x] show ?thesis by simp
  qed
qed

section \<open>Without a store, and again\<close>

lemma in_temp_dir_without_store:
  assumes "\<forall>x p. fst (tl_mktemp T x p) \<noteq> None" and "status_in (w_db w) u = Some s"
  shows "post (in_temp_dir S T None sc ev) (\<lambda>r w'. r = Inl Nil_store \<and> w_crashed w' \<and> status_in (w_db w') u = Some s) w"
proof -
  obtain dir x where "tl_mktemp T (w_ext w) (''transcode-'' @ ue_track ev) = (Some dir, x)"
    using assms(1) by (metis not_None_eq prod.collapse)
  then show ?thesis using assms(2) by (simp add: post_def in_temp_dir_def transcode_track_def)
qed

lemma process_without_store:
  assumes "pg_always S" and "svc_cast S (ue_track ev) = Some u" and "status_in (w_db w) u = Some ''pending''"
    and "\<forall>x p. fst (tl_mktemp T x p) \<noteq> None"
  shows "post (process S T None sc ev)
     (\<lambda>r w'. r = Inl Nil_store \<and> w_crashed w' \<and> status_in (w_db w') u = Some ''processing'') w"
proof -
  let ?i = "ue_track ev"
  obtain e x where e: "svc_pg S (w_ext w) = (e, x)" "e_fault e = Fine"
    using assms(1) by (metis pg_always_def prod.collapse)
  obtain e' x' where e': "svc_pg S x = (e', x')" "e_fault e' = Fine"
    using assms(1) by (metis pg_always_def prod.collapse)
  obtain n d where upd: "upd_processing (svc_cast S) ?i e' (w_db w) = Some (n, d)"
    using assms(2) by (simp add: upd_processing_def Let_def)
  have "status_in d u = Some ''processing''" by (rule upd_processing_effect(1) [OF upd assms(2,3)])
  then have "post (in_temp_dir S T None sc ev)
      (\<lambda>r w'. r = Inl Nil_store \<and> w_crashed w' \<and> status_in (w_db w') u = Some ''processing'')
      (w\<lparr>w_ext := x', w_db := d\<rparr>)"
    by (intro in_temp_dir_without_store [OF assms(4)]) simp
  then show ?thesis
    using e e' upd sel_status_row [of "svc_cast S" ?i u "w_db w" "''pending''" e, OF assms(2,3)]
    by (simp add: post_def process_def take_up_def Let_def run_sql exec_stmt_fine)
qed

lemma skipped:
  assumes "svc_cast S (ue_track ev) = Some u" and "status_in (w_db w) u = Some s" and "s \<noteq> ''pending''"
  shows "\<exists>r x. run_state (process S T st sc ev) w = (r, w\<lparr>w_ext := x\<rparr>) \<and> r \<in> {Inr (), Inl Err_status_check} \<and>
     x = snd (svc_pg S (w_ext w))"
proof -
  obtain e x where pg: "svc_pg S (w_ext w) = (e, x)" by (cases "svc_pg S (w_ext w)")
  have "sel_status (svc_cast S) (ue_track ev) e (w_db w) = Some (s, w_db w)"
    using assms(1,2) by (rule sel_status_row)
  then show ?thesis
    using pg assms(3) by (cases "e_fault e") (auto simp: process_def take_up_def Let_def run_sql exec_stmt_def)
qed

text \<open>A claim that comes too late touches no row, and nobody asks how many it touched.\<close>

lemma upd_processing_late:
  assumes "cast i = Some u" and "keys_ok d" and "status_in d u = Some ''processing''"
  shows "upd_processing cast i e d = Some (0, d)"
proof -
  let ?P = "\<lambda>t. tr_id t = u \<and> tr_status t = ''pending''"
  have "\<not> ?P t" if "t \<in> set (d_tracks d)" for t
    using assms(3) that track_by_id_iff [OF assms(2), of u t] by (auto simp: status_in_def)
  then have "affected ?P (d_tracks d) = 0" by (simp add: affected_0_iff)
  then show ?thesis using assms(1) by (simp add: upd_processing_def Let_def update_where_none)
qed

section \<open>Results\<close>

text \<open>
  C8. When the upload worker reports success for a pending track, the track is ready and has a stored
  format for each of the three bitrates, whatever calls failed and were retried on the way.
\<close>

theorem upload_success:
  assumes "svc_cast S (ue_track ev) = Some u" and "status_in (w_db w) u = Some ''pending''"
    and "run_state (process S T st sc ev) w = (Inr (), w')"
  shows "status_in (w_db w') u = Some ''ready'' \<and> (\<forall>b \<in> {64, 128, 320}. has_format (w_db w') (ue_track ev) u b)"
  using postD [OF process_success [OF assms(1,2)] assms(3)]
  by (simp add: transcoded_def Bitrates_def)

text \<open>
  C10. When the upload worker reports an error for a pending track and the database answered
  throughout, the track is in the state \<open>error\<close>: no error path leaves it in \<open>processing\<close>.
\<close>

theorem upload_failure:
  assumes "pg_always S" and "svc_cast S (ue_track ev) = Some u" and "status_in (w_db w) u = Some ''pending''"
    and "run_state (process S T (Some st) sc ev) w = (Inl err, w')"
  shows "status_in (w_db w') u = Some ''error''"
  using postD [OF process_marks [OF assms(1-3)] assms(4)] by simp

text \<open>
  C11. A redelivered event is harmless: for a track that is no longer pending the worker reports
  success (or a failed status check) without changing a table or calling a tool.
\<close>

theorem upload_redelivered:
  assumes "svc_cast S (ue_track ev) = Some u" and "status_in (w_db w) u = Some s" and "s \<noteq> ''pending''"
  shows "\<exists>r x. run_state (process S T st sc ev) w = (r, w\<lparr>w_ext := x\<rparr>) \<and> r \<in> {Inr (), Inl Err_status_check} \<and>
     x = snd (svc_pg S (w_ext w))"
  using assms by (rule skipped)

text \<open>
  C12. The claim of a track decides nothing: the worker has read \<open>pending\<close>, and when another worker's claim
  comes between the read and its own \<open>UPDATE\<close>, the \<open>UPDATE\<close> touches no row and the track is
  transcoded all the same, a second time.
\<close>

theorem late_claim_transcodes:
  assumes "pg_always S" and "svc_cast S (ue_track ev) = Some u"
    and "status_in (w_db w) u = Some ''pending''" and "keys_ok (w_db v)"
    and "status_in (w_db v) u = Some ''processing''"
  shows "(\<exists>x. run_state (process S T st sc ev) w = run_state (take_up S T st sc ev) (w\<lparr>w_ext := x\<rparr>)) \<and>
     (\<exists>y. run_state (take_up S T st sc ev) v = run_state (in_temp_dir S T st sc ev) (v\<lparr>w_ext := y\<rparr>))"
proof -
  obtain e x where e: "svc_pg S (w_ext w) = (e, x)" "e_fault e = Fine"
    using assms(1) by (cases "svc_pg S (w_ext w)") (auto simp: pg_always_def dest: spec [of _ "w_ext w"])
  obtain e1 y where e1: "svc_pg S (w_ext v) = (e1, y)" "e_fault e1 = Fine"
    using assms(1) by (cases "svc_pg S (w_ext v)") (auto simp: pg_always_def dest: spec [of _ "w_ext v"])
  have "run_state (process S T st sc ev) w = run_state (take_up S T st sc ev) (w\<lparr>w_ext := x\<rparr>)"
    using e sel_status_row [of "svc_cast S" "ue_track ev" u "w_db w" "''pending''" e, OF assms(2,3)]
    by (simp add: process_def Let_def run_sql exec_stmt_fine)
  moreover have "upd_processing (svc_cast S) (ue_track ev) e1 (w_db v) = Some (0, w_db v)"
    using assms(2,4,5) by (rule upd_processing_late)
  with e1 have "run_state (take_up S T st sc ev) v = run_state (in_temp_dir S T st sc ev) (v\<lparr>w_ext := y\<rparr>)"
    by (simp add: take_up_def run_sql exec_stmt_fine)
  ultimately show ?thesis by blast
qed

text \<open>
  C13. A worker that was started without a bucket dies of the first upload and strands it: the run ends
  the process with the track in \<open>processing\<close>, and when the event is delivered again, to whatever
  worker, it is skipped without changing a table.
\<close>

theorem upload_without_store:
  assumes "pg_always S" and "svc_cast S (ue_track ev) = Some u" and "status_in (w_db w) u = Some ''pending''"
    and "\<forall>x p. fst (tl_mktemp T x p) \<noteq> None"
    and "run_state (process S T None sc ev) w = (r, w')"
  shows "r = Inl Nil_store \<and> w_crashed w' \<and> status_in (w_db w') u = Some ''processing'' \<and>
     (\<forall>st. w_db (snd (run_state (process S T st sc ev) w')) = w_db w')"
proof -
  have run: "r = Inl Nil_store" "w_crashed w'" "status_in (w_db w') u = Some ''processing''"
    using postD [OF process_without_store [OF assms(1-4)] assms(5)] by auto
  have "w_db (snd (run_state (process S T st sc ev) w')) = w_db w'" for st
    using skipped [OF assms(2) run(3), of T st sc] by auto
  with run show ?thesis by blast
qed

definition lab_event :: uploadEvent where
  "lab_event = \<lparr>ue_track = ''t'', ue_audio = ''k''\<rparr>"

lemma lab_pg [simp]: "pg_always lab"
  by (simp add: pg_always_def)

lemma lab_pending: "svc_cast lab (ue_track lab_event) = Some ''t''" "status_in (w_db (lab_world lab_db)) ''t'' = Some ''pending''"
  by (simp_all add: lab_event_def status_in_def track_by_id_def lab_db_def lab_track_def)

lemma lab_duration: "duration_of_output ''12.5'' = Some 12500"
  by code_simp

lemma lab_tools_simps [simp]:
  "tl_mktemp lab_tools n p = (Some p, n)" "tl_create lab_tools n p = (True, n)" "tl_copy lab_tools n p t = (True, n)"
  "tl_exec lab_tools n args = (Some ''12.5'', n)" "tl_stat lab_tools n p = (Some 7, n)" "tl_read lab_tools n p = (Some ''ogg'', n)"
  "tl_remove_all lab_tools n p = n"
  by (simp_all add: lab_tools_def)

lemma lab_upload:
  "\<exists>w'. run_state (process lab lab_tools (Some \<lparr>st_bucket = ''b''\<rparr>) None lab_event) (lab_world lab_db) = (Inr (), w')"
  by (simp add: process_def take_up_def in_temp_dir_def transcode_track_def downloadFromS3_def probeDuration_def
      set_ready_def index_track_def encode_one_def transcode_def service_defs Bitrates_def run_sql exec_stmt_def
      lab_event_def lab_duration sel_status_def select_row_def track_by_id_def lab_db_def lab_track_def lab_artist_def lab_user_def
      upd_processing_def update_where_def affected_def ins_format_def insert_row_def fmt_key_def upd_ready_def int32_def int64_def Let_def empty_db_def)

theorem upload_success_witness:
  "\<exists>w'. run_state (process lab lab_tools (Some \<lparr>st_bucket = ''b''\<rparr>) None lab_event) (lab_world lab_db) = (Inr (), w') \<and>
     status_in (w_db w') ''t'' = Some ''ready'' \<and> has_format (w_db w') ''t'' ''t'' 320"
proof -
  obtain w' where run: "run_state (process lab lab_tools (Some \<lparr>st_bucket = ''b''\<rparr>) None lab_event) (lab_world lab_db) = (Inr (), w')"
    using lab_upload by blast
  from upload_success [OF lab_pending run] run show ?thesis by (auto simp: lab_event_def)
qed

theorem upload_failure_witness:
  "\<exists>err w'. run_state (process lab (lab_tools\<lparr>tl_exec := (\<lambda>n args. (None, n))\<rparr>) (Some \<lparr>st_bucket = ''b''\<rparr>) None lab_event)
       (lab_world lab_db) = (Inl err, w') \<and> status_in (w_db w') ''t'' = Some ''error''"
proof -
  let ?T = "lab_tools\<lparr>tl_exec := (\<lambda>n args. (None, n))\<rparr>"
  obtain err w' where run: "run_state (process lab ?T (Some \<lparr>st_bucket = ''b''\<rparr>) None lab_event) (lab_world lab_db) = (Inl err, w')"
    by (simp add: process_def take_up_def in_temp_dir_def transcode_track_def downloadFromS3_def probeDuration_def
        service_defs run_sql exec_stmt_def give_up_def markError_def upd_error_def
        lab_event_def sel_status_def select_row_def track_by_id_def lab_db_def lab_track_def
        upd_processing_def update_where_def affected_def Let_def)
  from upload_failure [OF lab_pg lab_pending run] run show ?thesis by auto
qed

theorem upload_without_store_witness:
  "\<exists>r w'. run_state (process lab lab_tools None None lab_event) (lab_world lab_db) = (r, w') \<and>
     w_crashed w' \<and> status_in (w_db w') ''t'' = Some ''processing''"
proof -
  obtain r w' where run: "run_state (process lab lab_tools None None lab_event) (lab_world lab_db) = (r, w')"
    by (cases "run_state (process lab lab_tools None None lab_event) (lab_world lab_db)")
  have "\<forall>x p. fst (tl_mktemp lab_tools x p) \<noteq> None" by simp
  from upload_without_store [OF lab_pg lab_pending this run] run show ?thesis by blast
qed

theorem late_claim_transcodes_witness:
  "\<exists>y. run_state (take_up lab lab_tools (Some \<lparr>st_bucket = ''b''\<rparr>) None lab_event)
       (lab_world (lab_db\<lparr>d_tracks := [lab_track\<lparr>tr_status := ''processing''\<rparr>]\<rparr>)) =
     run_state (in_temp_dir lab lab_tools (Some \<lparr>st_bucket = ''b''\<rparr>) None lab_event)
       ((lab_world (lab_db\<lparr>d_tracks := [lab_track\<lparr>tr_status := ''processing''\<rparr>]\<rparr>))\<lparr>w_ext := y\<rparr>)"
proof -
  let ?v = "lab_world (lab_db\<lparr>d_tracks := [lab_track\<lparr>tr_status := ''processing''\<rparr>]\<rparr>)"
  have "status_in (w_db ?v) ''t'' = Some ''processing''"
    by (simp add: status_in_def track_by_id_def lab_track_def)
  moreover have "keys_ok (w_db ?v)"
    by (simp add: keys_ok_def lab_db_def lab_track_def lab_artist_def lab_user_def empty_db_def)
  ultimately have v: "keys_ok (w_db ?v)" "status_in (w_db ?v) ''t'' = Some ''processing''" by blast+
  from late_claim_transcodes [OF lab_pg lab_pending v] show ?thesis by blast
qed

theorem upload_redelivered_witness:
  "\<exists>r x. run_state (process lab lab_tools (Some \<lparr>st_bucket = ''b''\<rparr>) None lab_event)
       (lab_world (lab_db\<lparr>d_tracks := [lab_track\<lparr>tr_status := ''ready''\<rparr>]\<rparr>)) =
     (r, (lab_world (lab_db\<lparr>d_tracks := [lab_track\<lparr>tr_status := ''ready''\<rparr>]\<rparr>))\<lparr>w_ext := x\<rparr>) \<and>
     r \<in> {Inr (), Inl Err_status_check}"
proof -
  let ?w = "lab_world (lab_db\<lparr>d_tracks := [lab_track\<lparr>tr_status := ''ready''\<rparr>]\<rparr>)"
  have "status_in (w_db ?w) ''t'' = Some ''ready''"
    by (simp add: status_in_def track_by_id_def lab_track_def)
  from upload_redelivered [OF lab_pending(1) this] show ?thesis by blast
qed

section \<open>Plays\<close>

text \<open>
  C15. A play message changes the tables completely or not at all: one anonymous event for an existing
  track together with one more play of that track, or nothing. A success is only reported for the
  change; an error with the change is a commit whose acknowledgement was lost.
\<close>

theorem play_is_atomic:
  assumes "run_state (analytics_handler S m) w = (r, w')"
  shows "(w_db w' = w_db w \<and> r \<noteq> Inr ()) \<or>
     (\<exists>p. pe_user p = None \<and> pe_track p \<in> track_ids (w_db w) \<and> d_events (w_db w') = d_events (w_db w) @ [p] \<and>
        d_tracks (w_db w') = update_where (\<lambda>t. tr_id t = pe_track p) (\<lambda>t. t\<lparr>tr_plays := tr_plays t + 1\<rparr>) (d_tracks (w_db w)) \<and>
        r \<in> {Inr (), Inl Err_commit})"
proof (cases "dec_play m")
  case None
  with assms show ?thesis by (auto simp: analytics_handler_def)
next
  case (Some ev)
  with assms have run: "run_state (analytics_record S ev) w = (r, w')" by (simp add: analytics_handler_def)
  from analytics_record_atomic [OF run] show ?thesis
  proof
    assume "\<exists>e1 e2 d1. ins_play_event (svc_cast S) (pv_track ev) (pv_source ev) e1 (w_db w) = Some ((), d1) \<and>
        upd_play_count (svc_cast S) (pv_track ev) e2 d1 = Some ((), w_db w') \<and> (r = Inr () \<or> r = Inl Err_commit)"
    then obtain e1 e2 d1 where s: "ins_play_event (svc_cast S) (pv_track ev) (pv_source ev) e1 (w_db w) = Some ((), d1)"
      "upd_play_count (svc_cast S) (pv_track ev) e2 d1 = Some ((), w_db w')" "r = Inr () \<or> r = Inl Err_commit" by blast
    obtain u where u: "svc_cast S (pv_track ev) = Some u" using s(1) by (auto simp: ins_play_event_def split: option.splits)
    let ?p = "\<lparr>pe_id = e_id e1, pe_user = None, pe_track = u, pe_played = e_now e1, pe_ms = None, pe_source = Some (pv_source ev)\<rparr>"
    have "u \<in> track_ids (w_db w)" "d1 = (w_db w)\<lparr>d_events := d_events (w_db w) @ [?p]\<rparr>"
      using s(1) u by (simp_all add: ins_play_event_def Let_def split: if_splits option.splits)
    moreover from this have "w_db w' = d1\<lparr>d_tracks := update_where (\<lambda>t. tr_id t = u) (\<lambda>t. t\<lparr>tr_plays := tr_plays t + 1\<rparr>) (d_tracks (w_db w))\<rparr>"
      using s(2) u by (simp add: upd_play_count_def split: if_splits)
    ultimately show ?thesis using s(3) by (intro disjI2 exI [of _ ?p]) auto
  qed blast
qed

theorem play_is_atomic_witness:
  "\<exists>r w'. run_state (analytics_handler lab (Doc (play_event_json ''t'' ''web'' 0))) (lab_world lab_db) = (r, w') \<and>
     ((w_db w' = lab_db \<and> r \<noteq> Inr ()) \<or> length (d_events (w_db w')) = 1)"
proof -
  obtain r w' where run: "run_state (analytics_handler lab (Doc (play_event_json ''t'' ''web'' 0))) (lab_world lab_db) = (r, w')"
    by (cases "run_state (analytics_handler lab (Doc (play_event_json ''t'' ''web'' 0))) (lab_world lab_db)")
  have "d_events lab_db = []" by (simp add: lab_db_def empty_db_def)
  with play_is_atomic [OF run] run show ?thesis by auto
qed

text \<open>
  Published messages are understood: the worker decodes an upload event to the track and the key
  that \<open>Create\<close> published, and a play event to the track, the source and the whole second that
  \<open>Stream\<close> published.
\<close>

theorem events_are_understood:
  "dec_upload (Doc (upload_event_json i key)) = Some \<lparr>ue_track = i, ue_audio = key\<rparr> \<and>
   dec_play (Doc (play_event_json i src now)) =
     Some \<lparr>pv_track = i, pv_source = src, pv_time = JTime (now div 10 ^ 9 * 10 ^ 9)\<rparr>"
  by (simp add: dec_upload_event dec_play_event)

section \<open>The consumer\<close>

text \<open>
  C24. After a restart a record whose handler failed is delivered again exactly when the committed
  position of its partition does not cover a record with the same or a later offset that succeeded in
  the run. Without such a success it is never lost; when every mark has been committed, one later
  success moves the position past it and the record is lost, whatever the comment at the handler's
  error says.
\<close>

theorem failed_record_redelivery:
  assumes "run_state (consume h bs) w = (ms, w')" and "autocommit_law before ms committed"
    and "(r, False) \<in> set (outcomes h (concat bs) w)" and "before (tp_of r) \<le> kr_offset r"
  shows "(redelivered committed r \<longleftrightarrow> (\<nexists>r'. (r', True) \<in> set (outcomes h (concat bs) w) \<and> tp_of r' = tp_of r \<and>
            kr_offset r \<le> kr_offset r' \<and> kr_offset r' < committed (tp_of r))) \<and>
     (committed = marked_position before ms \<longrightarrow> (redelivered committed r \<longleftrightarrow>
        (\<forall>r'. (r', True) \<in> set (outcomes h (concat bs) w) \<longrightarrow> tp_of r' = tp_of r \<longrightarrow> kr_offset r' < kr_offset r)))"
proof -
  have "ms = map fst (filter snd (outcomes h (concat bs) w))" using assms(1) by (simp add: run_consume)
  then have ms: "(r', True) \<in> set (outcomes h (concat bs) w) \<longleftrightarrow> r' \<in> set ms" for r' by force
  have "redelivered committed r \<longleftrightarrow> (\<nexists>r'. r' \<in> set ms \<and> tp_of r' = tp_of r \<and>
      kr_offset r \<le> kr_offset r' \<and> kr_offset r' < committed (tp_of r))"
    using committed_covers [OF assms(2,4)] unfolding redelivered_def by (force simp: not_le)
  moreover have "redelivered (marked_position before ms) r \<longleftrightarrow>
      (\<forall>r'. r' \<in> set ms \<longrightarrow> tp_of r' = tp_of r \<longrightarrow> kr_offset r' < kr_offset r)"
    using assms(4) unfolding redelivered_def marked_position_le by auto
  ultimately show ?thesis unfolding ms by auto
qed

definition lab_rec :: "nat \<Rightarrow> doc \<Rightarrow> krec" where
  "lab_rec k v = \<lparr>kr_topic = ''play.events'', kr_partition = 0, kr_offset = k, kr_value = v\<rparr>"

definition lab_handler :: "doc \<Rightarrow> (nat, unit + unit) run" where
  "lab_handler v = State_Monad.return (if v = Junk then Inl () else Inr ())"

text \<open>The first record fails and the second succeeds: lost after a clean close, delivered again after a crash before any commit.\<close>

theorem failed_record_redelivery_witness:
  "\<exists>ms w'. run_state (consume lab_handler [[lab_rec 0 Junk, lab_rec 1 (Doc JNull)]]) (lab_world empty_db) = (ms, w') \<and>
     \<not> redelivered (marked_position (\<lambda>_. 0) ms) (lab_rec 0 Junk) \<and> redelivered (\<lambda>_. 0) (lab_rec 0 Junk)"
proof -
  let ?rs = "[lab_rec 0 Junk, lab_rec 1 (Doc JNull)]"
  obtain ms w' where run: "run_state (consume lab_handler [?rs]) (lab_world empty_db) = (ms, w')"
    by (cases "run_state (consume lab_handler [?rs]) (lab_world empty_db)")
  have closed: "autocommit_law (\<lambda>_. 0) ms (marked_position (\<lambda>_. 0) ms)"
    unfolding autocommit_law_def by (auto intro!: exI [of _ "length ms"])
  have crashed: "autocommit_law (\<lambda>_. 0) ms (\<lambda>_. 0)"
    unfolding autocommit_law_def marked_position_def by (auto intro!: exI [of _ 0])
  have outs: "outcomes lab_handler (concat [?rs]) (lab_world empty_db) = [(lab_rec 0 Junk, False), (lab_rec 1 (Doc JNull), True)]"
    by (simp add: lab_handler_def lab_rec_def)
  have failed: "(lab_rec 0 Junk, False) \<in> set (outcomes lab_handler (concat [?rs]) (lab_world empty_db))"
    unfolding outs by simp
  have "\<not> redelivered (marked_position (\<lambda>_. 0) ms) (lab_rec 0 Junk)"
    using failed_record_redelivery [OF run closed failed] unfolding outs by (auto simp: lab_rec_def tp_of_def)
  moreover have "redelivered (\<lambda>_. 0) (lab_rec 0 Junk)"
    using failed_record_redelivery [OF run crashed failed] by simp
  ultimately show ?thesis using run by blast
qed

end
