(* ===== verification/Program.thy ===== *)
theory Program
  imports Pipeline
begin

text \<open>
  The whole program as a transition system on worlds: a request, a goroutine that a request has
  started, an upload message, a play message, any change of the outside world, or the end and restart
  of a process, which loses its goroutines. Each transition is a complete run, whatever fails in it; what other runs do between two statements of a run is covered
  by the refinement to single statements. The contracts of the entry points, interpreted, give what
  holds of every history.
\<close>

section \<open>Transitions\<close>

inductive moves :: "'x server \<Rightarrow> 'x tools \<Rightarrow> storage option \<Rightarrow> 'x world \<Rightarrow> 'x world \<Rightarrow> bool"
  for sv :: "'x server" and T :: "'x tools" and st :: "storage option"
where
  move_request: "run_state (serve sv rq) w = (out, w') \<Longrightarrow> moves sv T st w w'"
| move_goroutine: "t \<in> set (w_tasks w) \<Longrightarrow>
     run_state (run_task sv t) (w\<lparr>w_tasks := remove1 t (w_tasks w)\<rparr>) = (u, w') \<Longrightarrow> moves sv T st w w'"
| move_upload: "run_state (upload_handler (sv_services sv) T st (sv_search sv) m) w = (r, w') \<Longrightarrow> moves sv T st w w'"
| move_play: "run_state (analytics_handler (sv_services sv) m) w = (q, w') \<Longrightarrow> moves sv T st w w'"
| move_outside: "moves sv T st w (w\<lparr>w_ext := x\<rparr>)"
| move_restart: "moves sv T st w (w\<lparr>w_tasks := [], w_crashed := False\<rparr>)"

inductive_cases movesE: "moves sv T st w w'"

abbreviation history :: "'x server \<Rightarrow> 'x tools \<Rightarrow> storage option \<Rightarrow> 'x world \<Rightarrow> 'x world \<Rightarrow> bool" where
  "history sv T st \<equiv> (moves sv T st)\<^sup>*\<^sup>*"

text \<open>A contract on the tables holds of every transition, and of every history.\<close>

lemma stays_run: "stays R m \<Longrightarrow> run_state m w = (a, w') \<Longrightarrow> R (w_db w) (w_db w')"
  by (metis staysD snd_conv)

context table_contract
begin

lemma moves_in:
  assumes "engine_ok (sv_engine sv)" and "moves sv T st w w'"
  shows "R (w_db w) (w_db w')"
  using assms(2)
proof (elim movesE)
  fix t u assume "run_state (run_task sv t) (w\<lparr>w_tasks := remove1 t (w_tasks w)\<rparr>) = (u, w')"
  from stays_run [OF stays_task this] show ?thesis by simp
qed (auto intro: R_refl dest: stays_run [OF stays_serve [OF assms(1)]] stays_run [OF stays_upload] stays_run [OF stays_analytics])

lemma history_in:
  assumes "engine_ok (sv_engine sv)" and "history sv T st w w'"
  shows "R (w_db w) (w_db w')"
  using assms(2) by (induction) (auto intro: R_refl R_trans moves_in [OF assms(1)])

end

section \<open>Ready tracks have their formats\<close>

definition playable :: "db \<Rightarrow> bool" where
  "playable d \<longleftrightarrow> (\<forall>t \<in> set (d_tracks d). tr_status t = ''ready'' \<longrightarrow>
     (\<forall>b \<in> {64, 128, 320}. \<exists>f \<in> set (d_formats d). fmt_key f = (tr_id t, b, ''ogg'')))"

text \<open>
  Not every ready track has its formats: the migration that adds the column \<open>status\<close> makes the tracks of
  an older table ready, and the seed data inserts ready tracks. The invariant leaves out a set of ids.
\<close>

definition playable_except :: "uuid set \<Rightarrow> db \<Rightarrow> bool" where
  "playable_except X d \<longleftrightarrow> (\<forall>t \<in> set (d_tracks d). tr_status t = ''ready'' \<and> tr_id t \<notin> X \<longrightarrow>
     (\<forall>b \<in> {64, 128, 320}. \<exists>f \<in> set (d_formats d). fmt_key f = (tr_id t, b, ''ogg'')))"

definition legacy_track :: "db \<Rightarrow> uuid \<Rightarrow> bool" where
  "legacy_track d i \<longleftrightarrow> (\<exists>t \<in> set (d_tracks d). tr_id t = i \<and> tr_status t = ''ready'' \<and>
     (\<exists>b \<in> {64, 128, 320}. \<forall>f \<in> set (d_formats d). fmt_key f \<noteq> (i, b, ''ogg'')))"

lemma playable_all: "playable d \<longleftrightarrow> playable_except {} d"
  by (simp add: playable_def playable_except_def)

lemma playable_legacy: "playable_except (Collect (legacy_track d)) d"
  unfolding playable_except_def legacy_track_def by blast

text \<open>
  The relation of all steps but one: no format disappears and no track becomes ready.
\<close>

definition quiet :: "db \<Rightarrow> db \<Rightarrow> bool" where
  "quiet d d' \<longleftrightarrow> fmt_key ` set (d_formats d) \<subseteq> fmt_key ` set (d_formats d') \<and>
     (\<forall>t' \<in> set (d_tracks d'). tr_status t' = ''ready'' \<longrightarrow>
        (\<exists>t \<in> set (d_tracks d). tr_id t = tr_id t' \<and> tr_status t = ''ready''))"

lemma quiet_playable: "quiet d d' \<Longrightarrow> playable_except X d \<Longrightarrow> playable_except X d'"
proof -
  assume q: "quiet d d'" and p: "playable_except X d"
  have "\<exists>f \<in> set (d_formats d'). fmt_key f = (tr_id t', b, ''ogg'')"
    if t': "t' \<in> set (d_tracks d')" "tr_status t' = ''ready''" "b \<in> {64, 128, 320}" "tr_id t' \<notin> X" for t' b
  proof -
    obtain t where t: "t \<in> set (d_tracks d)" "tr_id t = tr_id t'" "tr_status t = ''ready''"
      using q t' unfolding quiet_def by blast
    then obtain f where "f \<in> set (d_formats d)" "fmt_key f = (tr_id t', b, ''ogg'')"
      using p t'(3,4) unfolding playable_except_def by metis
    then have "fmt_key f \<in> fmt_key ` set (d_formats d')" using q unfolding quiet_def by blast
    with \<open>fmt_key f = (tr_id t', b, ''ogg'')\<close> show ?thesis by (auto simp: image_iff dest: sym)
  qed
  then show "playable_except X d'" unfolding playable_except_def by blast
qed

lemma quiet_same: "d_tracks d' = d_tracks d \<Longrightarrow> d_formats d' = d_formats d \<Longrightarrow> quiet d d'"
  by (auto simp: quiet_def)

lemma formats_grow: "db_step d d' \<Longrightarrow> fmt_key ` set (d_formats d) \<subseteq> fmt_key ` set (d_formats d')"
proof (erule formats_change)
  fix P key bytes assume "d_formats d' = update_where P (\<lambda>g. g\<lparr>tf_key := key, tf_size := bytes\<rparr>) (d_formats d)"
  then have "fmt_key ` set (d_formats d') = fmt_key ` set (d_formats d)"
    by (simp only:) (rule image_update_where, simp add: fmt_key_def)
  then show ?thesis by simp
qed auto

lemma quiet_tracks:
  assumes "db_step d d'" and "d_tracks d' = d_tracks d"
  shows "quiet d d'"
  using formats_grow [OF assms(1)] assms(2) by (auto simp: quiet_def)

lemma api_quiet:
  assumes "api_step d d'"
  shows "quiet d d'"
proof -
  note step = api_db_step [OF assms]
  from assms show ?thesis
  proof (cases rule: api_step.cases)
    case (api_track cast i title art audio e r)
    then show ?thesis
      using formats_grow [OF step] by (auto simp: quiet_def op_defs Let_def split: if_splits option.splits)
  qed (rule quiet_tracks [OF step], (drule frames)+, elim exE, simp)+
qed

interpretation quiet: api_contract quiet
proof unfold_locales
  show "quiet d d" for d by (rule quiet_same) simp_all
  show "quiet d f" if q: "quiet d e" "quiet e f" for d e f
    unfolding quiet_def
  proof (intro conjI ballI impI)
    show "fmt_key ` set (d_formats d) \<subseteq> fmt_key ` set (d_formats f)" using q unfolding quiet_def by blast
    fix t' assume "t' \<in> set (d_tracks f)" "tr_status t' = ''ready''"
    then obtain t where "t \<in> set (d_tracks e)" "tr_id t = tr_id t'" "tr_status t = ''ready''"
      using q(2) unfolding quiet_def by blast
    moreover from this obtain t0 where "t0 \<in> set (d_tracks d)" "tr_id t0 = tr_id t" "tr_status t0 = ''ready''"
      using q(1) unfolding quiet_def by blast
    ultimately show "\<exists>t \<in> set (d_tracks d). tr_id t = tr_id t' \<and> tr_status t = ''ready''" by auto
  qed
qed (rule api_quiet)

lemma quiet_status:
  assumes "db_step d d'" and "d_tracks d' = update_where P f (d_tracks d)"
    and "\<And>t. tr_id (f t) = tr_id t" and "\<And>t. tr_status (f t) = ''ready'' \<Longrightarrow> tr_status t = ''ready''"
  shows "quiet d d'"
  using formats_grow [OF assms(1)] assms(3,4) unfolding quiet_def assms(2) set_update_where
  by (auto split: if_splits)

lemma worker_quiet:
  "stmt_stays quiet (upd_processing cast i)"
  "stmt_stays quiet (upd_error cast i)"
  "stmt_stays quiet (ins_format cast i b key bytes)"
proof -
  show "stmt_stays quiet (upd_processing cast i)"
  proof (rule stmt_staysI)
    fix e d n d' assume h: "upd_processing cast i e d = Some (n, d')"
    then obtain u where "d_tracks d' = update_where (\<lambda>t. tr_id t = u \<and> tr_status t = ''pending'')
        (\<lambda>t. t\<lparr>tr_status := ''processing''\<rparr>) (d_tracks d)"
      by (auto simp: upd_processing_def Let_def split: option.splits)
    then show "quiet d d'" by (rule quiet_status [OF step_processing [OF h]]) simp_all
  qed
  show "stmt_stays quiet (upd_error cast i)"
  proof (rule stmt_staysI)
    fix e d n d' assume h: "upd_error cast i e d = Some (n, d')"
    then obtain u where "d_tracks d' = update_where (\<lambda>t. tr_id t = u) (\<lambda>t. t\<lparr>tr_status := ''error''\<rparr>) (d_tracks d)"
      by (auto simp: upd_error_def Let_def split: option.splits)
    then show "quiet d d'" by (rule quiet_status [OF step_error [OF h]]) simp_all
  qed
  show "stmt_stays quiet (ins_format cast i b key bytes)"
  proof (rule stmt_staysI)
    fix e d x d' assume h: "ins_format cast i b key bytes e d = Some (x, d')"
    then have "d_tracks d' = d_tracks d" by (auto dest!: frames(16))
    with h show "quiet d d'" by (intro quiet_tracks [OF step_format])
  qed
qed

lemmas quiet_rules = quiet.entry_rules worker_quiet

lemma quiet_give_up: "stays quiet (give_up S i err)"
  unfolding give_up_def markError_def by (intro quiet_rules)

lemma quiet_encode: "stays quiet (encode_all S T st inp i dir bs)"
  by (induction bs) (auto simp: encode_one_def transcode_def storage_Upload_def Let_def
      intro!: quiet_rules quiet_give_up)

lemma quiet_play: "stays quiet (analytics_handler S m)"
  unfolding analytics_handler_def
proof (intro quiet_rules quiet.stays_analytics_record)
  fix cast i src e1 e2 d d1 d' and x y :: unit
  assume h: "ins_play_event cast i src e1 d = Some (x, d1)" "upd_play_count cast i e2 d1 = Some (y, d')"
  have step: "db_step d d'" using h by (rule step_play)
  show "quiet d d'"
    using step
  proof (cases rule: tracks_change)
    case (status P f)
    then show ?thesis using h by (auto simp: op_defs Let_def split: option.splits if_splits)
  next
    case (played p)
    show ?thesis by (rule quiet_status [OF step played(4)]) simp_all
  next
    case (created t)
    then show ?thesis using formats_grow [OF step] by (auto simp: quiet_def)
  qed (rule quiet_tracks [OF step], simp)
qed

text \<open>The worker makes a track ready only after its three formats are stored.\<close>

lemma post_quiet: "stays quiet m \<Longrightarrow> playable_except X (w_db w) \<Longrightarrow> post m (\<lambda>_ w'. playable_except X (w_db w')) w"
  unfolding post_def by (auto split: prod.splits dest: stays_run intro: quiet_playable)

lemma post_both: "post m P w \<Longrightarrow> post m Q w \<Longrightarrow> post m (\<lambda>a w'. P a w' \<and> Q a w') w"
  by (auto simp: post_def split: prod.splits)

lemma upd_ready_playable:
  assumes "upd_ready cast ms i e d = Some (n, d')" and "cast i = Some u"
    and "\<forall>b \<in> set Bitrates. has_format d i u b" and "playable_except X d"
  shows "playable_except X d'"
proof -
  have d': "d_tracks d' = update_where (\<lambda>t. tr_id t = u) (\<lambda>t. t\<lparr>tr_status := ''ready'', tr_duration := ms\<rparr>) (d_tracks d)"
    "d_formats d' = d_formats d"
    using assms(1,2) by (auto simp: upd_ready_def Let_def split: if_splits)
  have u: "\<exists>f \<in> set (d_formats d). fmt_key f = (u, b, ''ogg'')" if "b \<in> {64, 128, 320}" for b
    using assms(3) that by (auto simp: has_format_def Bitrates_def)
  show ?thesis
    using assms(4) u unfolding playable_except_def d' set_update_where by (auto split: if_splits)
qed

lemma set_ready_playable:
  assumes "svc_cast S i = Some u" and "\<forall>b \<in> set Bitrates. has_format (w_db w) i u b" and "playable_except X (w_db w)"
  shows "post (set_ready S sc i ms) (\<lambda>_ w'. playable_except X (w_db w')) w"
  unfolding set_ready_def
proof (rule post_bind, rule post_sql; simp only: option.case)
  fix e x n d
  show "post (give_up S i Err_set_ready) (\<lambda>_ w'. playable_except X (w_db w')) (w\<lparr>w_ext := x\<rparr>)"
    using assms(3) by (intro post_quiet [where X = X, OF quiet_give_up]) simp
  assume "upd_ready (svc_cast S) ms i e (w_db w) = Some (n, d)"
  then have d: "playable_except X d" by (rule upd_ready_playable [where cast = "svc_cast S" and i = i, OF _ assms])
  then show "post (give_up S i Err_set_ready) (\<lambda>_ w'. playable_except X (w_db w')) (w\<lparr>w_ext := x, w_db := d\<rparr>)"
    by (intro post_quiet [where X = X, OF quiet_give_up]) simp
  show "post (index_track S sc i \<bind> (\<lambda>_. State_Monad.return (Inr ()))) (\<lambda>_ w'. playable_except X (w_db w')) (w\<lparr>w_ext := x, w_db := d\<rparr>)"
    using d by (intro post_bind post_weaken [OF index_track_db] post_return) simp
qed

lemma transcode_track_playable:
  assumes "svc_cast S (ue_track ev) = Some u" and "playable_except X (w_db w)"
  shows "post (transcode_track S T st sc dir ev) (\<lambda>_ w'. playable_except X (w_db w')) w"
  unfolding transcode_track_def Let_def
  using assms(2)
  by (intro post_bind post_crash post_option post_if post_sum post_return post_quiet [where X = X, OF quiet_give_up]
      post_weaken [OF download_db] post_weaken [OF probe_db]
      post_weaken [OF post_both [OF encode_all_success [OF assms(1)] post_quiet [where X = X, OF quiet_encode]]]
      set_ready_playable [OF assms(1)]; simp)

lemma process_playable:
  assumes "playable_except X (w_db w)"
  shows "post (process S T st sc ev) (\<lambda>_ w'. playable_except X (w_db w')) w"
proof (cases "svc_cast S (ue_track ev)")
  case None
  then have "sel_status (svc_cast S) (ue_track ev) e d = None" for e d by (simp add: sel_status_def select_row_def)
  with assms show ?thesis unfolding process_def take_up_def Let_def by (intro post_flow post_sql) simp_all
next
  case (Some u)
  have claimed: "playable_except X d'" if "upd_processing (svc_cast S) i e d = Some (n, d')" "playable_except X d" for i e n d d'
    using that stmt_staysD [OF worker_quiet(1)] quiet_playable by metis
  have same: "d' = d" if "sel_status (svc_cast S) i e d = Some (s, d')" for i e d s d'
    using that by (auto simp: sel_status_def select_row_def)
  show ?thesis
    unfolding process_def take_up_def in_temp_dir_def Let_def
    using assms
    by (intro post_flow post_sql post_quiet [where X = X, OF quiet_give_up] post_weaken [OF transcode_track_playable [OF Some]])
      (auto dest: claimed same)
qed

lemma upload_playable:
  assumes "playable_except X (w_db w)"
  shows "post (upload_handler S T st sc m) (\<lambda>_ w'. playable_except X (w_db w')) w"
  unfolding upload_handler_def by (intro post_option post_return process_playable assms)

lemma moves_playable:
  assumes "engine_ok (sv_engine sv)" and "moves sv T st w w'" and "playable_except X (w_db w)"
  shows "playable_except X (w_db w')"
  using assms(2)
proof (elim movesE)
  fix rq out assume "run_state (serve sv rq) w = (out, w')"
  from stays_run [OF quiet.stays_serve [OF assms(1)] this] show ?thesis by (rule quiet_playable [OF _ assms(3)])
next
  fix t u assume "run_state (run_task sv t) (w\<lparr>w_tasks := remove1 t (w_tasks w)\<rparr>) = (u, w')"
  from stays_run [OF quiet.stays_task this] show ?thesis by (rule quiet_playable) (simp add: assms(3))
next
  fix m r assume "run_state (upload_handler (sv_services sv) T st (sv_search sv) m) w = (r, w')"
  from postD [OF upload_playable [OF assms(3)] this] show ?thesis .
next
  fix m q assume "run_state (analytics_handler (sv_services sv) m) w = (q, w')"
  from stays_run [OF quiet_play this] show ?thesis by (rule quiet_playable [OF _ assms(3)])
qed (simp_all add: assms(3))

lemma history_playable:
  "engine_ok (sv_engine sv) \<Longrightarrow> history sv T st w w' \<Longrightarrow> playable_except X (w_db w) \<Longrightarrow> playable_except X (w_db w')"
  by (rotate_tac, induction rule: rtranclp_induct) (auto intro: moves_playable)

section \<open>A concrete move\<close>

abbreviation lab_moves :: "nat world \<Rightarrow> nat world \<Rightarrow> bool" where
  "lab_moves \<equiv> moves lab_server lab_tools (Some \<lparr>st_bucket = ''b''\<rparr>)"

text \<open>The upload of the laboratory's one track.\<close>

lemma lab_move:
  obtains w' where "lab_moves (lab_world lab_db) w'" "status_in (w_db w') ''t'' = Some ''ready''"
proof -
  obtain w' where run: "run_state (process lab lab_tools (Some \<lparr>st_bucket = ''b''\<rparr>) None lab_event) (lab_world lab_db) = (Inr (), w')"
    using lab_upload by blast
  have "transcoded (w_db w') ''t'' ''t''"
    using postD [OF process_success [OF lab_pending] run] by (simp add: lab_event_def)
  moreover have "run_state (upload_handler (sv_services lab_server) lab_tools (Some \<lparr>st_bucket = ''b''\<rparr>) (sv_search lab_server)
      (Doc (upload_event_json ''t'' ''k''))) (lab_world lab_db) = (Inr (), w')"
    using run by (simp add: upload_handler_def dec_upload_event lab_server_def lab_event_def)
  ultimately show thesis by (intro that [of w'] moves.move_upload) (simp_all add: transcoded_def)
qed

section \<open>Results\<close>

text \<open>
  C2. Every transition of the program is a sequence of single statements of the listed kinds: no
  request, goroutine or message changes the tables in any other way.
\<close>

theorem entry_points_are_statements:
  assumes "engine_ok (sv_engine sv)" and "moves sv T st w w'"
  shows "db_steps (w_db w) (w_db w')"
  by (rule steps.moves_in [OF assms])

theorem entry_points_are_statements_witness:
  "\<exists>w'. lab_moves (lab_world lab_db) w' \<and> db_steps lab_db (w_db w') \<and> w_db w' \<noteq> lab_db"
proof -
  obtain w' where w': "lab_moves (lab_world lab_db) w'" "status_in (w_db w') ''t'' = Some ''ready''" by (rule lab_move)
  from entry_points_are_statements [OF lab_engine_of w'(1)] w' lab_pending(2) show ?thesis by auto
qed

text \<open>
  C1. In every interleaving of the program's statements, from empty tables on: primary keys and unique
  columns stay unique, every reference points to a row, the play counter of a track is the number of
  its play events, and a track's status is one of the four the pipeline knows.
\<close>

theorem tables_stay_sound:
  assumes "reachable d"
  shows "keys_ok d \<and> refs_ok d \<and> plays_counted d \<and> known_status d"
  using reachable_tables_ok [OF assms] by (simp add: tables_ok_def db_ok_def)

theorem tables_stay_sound_witness:
  "let d = empty_db\<lparr>d_artists := [\<lparr>ar_id = ''1'', ar_name = ''Ann'', ar_created = 1\<rparr>]\<rparr> in
     reachable d \<and> keys_ok d \<and> refs_ok d \<and> plays_counted d \<and> known_status d"
proof -
  let ?d = "empty_db\<lparr>d_artists := [\<lparr>ar_id = ''1'', ar_name = ''Ann'', ar_created = 1\<rparr>]\<rparr>"
  have "ins_artist ''Ann'' ((lab_env 1)\<lparr>e_id := ''1''\<rparr>) empty_db = Some (\<lparr>ar_id = ''1'', ar_name = ''Ann'', ar_created = 1\<rparr>, ?d)"
    by (simp add: ins_artist_def insert_row_def empty_db_def Let_def)
  then have "reachable ?d" unfolding reachable_def by (intro r_into_rtranclp step_artist)
  from tables_stay_sound [OF this] this show ?thesis by (simp add: Let_def)
qed

text \<open>
  C3. Over any history of requests, goroutines and messages, from any tables: a ready track has stored
  formats at 64, 128 and 320 kbit/s, so that it can be streamed at every quality, unless it was ready
  without them when the history began (a track of the seed data, or from before the transcoding). No
  track becomes ready without its formats, and none loses one.
\<close>

theorem ready_tracks_are_playable:
  assumes "engine_ok (sv_engine sv)" and "history sv T st w w'"
    and "t \<in> set (d_tracks (w_db w'))" and "tr_status t = ''ready''" and "\<not> legacy_track (w_db w) (tr_id t)"
    and "b \<in> {64, 128, 320}"
  shows "\<exists>f \<in> set (d_formats (w_db w')). tf_track f = tr_id t \<and> tf_bitrate f = b \<and> tf_codec f = ''ogg''"
proof -
  obtain f where "f \<in> set (d_formats (w_db w'))" "fmt_key f = (tr_id t, b, ''ogg'')"
    using history_playable [OF assms(1,2) playable_legacy] assms(3-6) unfolding playable_except_def by blast
  then show ?thesis by (auto simp: fmt_key_def)
qed

theorem ready_tracks_are_playable_witness:
  "\<exists>w'. lab_moves (lab_world lab_db) w' \<and>
     (\<exists>f \<in> set (d_formats (w_db w')). tf_track f = ''t'' \<and> tf_bitrate f = 128 \<and> tf_codec f = ''ogg'')"
proof -
  obtain w' where w': "lab_moves (lab_world lab_db) w'" "status_in (w_db w') ''t'' = Some ''ready''" by (rule lab_move)
  obtain t where t: "t \<in> set (d_tracks (w_db w'))" "tr_id t = ''t''" "tr_status t = ''ready''"
    using w'(2) by (auto simp: status_in_def dest: track_by_id_SomeD)
  have fresh: "\<not> legacy_track (w_db (lab_world lab_db)) (tr_id t)"
    by (simp add: legacy_track_def lab_db_def lab_track_def)
  from ready_tracks_are_playable [OF lab_engine_of r_into_rtranclp [of lab_moves, OF w'(1)] t(1,3) fresh, of 128] w'(1) t(2)
  show ?thesis by auto
qed

text \<open>
  C33. Over any history, play events and audit records are only added (an erased user's id is the one
  thing that is removed from a record).
\<close>

theorem trails_only_grow:
  assumes "engine_ok (sv_engine sv)" and "history sv T st w w'"
  shows "\<exists>es as. d_events (w_db w') = d_events (w_db w) @ es \<and> trail (w_db w') = trail (w_db w) @ as"
  using history.history_in [OF assms] unfolding grows_def by blast

theorem trails_only_grow_witness:
  "\<exists>w' es as. lab_moves (lab_world lab_db) w' \<and> d_events (w_db w') = d_events lab_db @ es \<and>
     trail (w_db w') = trail lab_db @ as"
proof -
  obtain w' where w': "lab_moves (lab_world lab_db) w'" by (rule lab_move)
  from trails_only_grow [OF lab_engine_of r_into_rtranclp [of lab_moves, OF w']] w' show ?thesis by auto
qed

text \<open>
  C32. Over any history, a track never disappears, changes its artist or loses plays, and never returns
  to \<open>pending\<close>, the only status that the upload worker takes up.
\<close>

theorem tracks_move_forward:
  assumes "engine_ok (sv_engine sv)" and "history sv T st w w'" and "t \<in> set (d_tracks (w_db w))"
  shows "\<exists>t' \<in> set (d_tracks (w_db w')). tr_id t' = tr_id t \<and> tr_artist t' = tr_artist t \<and> tr_plays t \<le> tr_plays t' \<and>
     (tr_status t \<noteq> ''pending'' \<longrightarrow> tr_status t' \<noteq> ''pending'')"
  using progress.history_in [OF assms(1,2)] assms(3) unfolding forward_def moved_on_def by blast

theorem tracks_move_forward_witness:
  "\<exists>w'. lab_moves (lab_world lab_db) w' \<and> (\<exists>t' \<in> set (d_tracks (w_db w')). tr_id t' = ''t'' \<and> 0 \<le> tr_plays t')"
proof -
  obtain w' where w': "lab_moves (lab_world lab_db) w'" by (rule lab_move)
  have t: "lab_track \<in> set (d_tracks (w_db (lab_world lab_db)))" by (simp add: lab_db_def)
  from tracks_move_forward [OF lab_engine_of r_into_rtranclp [of lab_moves, OF w'] t] w' show ?thesis
    by (auto simp: lab_track_def)
qed

end
