(* ===== verification/Column_Types.thy ===== *)
theory Column_Types
  imports Program
begin

text \<open>
  The types of the numeric columns of \<open>internal/db/postgres.go\<close> (\<open>INT\<close>, \<open>BIGINT\<close>, \<open>SMALLINT\<close>) and of
  the Go variables the handlers scan them into. Each statement refuses a value its column cannot
  hold, so every reachable state is well typed, and every row a handler reads fits the Go fields.
\<close>

section \<open>Well-typed rows\<close>

definition track_fits :: "track \<Rightarrow> bool" where
  "track_fits t \<longleftrightarrow> int32 (tr_duration t) \<and> int64 (tr_plays t)"

definition format_fits :: "track_format \<Rightarrow> bool" where
  "format_fits f \<longleftrightarrow> int32 (tf_bitrate f) \<and> int64 (tf_size f)"

definition user_fits :: "user \<Rightarrow> bool" where
  "user_fits u \<longleftrightarrow> int32 (us_terms u)"

definition entry_fits :: "playlist_track \<Rightarrow> bool" where
  "entry_fits p \<longleftrightarrow> int32 (pt_position p)"

definition event_fits :: "play_event \<Rightarrow> bool" where
  "event_fits p \<longleftrightarrow> pred_option int32 (pe_ms p)"

definition audit_fits :: "audit_row \<Rightarrow> bool" where
  "audit_fits a \<longleftrightarrow> int16 (au_status a)"

lemmas row_fits_defs = track_fits_def format_fits_def user_fits_def entry_fits_def event_fits_def audit_fits_def

definition columns_fit :: "db \<Rightarrow> bool" where
  "columns_fit d \<longleftrightarrow> list_all track_fits (d_tracks d) \<and> list_all format_fits (d_formats d) \<and>
     list_all user_fits (d_users d) \<and> list_all entry_fits (d_ptracks d) \<and>
     list_all event_fits (d_events d) \<and> list_all audit_fits (d_audits d)"

lemma columns_fit_empty [simp, intro]: "columns_fit empty_db"
  by (simp add: columns_fit_def empty_db_def)

section \<open>Preservation\<close>

lemma list_all_update: "list_all P xs \<Longrightarrow> (\<And>x. P x \<Longrightarrow> Q x \<Longrightarrow> P (f x)) \<Longrightarrow> list_all P (update_where Q f xs)"
  by (auto simp: list_all_iff set_update_where)

lemma list_all_delete: "list_all P xs \<Longrightarrow> list_all P (delete_where Q xs)"
  by (simp add: list_all_iff)

lemma list_all_ignore: "list_all P xs \<Longrightarrow> P x \<Longrightarrow> list_all P (insert_or_ignore key x xs)"
  by (simp add: insert_or_ignore_def)

lemmas fit_intros = list_all_update list_all_delete list_all_ignore

lemmas statement_splits = option.splits if_splits

lemma step_track_fits:
  assumes "db_step d d'" and "list_all track_fits (d_tracks d)"
  shows "list_all track_fits (d_tracks d')"
  using assms(1)
proof (cases rule: db_step.cases)
  case step_track
  with assms(2) show ?thesis by (auto simp: op_defs track_fits_def int32_def int64_def Let_def split: statement_splits)
next
  case step_processing
  with assms(2) show ?thesis by (auto simp: op_defs track_fits_def Let_def intro!: fit_intros split: statement_splits)
next
  case step_error
  with assms(2) show ?thesis by (auto simp: op_defs track_fits_def Let_def intro!: fit_intros split: statement_splits)
next
  case step_ready
  with assms(2) show ?thesis by (auto simp: op_defs track_fits_def Let_def intro!: fit_intros split: statement_splits)
next
  case (step_play cast i src e1 x d1 e2 y)
  then have "d_tracks d1 = d_tracks d" by (auto dest!: frames(17))
  with step_play(2) assms(2) show ?thesis
    by (auto simp: upd_play_count_def track_fits_def list_all_iff set_update_where split: statement_splits)
qed ((drule frames)+, elim exE, simp add: assms(2))+

lemma step_format_fits:
  assumes "db_step d d'" and "list_all format_fits (d_formats d)"
  shows "list_all format_fits (d_formats d')"
  using assms(1)
proof (cases rule: db_step.cases)
  case (step_format cast i bitrate key bytes e x)
  then show ?thesis
    using assms(2) by (cases rule: ins_format_shape) (auto simp: format_fits_def intro!: fit_intros)
qed ((drule frames)+, elim exE, simp add: assms(2))+

lemma step_user_fits:
  assumes "db_step d d'" and "list_all user_fits (d_users d)"
  shows "list_all user_fits (d_users d')"
  using assms(1)
proof (cases rule: db_step.cases)
  case step_user
  with assms(2) show ?thesis by (auto simp: op_defs user_fits_def Let_def split: statement_splits)
next
  case step_soft_delete
  with assms(2) show ?thesis
    by (auto simp: op_defs user_fits_def soft_deleted_def Let_def intro!: fit_intros split: statement_splits)
next
  case step_del_user
  with assms(2) show ?thesis by (auto simp: op_defs Let_def intro!: fit_intros split: statement_splits)
qed ((drule frames)+, elim exE, simp add: assms(2))+

lemma step_entry_fits:
  assumes "db_step d d'" and "list_all entry_fits (d_ptracks d)"
  shows "list_all entry_fits (d_ptracks d')"
  using assms(1)
proof (cases rule: db_step.cases)
  case step_add
  with assms(2) show ?thesis
    by (auto simp: ins_playlist_track_def entry_fits_def int32_def Let_def intro!: fit_intros split: statement_splits)
next
  case step_del_playlist
  with assms(2) show ?thesis by (auto simp: del_playlist_def list_all_iff Let_def split: statement_splits)
next
  case step_remove
  with assms(2) show ?thesis by (auto simp: del_playlist_track_def Let_def intro!: fit_intros split: statement_splits)
qed ((drule frames)+, elim exE, simp add: assms(2))+

lemma step_event_fits:
  assumes "db_step d d'" and "list_all event_fits (d_events d)"
  shows "list_all event_fits (d_events d')"
  using assms(1)
proof (cases rule: db_step.cases)
  case (step_play cast i src e1 x d1 e2 y)
  then have "d_events d' = d_events d1" by (auto dest!: frames(18))
  with step_play(1) assms(2) show ?thesis
    by (auto simp: ins_play_event_def event_fits_def Let_def split: statement_splits)
qed ((drule frames)+, elim exE, simp add: assms(2))+

lemma step_audit_fits:
  assumes "db_step d d'" and "list_all audit_fits (d_audits d)"
  shows "list_all audit_fits (d_audits d')"
  using assms(1)
proof (cases rule: db_step.cases)
  case step_audit
  with assms(2) show ?thesis by (auto simp: ins_audit_def audit_fits_def Let_def split: statement_splits)
next
  case step_del_user
  with assms(2) show ?thesis by (auto simp: op_defs audit_fits_def Let_def intro!: fit_intros split: statement_splits)
qed ((drule frames)+, elim exE, simp add: assms(2))+

lemma step_columns_fit: "db_step d d' \<Longrightarrow> columns_fit d \<Longrightarrow> columns_fit d'"
  unfolding columns_fit_def
  by (intro conjI; elim conjE)
    (rule step_track_fits step_format_fits step_user_fits step_entry_fits step_event_fits step_audit_fits; assumption)+

interpretation types: table_contract "kept columns_fit"
  by (rule step_invariant_contract) (rule step_columns_fit)

section \<open>Rows as the handlers read them\<close>

lemma columns_fitD:
  assumes "columns_fit d"
  shows "t \<in> set (d_tracks d) \<Longrightarrow> track_fits t" "f \<in> set (d_formats d) \<Longrightarrow> format_fits f"
    "u \<in> set (d_users d) \<Longrightarrow> user_fits u"
  using assms by (simp_all add: columns_fit_def list_all_iff)

lemma row_ok_scan: "columns_fit d \<Longrightarrow> t \<in> set (d_tracks d) \<Longrightarrow> row_ok (scan_track t)"
  using columns_fitD(1) [of d t] by (simp add: row_ok_def scan_track_def track_fits_def int32_int64)

lemma row_ok_selected:
  assumes "columns_fit d" and "t \<in> set (d_tracks d)" and "query_rows e (sel_formats cast i) d = Some fs"
  shows "row_ok ((scan_track t)\<lparr>row_formats := fs\<rparr>)"
proof -
  have "format_ok f" if "f \<in> set fs" for f
    using query_rows_subset [OF assms(3) that] columns_fitD(2) [OF assms(1)]
    by (auto simp: sel_formats_def formats_of_def format_fits_def format_ok_def scan_format_def
        intro: int32_int64 split: option.splits)
  with row_ok_scan [OF assms(1,2)] show ?thesis by (simp add: row_ok_def)
qed

section \<open>Results\<close>

text \<open>
  C5. Type soundness of the tables: over any history every numeric column holds a value of its SQL type,
  and the row of a track with the formats that a handler selects for it survives the cache unchanged.
\<close>

theorem rows_keep_their_types:
  assumes "engine_ok (sv_engine sv)" and "columns_fit (w_db w)" and "history sv T st w w'"
  shows "columns_fit (w_db w') \<and>
     (\<forall>t \<in> set (d_tracks (w_db w')). \<forall>e i fs. query_rows e (sel_formats (svc_cast S) i) (w_db w') = Some fs \<longrightarrow>
        dec_track (enc_track ((scan_track t)\<lparr>row_formats := fs\<rparr>)) = Some ((scan_track t)\<lparr>row_formats := fs\<rparr>))"
proof -
  have "columns_fit (w_db w')" using types.history_in [OF assms(1,3)] assms(2) by (simp add: kept_def)
  then show ?thesis by (auto intro!: dec_enc_track row_ok_selected)
qed

lemma lab_columns_fit: "columns_fit lab_db"
  by (simp add: columns_fit_def row_fits_defs lab_db_def lab_track_def lab_user_def empty_db_def int32_def int64_def)

theorem rows_keep_their_types_witness:
  "\<exists>w'. lab_moves (lab_world lab_db) w' \<and> columns_fit (w_db w') \<and> status_in (w_db w') ''t'' = Some ''ready''"
proof -
  obtain w' where w': "lab_moves (lab_world lab_db) w'" "status_in (w_db w') ''t'' = Some ''ready''" by (rule lab_move)
  have "columns_fit (w_db (lab_world lab_db))" by (simp add: lab_columns_fit)
  from rows_keep_their_types [OF lab_engine_of this r_into_rtranclp [of lab_moves, OF w'(1)]] w' show ?thesis by blast
qed

end
