(* ===== verification/Progress.thy ===== *)
theory Progress
  imports Pipeline
begin

text \<open>
  Liveness of the upload pipeline: when the database, the object store, the tools and the file system
  do what they are asked, a pending track becomes ready.
\<close>

section \<open>A world in which every call succeeds\<close>

definition answers :: "('x \<Rightarrow> nat) \<Rightarrow> ('x \<Rightarrow> 'a option \<times> 'x) \<Rightarrow> bool" where
  "answers stamp f \<longleftrightarrow> (\<forall>x. \<exists>a x'. f x = (Some a, x') \<and> stamp x \<le> stamp x')"

definition succeeds :: "('x \<Rightarrow> nat) \<Rightarrow> ('x \<Rightarrow> bool \<times> 'x) \<Rightarrow> bool" where
  "succeeds stamp f \<longleftrightarrow> (\<forall>x. \<exists>x'. f x = (True, x') \<and> stamp x \<le> stamp x')"

text \<open>
  \<open>gen_random_uuid()\<close> never repeats: the ids are \<open>gen 0\<close>, \<open>gen 1\<close>, ..., and \<open>stamp\<close> is the number of the
  next one. \<open>ffprobe\<close> prints a duration whose milliseconds fit the column, and the size of a file is an
  \<open>int64\<close>.
\<close>

definition all_up :: "'x services \<Rightarrow> 'x tools \<Rightarrow> ('x \<Rightarrow> nat) \<Rightarrow> (nat \<Rightarrow> uuid) \<Rightarrow> bool" where
  "all_up S T stamp gen \<longleftrightarrow>
     inj gen \<and> pg_always S \<and>
     (\<forall>x. e_id (fst (svc_pg S x)) = gen (stamp x) \<and> stamp x < stamp (snd (svc_pg S x))) \<and>
     (\<forall>b k. answers stamp (\<lambda>x. svc_get S x b k)) \<and> (\<forall>b k v c. succeeds stamp (\<lambda>x. svc_put S x b k v c)) \<and>
     (\<forall>p. answers stamp (\<lambda>x. tl_mktemp T x p)) \<and> (\<forall>p. succeeds stamp (\<lambda>x. tl_create T x p)) \<and>
     (\<forall>p v. succeeds stamp (\<lambda>x. tl_copy T x p v)) \<and> (\<forall>args. answers stamp (\<lambda>x. tl_exec T x args)) \<and>
     (\<forall>p. answers stamp (\<lambda>x. tl_stat T x p)) \<and> (\<forall>p. answers stamp (\<lambda>x. tl_read T x p)) \<and>
     (\<forall>x inp out x'. tl_exec T x (ffprobe_args inp) = (Some out, x') \<longrightarrow>
        (\<exists>ms. duration_of_output out = Some ms \<and> int32 ms)) \<and>
     (\<forall>x p n x'. tl_stat T x p = (Some n, x') \<longrightarrow> int64 n)"

definition ids_used :: "('x \<Rightarrow> nat) \<Rightarrow> (nat \<Rightarrow> uuid) \<Rightarrow> 'x world \<Rightarrow> bool" where
  "ids_used stamp gen w \<longleftrightarrow> tf_id ` set (d_formats (w_db w)) \<subseteq> gen ` {..<stamp (w_ext w)}"

lemma answersE:
  assumes "answers stamp f"
  obtains a x' where "f x = (Some a, x')" "stamp x \<le> stamp x'"
  using assms unfolding answers_def by blast

lemma succeedsE:
  assumes "succeeds stamp f"
  obtains x' where "f x = (True, x')" "stamp x \<le> stamp x'"
  using assms unfolding succeeds_def by blast

lemma all_upD:
  assumes "all_up S T stamp gen"
  shows "inj gen" "answers stamp (\<lambda>x. svc_get S x bk k)" "succeeds stamp (\<lambda>x. svc_put S x bk k v c)"
    "answers stamp (\<lambda>x. tl_mktemp T x p)" "succeeds stamp (\<lambda>x. tl_create T x p)" "succeeds stamp (\<lambda>x. tl_copy T x p v)"
    "answers stamp (\<lambda>x. tl_exec T x args)" "answers stamp (\<lambda>x. tl_stat T x p)" "answers stamp (\<lambda>x. tl_read T x p)"
    "tl_exec T x (ffprobe_args inp) = (Some out, x') \<Longrightarrow> \<exists>ms. duration_of_output out = Some ms \<and> int32 ms"
    "tl_stat T x p = (Some n, x') \<Longrightarrow> int64 n"
  using assms unfolding all_up_def by (simp_all, blast+)

lemma pgE:
  assumes "all_up S T stamp gen"
  obtains e x' where "svc_pg S x = (e, x')" "e_fault e = Fine" "e_id e = gen (stamp x)" "stamp x < stamp x'"
proof -
  have "e_fault (fst (svc_pg S x)) = Fine" "e_id (fst (svc_pg S x)) = gen (stamp x)" "stamp x < stamp (snd (svc_pg S x))"
    using assms by (simp_all add: all_up_def pg_always_def)
  then show thesis by (intro that [of "fst (svc_pg S x)" "snd (svc_pg S x)"]) simp_all
qed

section \<open>The insertion of a format\<close>

lemma ins_format_up:
  assumes "cast i = Some u" and "u \<in> track_ids d" and "e_id e \<notin> tf_id ` set (d_formats d)"
    and "int32 b" and "int64 bytes"
  obtains d' where "ins_format cast i b key bytes e d = Some ((), d')" "d_tracks d' = d_tracks d"
    "tf_id ` set (d_formats d') \<subseteq> insert (e_id e) (tf_id ` set (d_formats d))"
proof -
  have "ins_format cast i b key bytes e d \<noteq> None"
    using assms(1,3-5) by (simp add: ins_format_def Let_def insert_row_def assms(2))
  then obtain d' where d': "ins_format cast i b key bytes e d = Some ((), d')" by auto
  have "tf_id ` set (d_formats d') \<subseteq> insert (e_id e) (tf_id ` set (d_formats d))"
    using d' assms(1) by (auto simp: ins_format_def Let_def insert_row_def set_update_where split: if_splits)
  with d' frames(16) [OF d'] that show thesis by auto
qed

lemma encode_one_up:
  assumes "all_up S T stamp gen" and "svc_cast S i = Some u" and "u \<in> track_ids (w_db w)" and "ids_used stamp gen w"
    and "int32 b"
  shows "\<exists>w'. run_state (encode_one S T st inp i dir b) w = (Inr (), w') \<and> d_tracks (w_db w') = d_tracks (w_db w) \<and>
     ids_used stamp gen w'"
proof -
  let ?out = "path_join dir (itoa b @ ''.ogg'')"
  note up = all_upD [OF assms(1)]
  obtain o1 x1 where x1: "tl_exec T (w_ext w) (ffmpeg_args inp b ?out) = (Some o1, x1)" "stamp (w_ext w) \<le> stamp x1"
    by (rule answersE [OF up(7)])
  obtain n x2 where x2: "tl_stat T x1 ?out = (Some n, x2)" "stamp x1 \<le> stamp x2"
    by (rule answersE [OF up(8)])
  obtain v x3 where x3: "tl_read T x2 ?out = (Some v, x3)" "stamp x2 \<le> stamp x3"
    by (rule answersE [OF up(9)])
  obtain x4 where x4: "svc_put S x3 (st_bucket st) (format_key i b) v ''audio/ogg'' = (True, x4)" "stamp x3 \<le> stamp x4"
    by (rule succeedsE [OF up(3)])
  obtain e x5 where x5: "svc_pg S x4 = (e, x5)" "e_fault e = Fine" "e_id e = gen (stamp x4)" "stamp x4 < stamp x5"
    by (rule pgE [OF assms(1)])
  have "inj gen" by (rule up(1))
  moreover have le: "stamp (w_ext w) \<le> stamp x4" using x1(2) x2(2) x3(2) x4(2) by simp
  ultimately have "e_id e \<notin> gen ` {..<stamp (w_ext w)}" unfolding x5(3) by (auto dest: injD)
  then have fresh: "e_id e \<notin> tf_id ` set (d_formats (w_db w))" using assms(4) unfolding ids_used_def by blast
  obtain d' where d': "ins_format (svc_cast S) i b (format_key i b) n e (w_db w) = Some ((), d')"
    "d_tracks d' = d_tracks (w_db w)" "tf_id ` set (d_formats d') \<subseteq> insert (e_id e) (tf_id ` set (d_formats (w_db w)))"
    by (rule ins_format_up [where cast = "svc_cast S" and i = i, OF assms(2,3) fresh assms(5) up(11) [OF x2(1)]])
  have "gen ` {..<stamp (w_ext w)} \<subseteq> gen ` {..<stamp x5}" using le x5(4) by (intro image_mono) auto
  with assms(4) have "tf_id ` set (d_formats (w_db w)) \<subseteq> gen ` {..<stamp x5}"
    unfolding ids_used_def by (rule order_trans)
  moreover have "e_id e \<in> gen ` {..<stamp x5}" using x5(3,4) by simp
  ultimately have "tf_id ` set (d_formats d') \<subseteq> gen ` {..<stamp x5}"
    by (intro order_trans [OF d'(3)]) simp
  then show ?thesis
    using x1 x2 x3 x4 x5 d'
    by (simp add: encode_one_def transcode_def Let_def service_defs run_sql exec_stmt_fine ids_used_def)
qed

lemma encode_all_up:
  assumes "all_up S T stamp gen" and "svc_cast S i = Some u"
  shows "u \<in> track_ids (w_db w) \<Longrightarrow> ids_used stamp gen w \<Longrightarrow> list_all int32 bs \<Longrightarrow>
     \<exists>w'. run_state (encode_all S T st inp i dir bs) w = (Inr (), w') \<and> d_tracks (w_db w') = d_tracks (w_db w)"
proof (induction bs arbitrary: w)
  case (Cons b bs)
  obtain v where v: "run_state (encode_one S T st inp i dir b) w = (Inr (), v)" "d_tracks (w_db v) = d_tracks (w_db w)"
    "ids_used stamp gen v"
    using encode_one_up [OF assms Cons.prems(1,2)] Cons.prems(3) by fastforce
  from Cons.IH [OF _ v(3)] Cons.prems(1,3) v(1,2) show ?case by auto
qed simp

lemma Bitrates_int32: "list_all int32 Bitrates"
  by (simp add: Bitrates_def int32_def)

section \<open>The whole run\<close>

lemma set_ready_up:
  assumes "all_up S T stamp gen" and "svc_cast S i = Some u" and "int32 ms"
  shows "\<exists>w'. run_state (set_ready S sc i ms) w = (Inr (), w')"
proof -
  obtain e x where e: "svc_pg S (w_ext w) = (e, x)" "e_fault e = Fine" by (rule pgE [OF assms(1)])
  obtain n d where "upd_ready (svc_cast S) ms i e (w_db w) = Some (n, d)"
    using assms(2,3) by (simp add: upd_ready_def Let_def)
  with e show ?thesis
    by (cases "run_state (index_track S sc i) (w\<lparr>w_ext := x, w_db := d\<rparr>)") (simp add: set_ready_def run_sql exec_stmt_fine)
qed

lemma transcode_track_up:
  assumes "all_up S T stamp gen" and "svc_cast S (ue_track ev) = Some u" and "u \<in> track_ids (w_db w)"
    and "ids_used stamp gen w"
  shows "\<exists>w'. run_state (transcode_track S T (Some st) sc dir ev) w = (Inr (), w')"
proof -
  let ?i = "ue_track ev" and ?inp = "path_join dir ''input''"
  note up = all_upD [OF assms(1)]
  obtain v x1 where x1: "svc_get S (w_ext w) (st_bucket st) (ue_audio ev) = (Some v, x1)" "stamp (w_ext w) \<le> stamp x1"
    by (rule answersE [OF up(2)])
  obtain x2 where x2: "tl_create T x1 ?inp = (True, x2)" "stamp x1 \<le> stamp x2"
    by (rule succeedsE [OF up(5)])
  obtain x3 where x3: "tl_copy T x2 ?inp v = (True, x3)" "stamp x2 \<le> stamp x3"
    by (rule succeedsE [OF up(6)])
  obtain out x4 where x4: "tl_exec T x3 (ffprobe_args ?inp) = (Some out, x4)" "stamp x3 \<le> stamp x4"
    by (rule answersE [OF up(7)])
  obtain ms where ms: "duration_of_output out = Some ms" "int32 ms" using up(10) [OF x4(1)] by blast
  let ?w = "w\<lparr>w_ext := x4\<rparr>"
  have "gen ` {..<stamp (w_ext w)} \<subseteq> gen ` {..<stamp x4}"
    using x1(2) x2(2) x3(2) x4(2) by (intro image_mono) auto
  then have used: "ids_used stamp gen ?w" using assms(4) by (auto simp: ids_used_def)
  have ids: "u \<in> track_ids (w_db ?w)" using assms(3) by simp
  from used obtain w1 where w1: "run_state (encode_all S T st ?inp ?i dir Bitrates) ?w = (Inr (), w1)"
    using encode_all_up [OF assms(1,2) ids] Bitrates_int32 by blast
  from set_ready_up [OF assms(1,2) ms(2), of sc w1] show ?thesis
    using x1 x2 x3 x4 ms w1
    by (auto simp: transcode_track_def downloadFromS3_def probeDuration_def service_defs Let_def)
qed

text \<open>
  C9. When every call does what it is asked, the upload worker takes a pending track all the way: the
  run succeeds, and the track is ready with its three formats.
\<close>

theorem upload_completes:
  assumes "all_up S T stamp gen" and "ids_used stamp gen w"
    and "svc_cast S (ue_track ev) = Some u" and "status_in (w_db w) u = Some ''pending''"
  shows "\<exists>w'. run_state (process S T (Some st) sc ev) w = (Inr (), w') \<and> status_in (w_db w') u = Some ''ready'' \<and>
     (\<forall>b \<in> {64, 128, 320}. has_format (w_db w') (ue_track ev) u b)"
proof -
  let ?i = "ue_track ev"
  note up = all_upD [OF assms(1)]
  obtain e x where e: "svc_pg S (w_ext w) = (e, x)" "e_fault e = Fine" "stamp (w_ext w) < stamp x" by (rule pgE [OF assms(1)])
  obtain e1 x1 where e1: "svc_pg S x = (e1, x1)" "e_fault e1 = Fine" "stamp x < stamp x1" by (rule pgE [OF assms(1)])
  obtain n d where d: "upd_processing (svc_cast S) ?i e1 (w_db w) = Some (n, d)"
    using assms(3) by (simp add: upd_processing_def Let_def)
  obtain dir x2 where x2: "tl_mktemp T x1 (''transcode-'' @ ?i) = (Some dir, x2)" "stamp x1 \<le> stamp x2"
    by (rule answersE [OF up(4)])
  let ?w = "w\<lparr>w_db := d, w_ext := x2\<rparr>"
  have "status_in d u = Some ''processing''" "d_formats d = d_formats (w_db w)"
    using upd_processing_effect [OF d assms(3,4)] by auto
  then have ids: "u \<in> track_ids (w_db ?w)" and "d_formats (w_db ?w) = d_formats (w_db w)"
    by (auto simp: status_in_def dest: track_by_id_SomeD)
  moreover have "gen ` {..<stamp (w_ext w)} \<subseteq> gen ` {..<stamp x2}"
    using e(3) e1(3) x2(2) by (intro image_mono) auto
  ultimately have "ids_used stamp gen ?w" using assms(2) by (auto simp: ids_used_def)
  then obtain w1 where w1: "run_state (transcode_track S T (Some st) sc dir ev) ?w = (Inr (), w1)"
    using transcode_track_up [OF assms(1,3) ids] by blast
  have "run_state (process S T (Some st) sc ev) w = (Inr (), w1\<lparr>w_ext := tl_remove_all T (w_ext w1) dir\<rparr>)"
    using e e1 d x2 w1 sel_status_row [of "svc_cast S" ?i u "w_db w" "''pending''" e, OF assms(3,4)]
    by (simp add: process_def take_up_def in_temp_dir_def Let_def run_sql exec_stmt_fine)
  from this postD [OF process_success [OF assms(3,4)] this] show ?thesis
    by (intro exI [of _ "w1\<lparr>w_ext := tl_remove_all T (w_ext w1) dir\<rparr>"]) (simp add: transcoded_def Bitrates_def)
qed

lemma lab_all_up: "all_up lab lab_tools id nat_digits"
proof -
  have "inj nat_digits" by (rule injI) simp
  moreover have "int32 12500" "int64 7" by (simp_all add: int32_def int64_def)
  ultimately show ?thesis by (simp add: all_up_def answers_def succeeds_def lab_duration)
qed

theorem upload_completes_witness:
  "\<exists>w'. run_state (process lab lab_tools (Some \<lparr>st_bucket = ''b''\<rparr>) None lab_event) (lab_world lab_db) = (Inr (), w') \<and>
     status_in (w_db w') ''t'' = Some ''ready''"
proof -
  have "ids_used id nat_digits (lab_world lab_db)" by (simp add: ids_used_def lab_db_def empty_db_def)
  from upload_completes [OF lab_all_up this lab_pending] show ?thesis by blast
qed

end
