(* ===== verification/Lifecycle.thy ===== *)
theory Lifecycle
  imports Access Column_Types Progress "HOL-Library.Multiset"
begin

text \<open>
  The life of both processes: the tail of \<open>main\<close> in \<open>cmd/worker/main.go\<close> (two consumer loops, the
  goroutine that cancels their context on a signal, the return that ends the process) and in
  \<open>cmd/api/main.go\<close> (the listener, its requests and goroutines, \<open>Shutdown\<close> with its deadline). A
  step of a loop is one record, a step of the server one request or goroutine; other processes and
  the outside world move between the steps.
\<close>

section \<open>The context of a worker\<close>

text \<open>
  \<open>done\<close> says of a state of the outside world that the context has been cancelled. Every call that takes
  the context then reports the context's error without acting; \<open>ffmpeg\<close> and the file system do not
  take it.
\<close>

definition under_ctx :: "('x \<Rightarrow> bool) \<Rightarrow> 'x services \<Rightarrow> 'x services" where
  "under_ctx cancelled S = S\<lparr>
     svc_pg := (\<lambda>x. if cancelled x then ((fst (svc_pg S x))\<lparr>e_fault := Refused\<rparr>, x) else svc_pg S x),
     svc_put := (\<lambda>x b k v c. if cancelled x then (False, x) else svc_put S x b k v c),
     svc_get := (\<lambda>x b k. if cancelled x then (None, x) else svc_get S x b k),
     svc_http := (\<lambda>x rq. if cancelled x then (None, x) else svc_http S x rq)\<rparr>"

lemma under_ctx_cast [simp]: "svc_cast (under_ctx cancelled S) = svc_cast S"
  by (simp add: under_ctx_def)

lemma under_ctx_done [simp]:
  assumes "cancelled x"
  shows "svc_pg (under_ctx cancelled S) x = ((fst (svc_pg S x))\<lparr>e_fault := Refused\<rparr>, x)"
    "svc_put (under_ctx cancelled S) x b k v c = (False, x)" "svc_get (under_ctx cancelled S) x b k = (None, x)"
  using assms by (simp_all add: under_ctx_def)

lemma under_ctx_live [simp]:
  assumes "\<not> cancelled x"
  shows "svc_pg (under_ctx cancelled S) x = svc_pg S x"
    "svc_put (under_ctx cancelled S) x b k v c = svc_put S x b k v c"
    "svc_get (under_ctx cancelled S) x b k = svc_get S x b k"
  using assms by (simp_all add: under_ctx_def)

lemma sql_done:
  "cancelled (w_ext w) \<Longrightarrow> run_state (sql (under_ctx cancelled S) st) w = (None, w)"
  by (simp add: run_sql exec_stmt_def)

text \<open>A handler that is called after the cancellation fails at its first statement.\<close>

lemma upload_done:
  assumes "cancelled (w_ext w)"
  shows "\<exists>err. run_state (upload_handler (under_ctx cancelled S) T st sc m) w = (Inl err, w)"
  using assms by (cases "dec_upload m") (auto simp: upload_handler_def process_def take_up_def Let_def sql_done)

lemma analytics_done:
  assumes "cancelled (w_ext w)"
  shows "\<exists>err. run_state (analytics_handler (under_ctx cancelled S) m) w = (Inl err, w)"
  using assms by (cases "dec_play m") (auto simp: analytics_handler_def analytics_record_def tx_begin_def)

section \<open>The consumer loop, step by step\<close>

datatype loop = Polling | Batch "krec list" | Returned

text \<open>
  \<open>PollFetches\<close> returns records; the context is looked at before they are handled, and not again
  until the whole batch is.
\<close>

inductive consume_step ::
    "('x \<Rightarrow> bool) \<Rightarrow> (doc \<Rightarrow> ('x, 'e + unit) run) \<Rightarrow>
     'x world \<times> loop \<times> krec list \<Rightarrow> 'x world \<times> loop \<times> krec list \<Rightarrow> bool"
  for cancelled :: "'x \<Rightarrow> bool" and h :: "doc \<Rightarrow> ('x, 'e + unit) run"
where
  consume_return: "cancelled (w_ext w) \<Longrightarrow> consume_step cancelled h (w, Polling, ms) (w, Returned, ms)"
| consume_fetch: "\<not> cancelled (w_ext w) \<Longrightarrow> consume_step cancelled h (w, Polling, ms) (w, Batch rs, ms)"
| consume_record: "run_state (h (kr_value r)) w = (res, w') \<Longrightarrow>
    consume_step cancelled h (w, Batch (r # rs), ms)
      (w', Batch rs, case res of Inl _ \<Rightarrow> ms | Inr _ \<Rightarrow> ms @ [r])"
| consume_again: "consume_step cancelled h (w, Batch [], ms) (w, Polling, ms)"

inductive_cases consume_stepE: "consume_step cancelled h (w, l, ms) (w', l', ms')"

text \<open>
  The steps of a loop that nothing interrupts compute what \<open>consume\<close> does, as long as no record ends the
  process.
\<close>

primrec survives :: "(doc \<Rightarrow> ('x, 'e + unit) run) \<Rightarrow> krec list \<Rightarrow> 'x world \<Rightarrow> bool" where
  "survives h [] w \<longleftrightarrow> \<not> w_crashed w"
| "survives h (r # rs) w \<longleftrightarrow> \<not> w_crashed w \<and> survives h rs (snd (run_state (h (kr_value r)) w))"

lemma survives_alive: "survives h rs w \<Longrightarrow> \<not> w_crashed w"
  by (cases rs) simp_all

lemma survives_append: "survives h (rs @ ss) w \<Longrightarrow> survives h rs w \<and> survives h ss (world_after h rs w)"
  by (induction rs arbitrary: w) (auto dest: survives_alive)

lemma steps_of_batch:
  "survives h rs w \<Longrightarrow>
     (consume_step cancelled h)\<^sup>*\<^sup>* (w, Batch rs, ms) (world_after h rs w, Polling, ms @ map fst (filter snd (outcomes h rs w)))"
proof (induction rs arbitrary: w ms)
  case Nil
  then show ?case by (auto intro: consume_again)
next
  case (Cons r rs)
  obtain res w' where run: "run_state (h (kr_value r)) w = (res, w')" by fastforce
  let ?ms = "case res of Inl _ \<Rightarrow> ms | Inr _ \<Rightarrow> ms @ [r]"
  have "\<not> w_crashed w" "survives h rs w'" using Cons.prems run by auto
  with Cons.IH [of w' ?ms] consume_record [of h r w res w' cancelled rs ms, OF run] run show ?case
    by (cases res) (auto intro: converse_rtranclp_into_rtranclp)
qed

lemma steps_of_consume:
  "survives h (concat bs) w \<Longrightarrow>
     (consume_step (\<lambda>_. False) h)\<^sup>*\<^sup>* (w, Polling, ms)
       (snd (run_state (consume h bs) w), Polling, ms @ fst (run_state (consume h bs) w))"
proof (induction bs arbitrary: w ms)
  case (Cons b bs)
  let ?v = "world_after h b w" and ?ms = "ms @ map fst (filter snd (outcomes h b w))"
  have s: "survives h b w" "survives h (concat bs) ?v" using survives_append Cons.prems by auto
  have "consume_step (\<lambda>_. False) h (w, Polling, ms) (w, Batch b, ms)" by (rule consume_fetch) simp
  also note steps_of_batch [OF s(1)]
  also note Cons.IH [OF s(2), of ?ms]
  finally show ?case by (simp add: run_consume outcomes_append world_after_append del: consume.simps)
qed simp

section \<open>The worker process\<close>

record worker =
  wk_uploads :: loop
  wk_plays :: loop
  wk_up_marks :: "krec list"
  wk_play_marks :: "krec list"
  wk_exited :: bool

text \<open>
  The upload loop runs in a goroutine, the analytics loop in \<open>main\<close>: when the analytics loop returns,
  \<open>main\<close> returns and the process ends, whatever the upload loop is doing. A panic ends it as well.
\<close>

inductive worker_step ::
    "('x \<Rightarrow> bool) \<Rightarrow> 'x services \<Rightarrow> 'x tools \<Rightarrow> storage option \<Rightarrow> os_client option \<Rightarrow>
     'x world \<times> worker \<Rightarrow> 'x world \<times> worker \<Rightarrow> bool"
  for cancelled :: "'x \<Rightarrow> bool" and S :: "'x services" and T :: "'x tools" and st :: "storage option"
    and sc :: "os_client option"
where
  worker_upload: "\<not> wk_exited k \<Longrightarrow> \<not> w_crashed w \<Longrightarrow>
    consume_step cancelled (upload_handler (under_ctx cancelled S) T st sc)
      (w, wk_uploads k, wk_up_marks k) (w', l, ms) \<Longrightarrow>
    worker_step cancelled S T st sc (w, k) (w', k\<lparr>wk_uploads := l, wk_up_marks := ms\<rparr>)"
| worker_play: "\<not> wk_exited k \<Longrightarrow> \<not> w_crashed w \<Longrightarrow>
    consume_step cancelled (analytics_handler (under_ctx cancelled S))
      (w, wk_plays k, wk_play_marks k) (w', l, ms) \<Longrightarrow>
    worker_step cancelled S T st sc (w, k) (w', k\<lparr>wk_plays := l, wk_play_marks := ms\<rparr>)"
| worker_exit: "\<not> wk_exited k \<Longrightarrow> wk_plays k = Returned \<or> w_crashed w \<Longrightarrow>
    worker_step cancelled S T st sc (w, k) (w, k\<lparr>wk_exited := True\<rparr>)"

inductive_cases worker_stepE: "worker_step cancelled S T st sc (w, k) (w', k')"

definition fresh_worker :: worker where
  "fresh_worker = \<lparr>wk_uploads = Polling, wk_plays = Polling, wk_up_marks = [], wk_play_marks = [], wk_exited = False\<rparr>"

text \<open>Between two steps other processes may do anything; a context that is cancelled stays cancelled.\<close>

definition others :: "('x \<Rightarrow> bool) \<Rightarrow> 'x world \<Rightarrow> 'x world \<Rightarrow> bool" where
  "others cancelled w v \<longleftrightarrow> (cancelled (w_ext w) \<longrightarrow> cancelled (w_ext v)) \<and> w_crashed v = w_crashed w"

text \<open>A run with the number of the worker's own steps.\<close>

inductive worker_run ::
    "('x \<Rightarrow> bool) \<Rightarrow> 'x services \<Rightarrow> 'x tools \<Rightarrow> storage option \<Rightarrow> os_client option \<Rightarrow> nat \<Rightarrow>
     'x world \<times> worker \<Rightarrow> 'x world \<times> worker \<Rightarrow> bool"
  for cancelled :: "'x \<Rightarrow> bool" and S :: "'x services" and T :: "'x tools" and st :: "storage option"
    and sc :: "os_client option"
where
  run_none: "worker_run cancelled S T st sc 0 s s"
| run_own: "worker_run cancelled S T st sc n s t \<Longrightarrow> worker_step cancelled S T st sc t u \<Longrightarrow>
    worker_run cancelled S T st sc (Suc n) s u"
| run_others: "worker_run cancelled S T st sc n s (w, k) \<Longrightarrow> others cancelled w v \<Longrightarrow>
    worker_run cancelled S T st sc n s (v, k)"

section \<open>After the signal\<close>

fun loop_work :: "loop \<Rightarrow> nat" where
  "loop_work Returned = 0"
| "loop_work Polling = 1"
| "loop_work (Batch rs) = length rs + 2"

definition work_left :: "worker \<Rightarrow> nat" where
  "work_left k = (if wk_exited k then 0 else Suc (loop_work (wk_uploads k) + loop_work (wk_plays k)))"

lemma consume_done:
  assumes "consume_step cancelled h (w, l, ms) (w', l', ms')" and "cancelled (w_ext w)"
    and "\<And>m. \<exists>err. run_state (h m) w = (Inl err, w)"
  shows "w' = w \<and> ms' = ms \<and> loop_work l' < loop_work l"
  using assms(1)
proof (cases rule: consume_step.cases)
  case (consume_record r res rs)
  with assms(3) [of "kr_value r"] show ?thesis by auto
qed (use assms(2) in auto)

lemma worker_step_done:
  assumes "worker_step cancelled S T st sc (w, k) (w', k')" and "cancelled (w_ext w)"
  shows "w' = w \<and> wk_up_marks k' = wk_up_marks k \<and> wk_play_marks k' = wk_play_marks k \<and> work_left k' < work_left k"
  using assms(1)
proof (cases rule: worker_step.cases)
  case (worker_upload l ms)
  have "\<exists>err. run_state (upload_handler (under_ctx cancelled S) T st sc m) w = (Inl err, w)" for m
    using assms(2) by (rule upload_done)
  from consume_done [where cancelled = cancelled, OF _ assms(2) this] worker_upload show ?thesis by (fastforce simp: work_left_def)
next
  case (worker_play l ms)
  have "\<exists>err. run_state (analytics_handler (under_ctx cancelled S) m) w = (Inl err, w)" for m
    using assms(2) by (rule analytics_done)
  from consume_done [where cancelled = cancelled, OF _ assms(2) this] worker_play show ?thesis by (fastforce simp: work_left_def)
qed (simp add: work_left_def)

lemma consume_can_step:
  assumes "l \<noteq> Returned"
  shows "\<exists>s. consume_step cancelled h (w, l, ms) s"
proof (cases l)
  case (Batch rs)
  then show ?thesis
    by (cases rs; cases "run_state (h (kr_value (hd rs))) w") (auto intro: consume_again consume_record)
next
  case Polling
  then show ?thesis by (cases "cancelled (w_ext w)") (auto intro: consume_return consume_fetch)
qed (simp add: assms)

lemma worker_can_step:
  assumes "\<not> wk_exited k"
  shows "\<exists>s. worker_step cancelled S T st sc (w, k) s"
proof (cases "wk_plays k = Returned \<or> w_crashed w")
  case True
  with assms show ?thesis by (blast intro: worker_exit)
next
  case False
  then obtain w' l ms where "consume_step cancelled (analytics_handler (under_ctx cancelled S))
      (w, wk_plays k, wk_play_marks k) (w', l, ms)" by (metis consume_can_step prod_cases3)
  with False assms show ?thesis by (blast intro: worker_play)
qed

lemma worker_run_done:
  assumes "worker_run cancelled S T st sc n s s'" and "cancelled (w_ext (fst s))"
  shows "cancelled (w_ext (fst s')) \<and> n + work_left (snd s') \<le> work_left (snd s) \<and>
     wk_up_marks (snd s') = wk_up_marks (snd s) \<and> wk_play_marks (snd s') = wk_play_marks (snd s)"
  using assms
proof (induction rule: worker_run.induct)
  case (run_own n s t u)
  obtain w k w' k' where tu: "t = (w, k)" "u = (w', k')" by fastforce
  from run_own worker_step_done [where cancelled = cancelled, of S T st sc w k w' k'] show ?case
    unfolding tu by auto
qed (auto simp: others_def)

section \<open>The API server\<close>

datatype ending = Drained | Timed_out | Died

datatype phase = Serving | Draining | Stopped ending

record server_proc =
  sp_phase :: phase
  sp_active :: "request list"
  sp_accepted :: "request list"
  sp_answered :: "request list"

text \<open>
  \<open>ListenAndServe\<close> accepts while the server runs; a signal makes \<open>main\<close> call \<open>Shutdown\<close>, which stops the
  listener and returns when no request is active or when ten seconds are over. Then \<open>main\<close> returns,
  and the goroutines that handlers have started are gone with the process. The process also ends when
  the listener fails (\<open>log.Fatal\<close>) or a goroutine panics.
\<close>

definition ended :: "ending \<Rightarrow> 'x world \<times> server_proc \<Rightarrow> 'x world \<times> server_proc" where
  "ended e = (\<lambda>(w, p). (w\<lparr>w_tasks := []\<rparr>, p\<lparr>sp_phase := Stopped e, sp_active := []\<rparr>))"

fun runs :: "phase \<Rightarrow> bool" where
  "runs (Stopped e) = False"
| "runs p = True"

inductive server_step :: "'x server \<Rightarrow> 'x world \<times> server_proc \<Rightarrow> 'x world \<times> server_proc \<Rightarrow> bool"
  for sv :: "'x server"
where
  server_accept: "sp_phase p = Serving \<Longrightarrow> \<not> w_crashed w \<Longrightarrow>
    server_step sv (w, p) (w, p\<lparr>sp_active := rq # sp_active p, sp_accepted := rq # sp_accepted p\<rparr>)"
| server_answer: "runs (sp_phase p) \<Longrightarrow> \<not> w_crashed w \<Longrightarrow> rq \<in> set (sp_active p) \<Longrightarrow>
    run_state (serve sv rq) w = (out, w') \<Longrightarrow>
    server_step sv (w, p) (w', p\<lparr>sp_active := remove1 rq (sp_active p), sp_answered := rq # sp_answered p\<rparr>)"
| server_goroutine: "runs (sp_phase p) \<Longrightarrow> \<not> w_crashed w \<Longrightarrow> t \<in> set (w_tasks w) \<Longrightarrow>
    run_state (run_task sv t) (w\<lparr>w_tasks := remove1 t (w_tasks w)\<rparr>) = (u, w') \<Longrightarrow>
    server_step sv (w, p) (w', p)"
| server_signal: "sp_phase p = Serving \<Longrightarrow> server_step sv (w, p) (w, p\<lparr>sp_phase := Draining\<rparr>)"
| server_drained: "sp_phase p = Draining \<Longrightarrow> \<not> w_crashed w \<Longrightarrow> sp_active p = [] \<Longrightarrow>
    server_step sv (w, p) (ended Drained (w, p))"
| server_timeout: "sp_phase p = Draining \<Longrightarrow> server_step sv (w, p) (ended Timed_out (w, p))"
| server_listen: "sp_phase p = Serving \<Longrightarrow> server_step sv (w, p) (ended Died (w, p))"
| server_panic: "runs (sp_phase p) \<Longrightarrow> w_crashed w \<Longrightarrow> server_step sv (w, p) (ended Died (w, p))"

definition fresh_server :: server_proc where
  "fresh_server = \<lparr>sp_phase = Serving, sp_active = [], sp_accepted = [], sp_answered = []\<rparr>"

text \<open>Between two steps other processes may change the tables and the outside world.\<close>

inductive server_run :: "'x server \<Rightarrow> 'x world \<times> server_proc \<Rightarrow> 'x world \<times> server_proc \<Rightarrow> bool"
  for sv :: "'x server"
where
  server_none: "server_run sv s s"
| server_own: "server_run sv s t \<Longrightarrow> server_step sv t u \<Longrightarrow> server_run sv s u"
| server_others: "server_run sv s (w, p) \<Longrightarrow> server_run sv s (w\<lparr>w_db := d, w_ext := x\<rparr>, p)"

text \<open>Every accepted request is answered or still active, until the process ends early.\<close>

definition accounted :: "server_proc \<Rightarrow> bool" where
  "accounted p \<longleftrightarrow> sp_phase p \<in> {Stopped Timed_out, Stopped Died} \<or>
     mset (sp_accepted p) = mset (sp_answered p) + mset (sp_active p) \<and>
     (sp_phase p = Stopped Drained \<longrightarrow> sp_active p = [])"

lemma server_step_accounted: "server_step sv s s' \<Longrightarrow> accounted (snd s) \<Longrightarrow> accounted (snd s')"
  by (induction rule: server_step.induct) (auto simp: accounted_def ended_def elim: runs.elims)

lemma server_run_accounted: "server_run sv s s' \<Longrightarrow> accounted (snd s) \<Longrightarrow> accounted (snd s')"
  by (induction rule: server_run.induct) (auto dest: server_step_accounted)

lemma server_step_closed:
  "server_step sv s s' \<Longrightarrow> sp_phase (snd s) \<noteq> Serving \<Longrightarrow>
     sp_phase (snd s') \<noteq> Serving \<and> sp_accepted (snd s') = sp_accepted (snd s)"
  by (induction rule: server_step.induct) (auto simp: ended_def)

lemma server_run_closed:
  "server_run sv s s' \<Longrightarrow> sp_phase (snd s) \<noteq> Serving \<Longrightarrow>
     sp_phase (snd s') \<noteq> Serving \<and> sp_accepted (snd s') = sp_accepted (snd s)"
  by (induction rule: server_run.induct) (auto dest: server_step_closed)

section \<open>Any number of processes\<close>

text \<open>
  The processes share the tables: a step of any server or worker, whatever its configuration, from any
  private state.
\<close>

inductive fleet :: "'x itself \<Rightarrow> db \<Rightarrow> db \<Rightarrow> bool" for ty :: "'x itself" where
  fleet_server: "engine_ok (sv_engine sv) \<Longrightarrow> server_step sv (w :: 'x world, p) (w', p') \<Longrightarrow> fleet ty (w_db w) (w_db w')"
| fleet_worker: "worker_step cancelled S T st sc (w :: 'x world, k) (w', k') \<Longrightarrow> fleet ty (w_db w) (w_db w')"

context table_contract
begin

lemma consume_step_in:
  assumes "consume_step cancelled h (w, l, ms) (w', l', ms')" and "\<And>m. stays R (h m)"
  shows "R (w_db w) (w_db w')"
  using assms(1) by (cases rule: consume_step.cases) (auto intro: R_refl dest: stays_run [OF assms(2)])

lemma worker_step_in:
  assumes "worker_step cancelled S T st sc (w, k) (w', k')"
  shows "R (w_db w) (w_db w')"
  using assms
  by (cases rule: worker_step.cases) (auto intro: R_refl consume_step_in stays_upload stays_analytics)

lemma server_step_in:
  assumes "engine_ok (sv_engine sv)" and "server_step sv (w, p) (w', p')"
  shows "R (w_db w) (w_db w')"
  using assms(2)
proof (cases rule: server_step.cases)
  case (server_answer rq out)
  then show ?thesis by (auto dest: stays_run [OF stays_serve [OF assms(1)]])
next
  case (server_goroutine t u)
  from stays_run [OF stays_task server_goroutine(5)] show ?thesis by simp
qed (auto simp: ended_def intro: R_refl)

lemma fleet_in: "fleet ty d d' \<Longrightarrow> R d d'"
  by (induction rule: fleet.induct) (auto intro: server_step_in worker_step_in)

lemma fleets_in: "(fleet ty)\<^sup>*\<^sup>* d d' \<Longrightarrow> R d d'"
  by (induction rule: rtranclp_induct) (auto intro: R_refl R_trans fleet_in)

end

lemma consume_step_playable:
  assumes "consume_step cancelled h (w, l, ms) (w', l', ms')" and "playable_except X (w_db w)"
    and "\<And>m r w'. run_state (h m) w = (r, w') \<Longrightarrow> playable_except X (w_db w')"
  shows "playable_except X (w_db w')"
  using assms(1) by (cases rule: consume_step.cases) (auto intro: assms(2,3))

lemma fleet_playable: "fleet ty d d' \<Longrightarrow> playable_except X d \<Longrightarrow> playable_except X d'"
proof (induction rule: fleet.induct)
  case (fleet_server sv w p w' p')
  from fleet_server(2) show ?case
  proof (cases rule: server_step.cases)
    case (server_answer rq out)
    with fleet_server show ?thesis by (auto intro: quiet_playable dest: stays_run [OF quiet.stays_serve])
  next
    case (server_goroutine t u)
    from stays_run [OF quiet.stays_task server_goroutine(5)] show ?thesis
      by (rule quiet_playable) (simp add: fleet_server(3))
  qed (use fleet_server(3) in \<open>auto simp: ended_def\<close>)
next
  case (fleet_worker cancelled S T st sc w k w' k')
  from fleet_worker(1) show ?case
  proof (cases rule: worker_step.cases)
    case (worker_upload l ms)
    show ?thesis
      by (rule consume_step_playable [OF worker_upload(4) fleet_worker(2)])
        (rule postD [OF upload_playable [OF fleet_worker(2)]])
  next
    case (worker_play l ms)
    show ?thesis
      by (rule consume_step_playable [OF worker_play(4) fleet_worker(2)])
        (rule quiet_playable [OF stays_run [OF quiet_play] fleet_worker(2)])
  qed (use fleet_worker(2) in auto)
qed

lemma playable_empty: "playable empty_db"
  by (simp add: playable_def empty_db_def)

section \<open>An interrupted upload\<close>

text \<open>
  The signal arrives while a tool of the upload runs (\<open>ffprobe\<close> or any of the \<open>ffmpeg\<close>s) or while it reads
  or writes a file: those are the calls during which the context may be cancelled. It stays cancelled,
  and the calls over the network leave it as it is.
\<close>

definition signal_in_tools :: "('x \<Rightarrow> bool) \<Rightarrow> 'x services \<Rightarrow> 'x tools \<Rightarrow> bool" where
  "signal_in_tools cancelled S T \<longleftrightarrow>
     (\<forall>x. cancelled (snd (svc_pg S x)) = cancelled x) \<and> (\<forall>x b k. cancelled (snd (svc_get S x b k)) = cancelled x) \<and>
     (\<forall>x b k v c. cancelled (snd (svc_put S x b k v c)) = cancelled x) \<and> (\<forall>x rq. cancelled (snd (svc_http S x rq)) = cancelled x) \<and>
     (\<forall>x. cancelled x \<longrightarrow> (\<forall>p. cancelled (snd (tl_create T x p))) \<and> (\<forall>p v. cancelled (snd (tl_copy T x p v))) \<and>
        (\<forall>args. cancelled (snd (tl_exec T x args))) \<and> (\<forall>p. cancelled (snd (tl_stat T x p))) \<and>
        (\<forall>p. cancelled (snd (tl_read T x p)))) \<and>
     (\<forall>x p. cancelled (tl_remove_all T x p) = cancelled x)"

lemma signal_in_toolsD:
  assumes "signal_in_tools cancelled S T"
  shows "svc_pg S x = (e, x') \<Longrightarrow> cancelled x' = cancelled x" "svc_get S x b k = (r, x') \<Longrightarrow> cancelled x' = cancelled x"
    "svc_put S x b k v c = (ok, x') \<Longrightarrow> cancelled x' = cancelled x"
    "svc_http S x rq = (re, x') \<Longrightarrow> cancelled x' = cancelled x"
    "cancelled x \<Longrightarrow> tl_stat T x p = (n, x') \<Longrightarrow> cancelled x'"
    "cancelled x \<Longrightarrow> tl_read T x p = (d, x') \<Longrightarrow> cancelled x'"
    "cancelled (tl_remove_all T x p) = cancelled x"
  using assms unfolding signal_in_tools_def by (metis snd_conv)+

text \<open>Under the context, the calls over the network leave it as it is too.\<close>

lemma under_ctx_signal:
  assumes "signal_in_tools cancelled S T"
  shows "svc_pg (under_ctx cancelled S) x = (e, x') \<Longrightarrow> cancelled x' = cancelled x"
    "svc_http (under_ctx cancelled S) x rq = (re, x') \<Longrightarrow> cancelled x' = cancelled x"
  using signal_in_toolsD(1,4) [OF assms] by (auto simp: under_ctx_def split: if_splits)

lemma give_up_cancelled:
  "cancelled (w_ext w) \<Longrightarrow> run_state (give_up (under_ctx cancelled S) i err) w = (Inl err, w)"
  by (simp add: give_up_def markError_def sql_done)

text \<open>
  One iteration of the loop over the bitrates: if the signal arrived by the time the encoded file has been
  read, the file cannot be stored; otherwise the iteration does what it does without a signal.
\<close>

lemma encode_one_signal:
  assumes "all_up S T stamp gen" and "signal_in_tools cancelled S T" and "svc_cast S i = Some u"
    and "u \<in> track_ids (w_db w)" and "ids_used stamp gen w" and "int32 b"
  shows "\<exists>r v. run_state (encode_one (under_ctx cancelled S) T st inp i dir b) w = (r, v) \<and>
     (r = Inr () \<and> \<not> cancelled (w_ext v) \<and> d_tracks (w_db v) = d_tracks (w_db w) \<and> ids_used stamp gen v \<or>
      r = Inl (Err_upload b) \<and> cancelled (w_ext v) \<and> w_db v = w_db w)"
proof -
  let ?out = "path_join dir (itoa b @ ''.ogg'')"
  note up = all_upD [OF assms(1)] and at = signal_in_toolsD [OF assms(2)]
  obtain o1 x1 where x1: "tl_exec T (w_ext w) (ffmpeg_args inp b ?out) = (Some o1, x1)" by (rule answersE [OF up(7)])
  obtain n x2 where x2: "tl_stat T x1 ?out = (Some n, x2)" by (rule answersE [OF up(8)])
  obtain v x3 where x3: "tl_read T x2 ?out = (Some v, x3)" by (rule answersE [OF up(9)])
  show ?thesis
  proof (cases "cancelled x3")
    case True
    then have "run_state (encode_one (under_ctx cancelled S) T st inp i dir b) w = (Inl (Err_upload b), w\<lparr>w_ext := x3\<rparr>)"
      using x1 x2 x3 by (simp add: encode_one_def transcode_def Let_def service_defs give_up_cancelled)
    with True show ?thesis by simp
  next
    case False
    obtain x4 where x4: "svc_put S x3 (st_bucket st) (format_key i b) v ''audio/ogg'' = (True, x4)" by (rule succeedsE [OF up(3)])
    obtain e x5 where x5: "svc_pg S x4 = (e, x5)" "e_fault e = Fine" by (rule pgE [OF assms(1)])
    have live: "\<not> cancelled x4" "\<not> cancelled x5" using False at(3) [OF x4] at(1) [OF x5(1)] by simp_all
    obtain w' where w': "run_state (encode_one S T st inp i dir b) w = (Inr (), w')" "d_tracks (w_db w') = d_tracks (w_db w)"
      "ids_used stamp gen w'"
      using encode_one_up [OF assms(1,3-6)] by blast
    let ?ins = "exec_stmt e (ins_format (svc_cast S) i b (format_key i b) n) (w_db w)"
    obtain r d where ins: "?ins = (Some r, d)"
      using w'(1) x1 x2 x3 x4 x5(1)
      by (cases ?ins; cases "fst ?ins")
        (auto simp: encode_one_def transcode_def Let_def service_defs run_sql give_up_def markError_def split: prod.splits)
    with w'(1) x1 x2 x3 x4 x5(1) have "w' = w\<lparr>w_ext := x5, w_db := d\<rparr>"
      by (simp add: encode_one_def transcode_def Let_def service_defs run_sql)
    moreover from this have "run_state (encode_one (under_ctx cancelled S) T st inp i dir b) w = (Inr (), w')"
      using ins x1 x2 x3 x4 x5(1) False live
      by (simp add: encode_one_def transcode_def Let_def service_defs run_sql)
    ultimately show ?thesis using w'(2,3) live by simp
  qed
qed

lemma encode_all_signal:
  assumes "all_up S T stamp gen" and "signal_in_tools cancelled S T" and "svc_cast S i = Some u"
  shows "u \<in> track_ids (w_db w) \<Longrightarrow> ids_used stamp gen w \<Longrightarrow> list_all int32 bs \<Longrightarrow> bs \<noteq> [] \<or> \<not> cancelled (w_ext w) \<Longrightarrow>
     \<exists>r v. run_state (encode_all (under_ctx cancelled S) T st inp i dir bs) w = (r, v) \<and> d_tracks (w_db v) = d_tracks (w_db w) \<and>
       (r = Inr () \<and> \<not> cancelled (w_ext v) \<or> (\<exists>b \<in> set bs. r = Inl (Err_upload b)) \<and> cancelled (w_ext v))"
proof (induction bs arbitrary: w)
  case (Cons b bs)
  obtain r v where one: "run_state (encode_one (under_ctx cancelled S) T st inp i dir b) w = (r, v)"
    "r = Inr () \<and> \<not> cancelled (w_ext v) \<and> d_tracks (w_db v) = d_tracks (w_db w) \<and> ids_used stamp gen v \<or>
      r = Inl (Err_upload b) \<and> cancelled (w_ext v) \<and> w_db v = w_db w"
    using encode_one_signal [OF assms Cons.prems(1,2), of b] Cons.prems(3) by fastforce
  then consider (stored) "r = Inr ()" "\<not> cancelled (w_ext v)" "d_tracks (w_db v) = d_tracks (w_db w)" "ids_used stamp gen v"
    | (stopped) "r = Inl (Err_upload b)" "cancelled (w_ext v)" "w_db v = w_db w" by blast
  then show ?case
  proof cases
    case stored
    obtain r2 v2 where "run_state (encode_all (under_ctx cancelled S) T st inp i dir bs) v = (r2, v2)"
      "d_tracks (w_db v2) = d_tracks (w_db v)"
      "r2 = Inr () \<and> \<not> cancelled (w_ext v2) \<or> (\<exists>b \<in> set bs. r2 = Inl (Err_upload b)) \<and> cancelled (w_ext v2)"
      using Cons.IH [of v] Cons.prems(1,3) stored by auto
    with one(1) stored show ?thesis by auto
  next
    case stopped
    with one(1) show ?thesis by simp
  qed
qed simp

lemma index_track_signal:
  assumes "signal_in_tools cancelled S T"
  shows "post (index_track (under_ctx cancelled S) sc i) (\<lambda>_ w'. cancelled (w_ext w') = cancelled (w_ext w)) w"
  by (auto simp: post_def index_track_def os_defs run_sql dest!: under_ctx_signal [OF assms]
      split: option.splits prod.splits)

lemma set_ready_signal:
  assumes "all_up S T stamp gen" and "signal_in_tools cancelled S T" and "svc_cast S i = Some u" and "int32 ms"
    and "\<not> cancelled (w_ext w)"
  shows "\<exists>v. run_state (set_ready (under_ctx cancelled S) sc i ms) w = (Inr (), v) \<and> \<not> cancelled (w_ext v)"
proof -
  obtain e x where e: "svc_pg S (w_ext w) = (e, x)" "e_fault e = Fine" by (rule pgE [OF assms(1)])
  obtain n d where d: "upd_ready (svc_cast S) ms i e (w_db w) = Some (n, d)"
    using assms(3,4) by (simp add: upd_ready_def Let_def)
  let ?v = "w\<lparr>w_ext := x, w_db := d\<rparr>"
  obtain v where v: "run_state (index_track (under_ctx cancelled S) sc i) ?v = ((), v)"
    by (cases "run_state (index_track (under_ctx cancelled S) sc i) ?v") simp
  have "\<not> cancelled x" using signal_in_toolsD(1) [OF assms(2) e(1)] assms(5) by simp
  then have "\<not> cancelled (w_ext v)" using postD [OF index_track_signal [OF assms(2)] v] by simp
  with e d v assms(5) show ?thesis by (simp add: set_ready_def run_sql exec_stmt_fine)
qed

text \<open>The work on a claimed track: it is completed, or it ends with the context and the tracks stay as they are.\<close>

lemma transcode_track_signal:
  assumes "all_up S T stamp gen" and "signal_in_tools cancelled S T" and "svc_cast S (ue_track ev) = Some u"
    and "u \<in> track_ids (w_db w)" and "ids_used stamp gen w" and "\<not> cancelled (w_ext w)"
  shows "\<exists>r v. run_state (transcode_track (under_ctx cancelled S) T (Some st) sc dir ev) w = (r, v) \<and>
     (r = Inr () \<and> \<not> cancelled (w_ext v) \<or>
      (\<exists>b \<in> set Bitrates. r = Inl (Err_upload b)) \<and> cancelled (w_ext v) \<and> d_tracks (w_db v) = d_tracks (w_db w))"
proof -
  let ?i = "ue_track ev" and ?inp = "path_join dir ''input''"
  note up = all_upD [OF assms(1)]
  obtain a x1 where x1: "svc_get S (w_ext w) (st_bucket st) (ue_audio ev) = (Some a, x1)" "stamp (w_ext w) \<le> stamp x1"
    by (rule answersE [OF up(2)])
  obtain x2 where x2: "tl_create T x1 ?inp = (True, x2)" "stamp x1 \<le> stamp x2" by (rule succeedsE [OF up(5)])
  obtain x3 where x3: "tl_copy T x2 ?inp a = (True, x3)" "stamp x2 \<le> stamp x3" by (rule succeedsE [OF up(6)])
  obtain out x4 where x4: "tl_exec T x3 (ffprobe_args ?inp) = (Some out, x4)" "stamp x3 \<le> stamp x4"
    by (rule answersE [OF up(7)])
  obtain ms where ms: "duration_of_output out = Some ms" "int32 ms" using up(10) [OF x4(1)] by blast
  let ?w = "w\<lparr>w_ext := x4\<rparr>"
  have "gen ` {..<stamp (w_ext w)} \<subseteq> gen ` {..<stamp x4}" using x1(2) x2(2) x3(2) x4(2) by (intro image_mono) auto
  then have "ids_used stamp gen ?w" using assms(5) by (auto simp: ids_used_def)
  moreover have "u \<in> track_ids (w_db ?w)" "Bitrates \<noteq> []" using assms(4) by (simp_all add: Bitrates_def)
  ultimately obtain r v where enc: "run_state (encode_all (under_ctx cancelled S) T st ?inp ?i dir Bitrates) ?w = (r, v)"
    "d_tracks (w_db v) = d_tracks (w_db ?w)"
    "r = Inr () \<and> \<not> cancelled (w_ext v) \<or> (\<exists>b \<in> set Bitrates. r = Inl (Err_upload b)) \<and> cancelled (w_ext v)"
    using encode_all_signal [OF assms(1-3), where w = ?w and bs = Bitrates] Bitrates_int32 by blast
  have steps: "run_state (transcode_track (under_ctx cancelled S) T (Some st) sc dir ev) w =
      run_state (case r of Inl err \<Rightarrow> State_Monad.return (Inl err) | Inr _ \<Rightarrow> set_ready (under_ctx cancelled S) sc ?i ms) v"
    using assms(6) x1(1) x2(1) x3(1) x4(1) ms(1) enc(1)
    by (simp add: transcode_track_def downloadFromS3_def probeDuration_def service_defs Let_def)
  from enc(3) show ?thesis
  proof (elim disjE conjE)
    assume r: "r = Inr ()" "\<not> cancelled (w_ext v)"
    then show ?thesis
      using set_ready_signal [OF assms(1-3) ms(2) r(2), of sc] by (auto simp: steps)
  next
    assume "\<exists>b \<in> set Bitrates. r = Inl (Err_upload b)" "cancelled (w_ext v)"
    then show ?thesis using enc(2) by (auto simp: steps)
  qed
qed

section \<open>Results\<close>

text \<open>
  C4. A fleet of any number of API servers and workers, with any configurations, answering, handling,
  draining, timing out and dying in any order, keeps every invariant of the tables: keys, references,
  counters and statuses, the types of the columns, and the formats of the ready tracks.
\<close>

theorem fleet_keeps_tables:
  assumes "(fleet ty)\<^sup>*\<^sup>* empty_db d"
  shows "reachable d \<and> tables_ok d \<and> columns_fit d \<and> playable d"
proof -
  have "reachable d" using steps.fleets_in [OF assms] by (simp add: reachable_def)
  moreover have "columns_fit d" using types.fleets_in [OF assms] by (simp add: kept_def)
  moreover have "playable d"
    using assms by (induction rule: rtranclp_induct) (auto simp: playable_all [symmetric] intro: fleet_playable [where X = "{}", folded playable_all] playable_empty)
  ultimately show ?thesis by (simp add: reachable_tables_ok)
qed

text \<open>
  C25. A signalled worker stops: from the cancellation of its context on it takes at most as many steps as
  it has fetched records and loops to return from, whatever the other processes do between them; it
  can always take the next one until it has exited; and none of them changes a table or marks a
  record, so that what it had not finished is never committed.
\<close>

theorem signalled_worker_stops:
  assumes "cancelled (w_ext w)" and "worker_run cancelled S T st sc n (w, k) (w', k')"
  shows "n \<le> work_left k \<and> (wk_exited k' \<or> (\<exists>s. worker_step cancelled S T st sc (w', k') s)) \<and>
     wk_up_marks k' = wk_up_marks k \<and> wk_play_marks k' = wk_play_marks k \<and>
     (\<forall>v l. worker_step cancelled S T st sc (w', k') (v, l) \<longrightarrow> w_db v = w_db w')"
proof -
  have run: "cancelled (w_ext w')" "n + work_left k' \<le> work_left k" "wk_up_marks k' = wk_up_marks k"
    "wk_play_marks k' = wk_play_marks k"
    using worker_run_done [OF assms(2)] assms(1) by simp_all
  moreover have "w_db v = w_db w'" if "worker_step cancelled S T st sc (w', k') (v, l)" for v l
    using worker_step_done [where cancelled = cancelled, OF that run(1)] by simp
  ultimately show ?thesis using worker_can_step [of k' cancelled S T st sc w'] by auto
qed

text \<open>
  C14. A signal that arrives while a tool of an upload runs, or while it handles a file, strands the
  upload: the next call over the network fails, the context that failed it also keeps \<open>markError\<close> from
  recording the failure, and the track stays in \<open>processing\<close>, where every worker that the event is
  delivered to again skips it. An upload during which no signal arrives ends with the track ready.
\<close>

theorem signal_strands_upload:
  assumes "all_up S T stamp gen" and "signal_in_tools cancelled S T" and "ids_used stamp gen w" and "\<not> cancelled (w_ext w)"
    and "svc_cast S (ue_track ev) = Some u" and "status_in (w_db w) u = Some ''pending''"
    and "run_state (process (under_ctx cancelled S) T (Some st) sc ev) w = (r, w')"
  shows "(cancelled (w_ext w') \<longrightarrow> (r = Inl Err_download \<or> (\<exists>b \<in> set Bitrates. r = Inl (Err_upload b))) \<and>
        status_in (w_db w') u = Some ''processing'' \<and>
        (\<forall>T' st' sc' v. status_in (w_db v) u = Some ''processing'' \<longrightarrow>
           w_db (snd (run_state (process S T' st' sc' ev) v)) = w_db v)) \<and>
     (\<not> cancelled (w_ext w') \<longrightarrow> r = Inr () \<and> status_in (w_db w') u = Some ''ready'')"
proof -
  let ?i = "ue_track ev" and ?C = "under_ctx cancelled S"
  note up = all_upD [OF assms(1)] and at = signal_in_toolsD [OF assms(2)]
  obtain e x where e: "svc_pg S (w_ext w) = (e, x)" "e_fault e = Fine" "stamp (w_ext w) < stamp x" by (rule pgE [OF assms(1)])
  obtain e1 x1 where e1: "svc_pg S x = (e1, x1)" "e_fault e1 = Fine" "stamp x < stamp x1" by (rule pgE [OF assms(1)])
  obtain n d where d: "upd_processing (svc_cast S) ?i e1 (w_db w) = Some (n, d)"
    using assms(5) by (simp add: upd_processing_def Let_def)
  obtain dir x2 where x2: "tl_mktemp T x1 (''transcode-'' @ ?i) = (Some dir, x2)" "stamp x1 \<le> stamp x2"
    by (rule answersE [OF up(4)])
  have live: "\<not> cancelled x" "\<not> cancelled x1" using at(1) [OF e(1)] at(1) [OF e1(1)] assms(4) by simp_all
  let ?w = "w\<lparr>w_db := d, w_ext := x2\<rparr>"
  have claimed: "status_in d u = Some ''processing''" "d_formats d = d_formats (w_db w)"
    using upd_processing_effect [OF d assms(5,6)] by auto
  obtain r1 v where run: "run_state (transcode_track ?C T (Some st) sc dir ev) ?w = (r1, v)" by fastforce
  have result: "r = r1" "w' = v\<lparr>w_ext := tl_remove_all T (w_ext v) dir\<rparr>"
    using assms(7) e e1 d x2 live assms(4) run sel_status_row [of "svc_cast S" ?i u "w_db w" "''pending''" e, OF assms(5,6)]
    by (simp_all add: process_def take_up_def in_temp_dir_def Let_def run_sql exec_stmt_fine)
  have work: "r1 = Inr () \<and> \<not> cancelled (w_ext v) \<or>
      (r1 = Inl Err_download \<or> (\<exists>b \<in> set Bitrates. r1 = Inl (Err_upload b))) \<and> cancelled (w_ext v) \<and> d_tracks (w_db v) = d_tracks d"
  proof (cases "cancelled x2")
    case True
    then have "run_state (transcode_track ?C T (Some st) sc dir ev) ?w = (Inl Err_download, ?w)"
      by (simp add: transcode_track_def downloadFromS3_def service_defs Let_def give_up_cancelled)
    with run have "r1 = Inl Err_download" "v = ?w" by simp_all
    with True show ?thesis by simp
  next
    case False
    have "gen ` {..<stamp (w_ext w)} \<subseteq> gen ` {..<stamp x2}" using e(3) e1(3) x2(2) by (intro image_mono) auto
    then have "ids_used stamp gen ?w" using assms(3) claimed(2) by (auto simp: ids_used_def)
    moreover have "u \<in> track_ids (w_db ?w)" using claimed(1) by (auto simp: status_in_def dest: track_by_id_SomeD)
    ultimately show ?thesis
      using transcode_track_signal [OF assms(1,2,5), where w = ?w and st = st and sc = sc and dir = dir] False run by auto
  qed
  have "cancelled (w_ext w') = cancelled (w_ext v)" "w_db w' = w_db v" using at(7) by (simp_all add: result)
  moreover have "w_db (snd (run_state (process S T' st' sc' ev) v)) = w_db v"
    if "status_in (w_db v) u = Some ''processing''" for T' st' sc' v
    using skipped [OF assms(5) that, of T' st' sc'] by auto
  moreover have "r = Inr () \<longrightarrow> status_in (w_db w') u = Some ''ready''"
    using postD [OF process_success [where S = ?C, unfolded under_ctx_cast, OF assms(5,6)] assms(7)]
    by (simp add: transcoded_def)
  moreover have "status_in (w_db v) u = Some ''processing''" if "d_tracks (w_db v) = d_tracks d"
    using that claimed(1) by (simp add: status_in_def track_by_id_def)
  ultimately show ?thesis using work result(1) by auto
qed

text \<open>
  A graceful shutdown of the API answers every request it had accepted, accepts none after the signal,
  and forgets what their goroutines had still to do: a request that has been answered can leave no
  audit record and no play event, the tables staying as its handler left them.
\<close>

theorem graceful_shutdown:
  assumes "run_state (serve sv rq) w = (out, w')" and "\<not> w_crashed w" and "\<not> w_crashed w'"
  shows "(\<forall>v p v' q. server_run sv (w, fresh_server) (v, p) \<longrightarrow> server_run sv (v, p) (v', q) \<longrightarrow>
        sp_phase q = Stopped Drained \<longrightarrow> mset (sp_answered q) = mset (sp_accepted q) \<and>
        (sp_phase p \<noteq> Serving \<longrightarrow> sp_accepted q = sp_accepted p)) \<and>
     (\<exists>p. server_run sv (w, fresh_server) (w'\<lparr>w_tasks := []\<rparr>, p) \<and> sp_phase p = Stopped Drained \<and> sp_answered p = [rq])"
proof (intro conjI allI impI)
  fix v p v' q
  assume run: "server_run sv (w, fresh_server) (v, p)" "server_run sv (v, p) (v', q)" "sp_phase q = Stopped Drained"
  have "accounted fresh_server" by (simp add: accounted_def fresh_server_def)
  with server_run_accounted [OF run(1)] server_run_accounted [OF run(2)] have "accounted q" by simp
  with run(3) show "mset (sp_answered q) = mset (sp_accepted q)" by (auto simp: accounted_def)
  show "sp_phase p \<noteq> Serving \<Longrightarrow> sp_accepted q = sp_accepted p" using server_run_closed [OF run(2)] by simp
next
  let ?p = "\<lparr>sp_phase = Serving, sp_active = [], sp_accepted = [rq], sp_answered = [rq]\<rparr>"
  have "server_step sv (w, fresh_server) (w, ?p\<lparr>sp_active := [rq], sp_answered := []\<rparr>)"
    using server_accept [of fresh_server w sv rq] assms(2) by (simp add: fresh_server_def)
  moreover have "server_step sv (w, ?p\<lparr>sp_active := [rq], sp_answered := []\<rparr>) (w', ?p)"
    using server_answer [of "?p\<lparr>sp_active := [rq], sp_answered := []\<rparr>" w rq sv out w'] assms(1,2) by simp
  moreover have "server_step sv (w', ?p) (w', ?p\<lparr>sp_phase := Draining\<rparr>)"
    using server_signal [of ?p sv w'] by simp
  moreover have "server_step sv (w', ?p\<lparr>sp_phase := Draining\<rparr>) (w'\<lparr>w_tasks := []\<rparr>, ?p\<lparr>sp_phase := Stopped Drained\<rparr>)"
    using server_drained [of "?p\<lparr>sp_phase := Draining\<rparr>" w' sv] assms(3) by (simp add: ended_def)
  ultimately have "server_run sv (w, fresh_server) (w'\<lparr>w_tasks := []\<rparr>, ?p\<lparr>sp_phase := Stopped Drained\<rparr>)"
    by (meson server_none server_own)
  then show "\<exists>p. server_run sv (w, fresh_server) (w'\<lparr>w_tasks := []\<rparr>, p) \<and> sp_phase p = Stopped Drained \<and> sp_answered p = [rq]"
    by force
qed

section \<open>Concrete runs\<close>

theorem fleet_keeps_tables_witness:
  "\<exists>d. (fleet TYPE(nat))\<^sup>*\<^sup>* empty_db d \<and> length (d_audits d) = 1 \<and> columns_fit d"
proof -
  let ?t = "Write_audit None ''auth.login'' ''user'' None None"
  let ?w = "(lab_world empty_db)\<lparr>w_tasks := [?t]\<rparr>"
  obtain w' where run: "run_state (run_task lab_server ?t) (?w\<lparr>w_tasks := remove1 ?t (w_tasks ?w)\<rparr>) = ((), w')"
    by (cases "run_state (run_task lab_server ?t) (?w\<lparr>w_tasks := remove1 ?t (w_tasks ?w)\<rparr>)") simp
  then have "length (d_audits (w_db w')) = 1"
    by (auto simp: run_task_def write_audit_def run_sql exec_stmt_def ins_audit_def cast_opt_def int16_def
        insert_row_def lab_server_def empty_db_def lab_late_def Let_def)
  moreover have "server_step lab_server (?w, fresh_server) (w', fresh_server)"
    by (rule server_goroutine [OF _ _ _ run]) (simp_all add: fresh_server_def)
  then have "fleet TYPE(nat) empty_db (w_db w')"
    using fleet_server [of lab_server ?w fresh_server w' fresh_server "TYPE(nat)"] by (simp add: lab_world_def)
  then have "(fleet TYPE(nat))\<^sup>*\<^sup>* empty_db (w_db w')" by (rule r_into_rtranclp)
  moreover from fleet_keeps_tables [OF this] have "columns_fit (w_db w')" by simp
  ultimately show ?thesis by blast
qed

theorem signalled_worker_stops_witness:
  "\<exists>k. worker_run (\<lambda>_. True) lab lab_tools None None 2 (lab_world lab_db, fresh_worker) (lab_world lab_db, k) \<and>
     wk_exited k \<and> wk_uploads k = Polling \<and> wk_play_marks k = []"
proof -
  let ?w = "lab_world lab_db" and ?k = "fresh_worker\<lparr>wk_plays := Returned, wk_play_marks := []\<rparr>"
  have "worker_step (\<lambda>_. True) lab lab_tools None None (?w, fresh_worker) (?w, ?k)"
    by (intro worker_play consume_return) (simp_all add: fresh_worker_def consume_return)
  moreover have "worker_step (\<lambda>_. True) lab lab_tools None None (?w, ?k) (?w, ?k\<lparr>wk_exited := True\<rparr>)"
    by (intro worker_exit) (simp_all add: fresh_worker_def)
  ultimately have run: "worker_run (\<lambda>_. True) lab lab_tools None None 2 (?w, fresh_worker) (?w, ?k\<lparr>wk_exited := True\<rparr>)"
    unfolding numeral_2_eq_2 by (rule run_own [OF run_own [OF worker_run.run_none]])
  from signalled_worker_stops [OF _ run] have "wk_play_marks (?k\<lparr>wk_exited := True\<rparr>) = wk_play_marks fresh_worker" by simp
  with run show ?thesis by (intro exI [of _ "?k\<lparr>wk_exited := True\<rparr>"]) (simp add: fresh_worker_def)
qed

text \<open>A laboratory in which the tool of the second bitrate takes the state to an odd number, and odd means cancelled.\<close>

definition even_lab :: "nat services" where
  "even_lab = lab\<lparr>svc_pg := (\<lambda>n. (lab_env n, n + 2))\<rparr>"

definition slow_tools :: "nat tools" where
  "slow_tools = lab_tools\<lparr>tl_exec := (\<lambda>n args. (Some ''12.5'', if ''128k'' \<in> set args then 2 * n + 1 else n))\<rparr>"

lemma even_lab_simps [simp]:
  "svc_pg even_lab n = (lab_env n, n + 2)" "svc_get even_lab = svc_get lab" "svc_put even_lab = svc_put lab"
  "svc_cast even_lab = svc_cast lab" "svc_http even_lab = svc_http lab"
  by (simp_all add: even_lab_def)

lemma slow_tools_simps [simp]:
  "tl_exec slow_tools n args = (Some ''12.5'', if ''128k'' \<in> set args then 2 * n + 1 else n)"
  "tl_mktemp slow_tools = tl_mktemp lab_tools"
  "tl_create slow_tools = tl_create lab_tools" "tl_copy slow_tools = tl_copy lab_tools"
  "tl_stat slow_tools = tl_stat lab_tools" "tl_read slow_tools = tl_read lab_tools"
  "tl_remove_all slow_tools = tl_remove_all lab_tools"
  by (simp_all add: slow_tools_def)

lemma even_lab_up: "all_up even_lab slow_tools id nat_digits"
proof -
  have "inj nat_digits" by (rule injI) simp
  moreover have "int32 12500" "int64 7" by (simp_all add: int32_def int64_def)
  ultimately show ?thesis by (simp add: all_up_def answers_def succeeds_def pg_always_def lab_duration)
qed

lemma slow_tools_signal: "signal_in_tools odd even_lab slow_tools"
  by (simp add: signal_in_tools_def lab_tools_def)

definition lab_signalled :: "(upload_error + unit) \<times> nat world" where
  "lab_signalled = run_state (process (under_ctx odd even_lab) slow_tools (Some \<lparr>st_bucket = ''b''\<rparr>) None lab_event) (lab_world lab_db)"

lemma lab_signal: "fst lab_signalled = Inl (Err_upload 128) \<and> odd (w_ext (snd lab_signalled)) \<and>
    length (d_formats (w_db (snd lab_signalled))) = 1"
  by code_simp

theorem signal_strands_upload_witness:
  "\<exists>w'. run_state (process (under_ctx odd even_lab) slow_tools (Some \<lparr>st_bucket = ''b''\<rparr>) None lab_event) (lab_world lab_db) =
       (Inl (Err_upload 128), w') \<and> status_in (w_db w') ''t'' = Some ''processing'' \<and> length (d_formats (w_db w')) = 1"
proof -
  obtain w' where run: "run_state (process (under_ctx odd even_lab) slow_tools (Some \<lparr>st_bucket = ''b''\<rparr>) None lab_event)
      (lab_world lab_db) = (Inl (Err_upload 128), w')" "odd (w_ext w')" "length (d_formats (w_db w')) = 1"
    using lab_signal by (cases lab_signalled) (auto simp: lab_signalled_def)
  have "svc_cast even_lab (ue_track lab_event) = Some ''t''" "\<not> odd (w_ext (lab_world lab_db))"
    "ids_used id nat_digits (lab_world lab_db)"
    using lab_pending(1) by (simp_all add: ids_used_def lab_db_def empty_db_def)
  from signal_strands_upload [where cancelled = odd, OF even_lab_up slow_tools_signal this(3,2,1) lab_pending(2) run(1)] run
  show ?thesis by blast
qed

theorem graceful_shutdown_witness:
  "\<exists>out w' p. run_state (serve lab_server (lab_request ''POST'' ''/v1/auth/register'')) (lab_world lab_db) = (out, w') \<and>
     length (w_tasks w') = 1 \<and> sp_phase p = Stopped Drained \<and>
     server_run lab_server (lab_world lab_db, fresh_server) (w'\<lparr>w_tasks := []\<rparr>, p)"
proof -
  let ?rq = "lab_request ''POST'' ''/v1/auth/register''" and ?h = "finish (auth_Register lab lab_crypto ''k'')"
  obtain out w' where run: "run_state (serve lab_server ?rq) (lab_world lab_db) = (out, w')" by fastforce
  have "((rq_method ?rq, rq_route ?rq), ?h) \<in> set (v1_routes lab_server)"
    by (simp add: v1_routes_def public_routes_def on_routes_def lab_request_def lab_server_def Let_def)
  from serve_v1 [OF lab_engine_of this run] obtain i w1 o' w2 where r: "same_state (lab_world lab_db) w1"
    "run_state (?h (start_cx ?rq i)) w1 = (o', w2)" "w_crashed w' = w_crashed w2"
    "rq_method ?rq \<noteq> ''GET'' \<and> \<not> panicking (out_reply o') \<Longrightarrow> \<exists>action. w_tasks w' = w_tasks w2 @ [audit_task (start_cx ?rq i) o' action]"
    by metis
  have "w2 = w1" "\<not> panicking (out_reply o')"
    using r(2) by (auto simp: finish_def auth_Register_def bind_register_def lab_request_def panicking_def)
  with r have "length (w_tasks w') = 1" "\<not> w_crashed w'" by (auto simp: same_state_def lab_request_def)
  with graceful_shutdown [OF run _ this(2)] run show ?thesis by auto
qed

end
