(* ===== verification/Catalog.thy ===== *)
theory Catalog
  imports Column_Types
begin

text \<open>
  Tracks as clients see them: what an accepted upload and a stream redirect rest on, that a cached
  answer is the answer that was cached, that the pages of a playlist add up to the playlist, and that
  the reader over a byte slice delivers it.
\<close>

section \<open>Uploads\<close>

lemma ins_track_SomeD:
  "ins_track cast i title a audio e d = Some (r, d') \<Longrightarrow> \<exists>t. d' = d\<lparr>d_tracks := d_tracks d @ [t]\<rparr> \<and> r = scan_track t \<and>
     cast i = Some (tr_id t) \<and> cast a = Some (tr_artist t) \<and> tr_artist t \<in> artist_ids d \<and> tr_id t \<notin> track_ids d \<and>
     tr_title t = title \<and> tr_audio t = audio \<and> tr_status t = ''pending''"
proof -
  assume h: "ins_track cast i title a audio e d = Some (r, d')"
  then obtain u au where "cast i = Some u" "cast a = Some au" by (auto simp: ins_track_def split: option.splits)
  with h show ?thesis
    by (intro exI [of _ "\<lparr>tr_id = u, tr_title = title, tr_artist = au, tr_duration = 0, tr_audio = audio,
          tr_release = None, tr_plays = 0, tr_created = e_now e, tr_status = ''pending''\<rparr>"])
      (simp add: ins_track_def Let_def split: option.splits if_splits)
qed

text \<open>A \<open>SELECT\<close> of one row gives what the tables hold or an error, and changes the outside only.\<close>

lemma run_select:
  assumes "run_state (sql S (select_row f)) w = (r, w')"
  obtains x where "w' = w\<lparr>w_ext := x\<rparr>" "r = None \<or> r = f (w_db w)"
  using assms
  by (auto simp: run_sql exec_stmt_def select_row_def split: prod.splits fault.splits option.splits)

text \<open>
  C16. An upload is accepted (202) only after the audio was stored under the track's own key, a pending
  track with that key was added for an existing artist, and the event that names both was published;
  nothing else in the tables changed.
\<close>

theorem accepted_upload:
  assumes "run_state (tracks_Create S A cx) w = (Reply 202 b, w')"
  shows "\<exists>i t st data x1 x2. app_store A = Some st \<and> app_producer A \<and>
     svc_cast S i = Some (tr_id t) \<and> tr_status t = ''pending'' \<and> tr_audio t = audio_key_of i \<and>
     tr_title t = rq_form (cx_req cx) ''title'' \<and> tr_artist t \<in> artist_ids (w_db w) \<and> tr_id t \<notin> track_ids (w_db w) \<and>
     w_db w' = (w_db w)\<lparr>d_tracks := d_tracks (w_db w) @ [t]\<rparr> \<and> b = JSON (enc_track (scan_track t)) \<and>
     (\<exists>f. rq_file (cx_req cx) ''audio'' = Some f \<and> up_data f = Some data \<and>
        fst (svc_put S x1 (st_bucket st) (audio_key_of i) data (if up_ctype f = '''' then ''audio/mpeg'' else up_ctype f))) \<and>
     fst (svc_produce S x2 ''track.uploads'' i (upload_event_json i (audio_key_of i)))"
proof -
  let ?title = "rq_form (cx_req cx) ''title''" and ?art = "rq_form (cx_req cx) ''artist_id''"
  obtain f where f: "?title \<noteq> ''''" "?art \<noteq> ''''" "rq_file (cx_req cx) ''audio'' = Some f"
    using assms by (auto simp: tracks_Create_def Let_def split: if_splits option.splits)
  obtain ex w1 where w1: "run_state (sql S (sel_artist_exists (svc_cast S) ?art)) w = (ex, w1)"
    by (cases "run_state (sql S (sel_artist_exists (svc_cast S) ?art)) w")
  have ext1: "w_db w1 = w_db w"
    using w1 by (auto simp: run_sql exec_stmt_def sel_artist_exists_def select_row_def split: prod.splits fault.splits option.splits)
  obtain i x2 where i: "svc_uuid_new S (w_ext w1) = (i, x2)" by (cases "svc_uuid_new S (w_ext w1)")
  obtain st data where st: "ex = Some True" "up_data f = Some data" "app_store A = Some st"
    using assms f w1 i by (auto simp: tracks_Create_def Let_def split: if_splits option.splits)
  let ?ct = "if up_ctype f = '''' then ''audio/mpeg'' else up_ctype f"
  obtain up x3 where up: "svc_put S x2 (st_bucket st) (audio_key_of i) data ?ct = (up, x3)"
    by (cases "svc_put S x2 (st_bucket st) (audio_key_of i) data ?ct")
  obtain e x4 where pg: "svc_pg S x3 = (e, x4)" by (cases "svc_pg S x3")
  obtain r d where ex: "exec_stmt e (ins_track (svc_cast S) i ?title ?art (audio_key_of i)) (w_db w1) = (r, d)"
    by (cases "exec_stmt e (ins_track (svc_cast S) i ?title ?art (audio_key_of i)) (w_db w1)")
  obtain ok x5 where ok: "svc_produce S x4 ''track.uploads'' i (upload_event_json i (audio_key_of i)) = (ok, x5)"
    by (cases "svc_produce S x4 ''track.uploads'' i (upload_event_json i (audio_key_of i))")
  obtain row where row: "r = Some row" "up" "ok" "app_producer A" "w_db w' = d" "b = JSON (enc_track row)"
    using assms f w1 i st up pg ex ok
    by (auto simp: tracks_Create_def Let_def service_defs run_sql split: if_splits option.splits)
  from ins_track_SomeD [OF exec_stmt_SomeD [OF ex [unfolded row(1)]]]
  obtain t where t: "d = (w_db w)\<lparr>d_tracks := d_tracks (w_db w) @ [t]\<rparr>" "row = scan_track t" "svc_cast S i = Some (tr_id t)"
    "tr_artist t \<in> artist_ids (w_db w)" "tr_id t \<notin> track_ids (w_db w)" "tr_title t = ?title"
    "tr_audio t = audio_key_of i" "tr_status t = ''pending''"
    unfolding ext1 by blast
  have "fst (svc_put S x2 (st_bucket st) (audio_key_of i) data ?ct)" using up row(2) by simp
  moreover have "fst (svc_produce S x4 ''track.uploads'' i (upload_event_json i (audio_key_of i)))" using ok row(3) by simp
  ultimately show ?thesis using f(3) st(2,3) row(4-6) t by blast
qed

definition lab_upload_form :: gin_ctx where
  "lab_upload_form = lab_cx ((lab_request ''POST'' ''/v1/tracks'')\<lparr>
     rq_form := (\<lambda>k. if k = ''title'' then ''New'' else ''a''),
     rq_file := (\<lambda>k. Some \<lparr>up_ctype = '''', up_data = Some ''mp3''\<rparr>)\<rparr>)"

theorem accepted_upload_witness:
  "\<exists>b w' t. run_state (tracks_Create lab (sv_app lab_server) lab_upload_form) (lab_world lab_db) = (Reply 202 b, w') \<and>
     d_tracks (w_db w') = d_tracks lab_db @ [t] \<and> tr_status t = ''pending'' \<and> tr_title t = ''New''"
proof -
  obtain b w' where run:
    "run_state (tracks_Create lab (sv_app lab_server) lab_upload_form) (lab_world lab_db) = (Reply 202 b, w')"
    by (simp add: tracks_Create_def lab_upload_form_def lab_cx_def lab_request_def lab_server_def run_sql exec_stmt_def
        sel_artist_exists_def select_row_def lab_db_def lab_artist_def lab_track_def service_defs ins_track_def insert_row_def
        lab_digits Let_def)
  from accepted_upload [OF run] run show ?thesis
    by (auto simp: lab_upload_form_def lab_cx_def)
qed

section \<open>Streams\<close>

text \<open>The key that \<open>Stream\<close> finds: of the format asked for, or of the original audio.\<close>

abbreviation stream_key_run :: "'x services \<Rightarrow> string \<Rightarrow> string option \<Rightarrow> ('x, string option) run" where
  "stream_key_run S i by_quality \<equiv>
     (case by_quality of Some k \<Rightarrow> State_Monad.return (Some k) | None \<Rightarrow> sql S (sel_audio_key (svc_cast S) i))"

definition streamable :: "'x services \<Rightarrow> db \<Rightarrow> string \<Rightarrow> string \<Rightarrow> string \<Rightarrow> bool" where
  "streamable S d i q key \<longleftrightarrow> (\<exists>u. svc_cast S i = Some u \<and>
     ((\<exists>f \<in> set (d_formats d). tf_track f = u \<and> tf_key f = key \<and> svc_cast_int S q = Some (tf_bitrate f)) \<or>
      (\<exists>t \<in> set (d_tracks d). tr_id t = u \<and> tr_audio t = key)))"

lemma by_quality:
  assumes "run_state (sql S (sel_format_key (svc_cast S) (svc_cast_int S) i q)) w = (bq, w1)"
  shows "\<exists>x. w1 = w\<lparr>w_ext := x\<rparr> \<and> (\<forall>key. bq = Some key \<longrightarrow> streamable S (w_db w) i q key)"
proof -
  obtain x where x: "w1 = w\<lparr>w_ext := x\<rparr>" "bq = None \<or> bq = (case (svc_cast S i, svc_cast_int S q) of
      (Some u, Some b) \<Rightarrow> map_option tf_key (find (\<lambda>f. tf_track f = u \<and> tf_bitrate f = b) (d_formats (w_db w))) | _ \<Rightarrow> None)"
    by (rule run_select [OF assms [unfolded sel_format_key_def]])
  have "streamable S (w_db w) i q key" if "bq = Some key" for key
    using x(2) that unfolding streamable_def
    by (auto split: option.splits dest!: sym [of "Some key"] dest: find_SomeD)
  with x(1) show ?thesis by blast
qed

lemma stream_key_found:
  assumes "run_state (stream_key_run S i bq) w = (k, w2)"
  shows "\<exists>x. w2 = w\<lparr>w_ext := x\<rparr> \<and> (\<forall>key. k = Some key \<longrightarrow> bq = Some key \<or> streamable S (w_db w) i q key)"
proof (cases bq)
  case None
  with assms have "run_state (sql S (sel_audio_key (svc_cast S) i)) w = (k, w2)" by simp
  then obtain x where x: "w2 = w\<lparr>w_ext := x\<rparr>"
    "k = None \<or> k = (case svc_cast S i of None \<Rightarrow> None | Some u \<Rightarrow> map_option tr_audio (track_by_id (w_db w) u))"
    unfolding sel_audio_key_def by (rule run_select)
  have "streamable S (w_db w) i q key" if "k = Some key" for key
    using x(2) that unfolding streamable_def
    by (auto split: option.splits dest!: sym [of "Some key"] dest: track_by_id_SomeD)
  with x(1) show ?thesis by blast
next
  case (Some key)
  with assms show ?thesis by (intro exI [of _ "w_ext w"]) auto
qed

text \<open>
  C17. A stream request is redirected (307) only to the URL presigned, for one hour, for a key that the
  tables hold for the requested track: the one of the requested quality, or the original audio when
  that statement finds none. Whatever the status of the track, one goroutine is started to publish the play.
\<close>

theorem stream_redirect:
  assumes "run_state (tracks_Stream S A cx) w = (Reply 307 (Location url), w')"
  shows "\<exists>u st key x. svc_cast S (param cx ''id'') = Some u \<and> app_store A = Some st \<and>
     ((\<exists>f \<in> set (d_formats (w_db w)). tf_track f = u \<and> tf_key f = key \<and>
         svc_cast_int S (default_query cx ''quality'' ''128'') = Some (tf_bitrate f)) \<or>
      (\<exists>t \<in> set (d_tracks (w_db w)). tr_id t = u \<and> tr_audio t = key)) \<and>
     fst (svc_presign S x (st_bucket st) key 3600) = Some url \<and> w_db w' = w_db w \<and>
     w_tasks w' = w_tasks w @ [Publish_play (param cx ''id'')]"
proof -
  let ?i = "param cx ''id''" and ?q = "default_query cx ''quality'' ''128''"
  obtain bq w1 where w1: "run_state (sql S (sel_format_key (svc_cast S) (svc_cast_int S) ?i ?q)) w = (bq, w1)" by fastforce
  obtain k w2 where w2: "run_state (stream_key_run S ?i bq) w1 = (k, w2)" by fastforce
  obtain x1 where x1: "w1 = w\<lparr>w_ext := x1\<rparr>" "\<And>key. bq = Some key \<Longrightarrow> streamable S (w_db w) ?i ?q key"
    using by_quality [OF w1] by blast
  obtain x2 where x2: "w2 = w\<lparr>w_ext := x2\<rparr>" "\<And>key. k = Some key \<Longrightarrow> streamable S (w_db w) ?i ?q key"
    using stream_key_found [OF w2, of ?q] x1 by auto
  obtain st key where st: "app_store A = Some st" "k = Some key"
    using assms w1 w2 by (auto simp: tracks_Stream_def Let_def split: if_splits option.splits)
  have "fst (svc_presign S x2 (st_bucket st) key 3600) = Some url \<and> w_db w' = w_db w \<and>
      w_tasks w' = w_tasks w @ [Publish_play ?i]"
    using assms w1 w2 st x2(1)
    by (auto simp: tracks_Stream_def Let_def service_defs split: if_splits option.splits prod.splits)
  moreover have "streamable S (w_db w) ?i ?q key" by (rule x2(2) [OF st(2)])
  ultimately show ?thesis using st(1) unfolding streamable_def by blast
qed

theorem stream_redirect_witness:
  "\<exists>url w'. run_state (tracks_Stream lab (sv_app lab_server) (lab_cx ((lab_request ''GET'' '''')\<lparr>rq_param := (\<lambda>_. ''t'')\<rparr>)))
       (lab_world lab_db) = (Reply 307 (Location url), w') \<and> w_tasks w' = [Publish_play ''t'']"
proof -
  let ?cx = "lab_cx ((lab_request ''GET'' '''')\<lparr>rq_param := (\<lambda>_. ''t'')\<rparr>)"
  obtain url w' where run: "run_state (tracks_Stream lab (sv_app lab_server) ?cx) (lab_world lab_db) = (Reply 307 (Location url), w')"
    by (simp add: tracks_Stream_def lab_cx_def lab_request_def lab_server_def run_sql exec_stmt_def default_query_def
        sel_format_key_def sel_audio_key_def select_row_def lab_db_def lab_track_def track_by_id_def service_defs empty_db_def Let_def)
  from stream_redirect [OF run] run show ?thesis by (auto simp: lab_cx_def lab_request_def)
qed

section \<open>The cache of a track\<close>

text \<open>A hit answers what the cache holds, and asks nothing else.\<close>

lemma get_hit:
  assumes "svc_uuid_ok S (param cx ''id'')" and "dec_track j = Some t"
    and "svc_cache_get S (w_ext w) (''track:'' @ param cx ''id'') = (Some (Doc j), x)"
  shows "run_state (tracks_Get S cx) w =
     (Reply 200 (JSON (enc_track t)), w\<lparr>w_ext := x, w_counts := CacheHits ''track'' # w_counts w\<rparr>)"
  using assms by (simp add: tracks_Get_def Let_def cache_Get_def decode_cached_def ok_json_def)

text \<open>
  C18. What \<open>Get\<close> answers on a miss it answers again on every hit: the row of the track with its formats
  is cached, for an hour, exactly when the track is ready (after the lookup in the cache and the two
  statements the outside is otherwise left alone), and a later request that finds the entry gets the
  same answer without asking the database.
\<close>

theorem cached_track_repeats:
  assumes "run_state (tracks_Get S cx) w = (Reply 200 (JSON j), w')" and "columns_fit (w_db w)"
    and "decode_cached dec_track (fst (svc_cache_get S (w_ext w) (''track:'' @ param cx ''id''))) = None"
  shows "\<exists>t. t \<in> set (d_tracks (w_db w)) \<and> svc_cast S (param cx ''id'') = Some (tr_id t) \<and> w_db w' = w_db w \<and>
     w_ext w' = (let x = snd (svc_pg S (snd (svc_pg S (snd (svc_cache_get S (w_ext w) (''track:'' @ param cx ''id'')))))) in
        if tr_status t = ''ready'' then svc_cache_set S x (''track:'' @ param cx ''id'') (Doc j) 3600 else x) \<and>
     (\<forall>v x' cx'. param cx' ''id'' = param cx ''id'' \<longrightarrow>
        svc_cache_get S (w_ext v) (''track:'' @ param cx ''id'') = (Some (Doc j), x') \<longrightarrow>
        run_state (tracks_Get S cx') v =
          (Reply 200 (JSON j), v\<lparr>w_ext := x', w_counts := CacheHits ''track'' # w_counts v\<rparr>))"
proof -
  let ?i = "param cx ''id''"
  obtain c x0 where c: "svc_cache_get S (w_ext w) (''track:'' @ ?i) = (c, x0)" by fastforce
  obtain e1 x1 where e1: "svc_pg S x0 = (e1, x1)" by fastforce
  obtain e2 x2 where e2: "svc_pg S x1 = (e2, x2)" by fastforce
  have miss: "decode_cached dec_track c = None" using assms(3) c by simp
  have ok: "svc_uuid_ok S ?i" using assms(1) by (rule contrapos_pp) (simp add: tracks_Get_def fail_with_def)
  obtain r d where sel: "exec_stmt e1 (sel_track (svc_cast S) ?i) (w_db w) = (r, d)" by fastforce
  obtain row where row: "r = Some row"
    using assms(1) miss ok c e1 sel
    by (cases r) (auto simp: tracks_Get_def Let_def cache_Get_def run_sql fail_with_def)
  obtain t where t: "d = w_db w" "row = scan_track t" "t \<in> set (d_tracks (w_db w))" "svc_cast S ?i = Some (tr_id t)"
    using exec_stmt_SomeD [OF sel [unfolded row]]
    by (auto simp: sel_track_def select_row_def dest: track_by_id_SomeD split: option.splits)
  define shown where "shown = (case query_rows e2 (sel_formats (svc_cast S) ?i) (w_db w) of
      None \<Rightarrow> scan_track t | Some fs \<Rightarrow> (scan_track t)\<lparr>row_formats := fs\<rparr>)"
  have rowok: "row_ok shown"
    using row_ok_selected [OF assms(2) t(3)] row_ok_scan [OF assms(2) t(3)] by (auto simp: shown_def split: option.split)
  have status: "row_status shown = tr_status t" by (auto simp: shown_def scan_track_def split: option.split)
  have run: "j = enc_track shown \<and> w_db w' = w_db w \<and>
      w_ext w' = (if tr_status t = ''ready'' then svc_cache_set S x2 (''track:'' @ ?i) (Doc j) 3600 else x2)"
    using assms(1) miss ok c e1 e2 sel row t(1,2) status
    by (auto simp: tracks_Get_def Let_def cache_Get_def cache_Set_def run_sql run_sql_query ok_json_def shown_def
        split: if_splits)
  have "x2 = snd (svc_pg S (snd (svc_pg S (snd (svc_cache_get S (w_ext w) (''track:'' @ ?i))))))"
    unfolding c snd_conv e1 e2 ..
  with run t rowok ok show ?thesis
    unfolding Let_def by (intro exI [of _ t]) (auto simp: dec_enc_track intro!: get_hit)
qed

definition lab_get :: gin_ctx where
  "lab_get = lab_cx ((lab_request ''GET'' ''/v1/tracks/:id'')\<lparr>rq_param := (\<lambda>_. ''t'')\<rparr>)"

theorem cached_track_repeats_witness:
  "\<exists>j w'. run_state (tracks_Get lab lab_get) (lab_world lab_db) = (Reply 200 (JSON j), w') \<and> w_db w' = lab_db"
proof -
  obtain j w' where run: "run_state (tracks_Get lab lab_get) (lab_world lab_db) = (Reply 200 (JSON j), w')"
    by (simp add: tracks_Get_def lab_get_def lab_cx_def lab_request_def cache_Get_def decode_cached_def Let_def run_sql
        run_sql_query exec_stmt_def sel_track_def select_row_def track_by_id_def lab_db_def lab_track_def ok_json_def
        query_rows_def sel_formats_def scan_track_def)
  have fit: "columns_fit (w_db (lab_world lab_db))" by (simp add: lab_columns_fit)
  have "decode_cached dec_track (fst (svc_cache_get lab (w_ext (lab_world lab_db)) (''track:'' @ param lab_get ''id''))) = None"
    by (simp add: decode_cached_def)
  from cached_track_repeats [OF run fit this] run show ?thesis by auto
qed

end
