(* ===== verification/Paging.thy ===== *)
theory Paging
  imports Lab
begin

text \<open>
  Reading things piece by piece: a client that follows the cursors of \<open>ListTracks\<close> over tables that do
  not change meanwhile, and the reader over a byte slice.
\<close>

section \<open>Positions\<close>

text \<open>No statement names the column \<open>position\<close>, so every entry has its default.\<close>

definition unplaced :: "db \<Rightarrow> bool" where
  "unplaced d \<longleftrightarrow> (\<forall>p \<in> set (d_ptracks d). pt_position p = 0)"

lemma ptracks_change:
  assumes "db_step d d'"
  obtains (same) "d_ptracks d' = d_ptracks d"
    | (added) p where "pt_position p = 0" "d_ptracks d' = d_ptracks d @ [p]"
    | (removed) P where "d_ptracks d' = delete_where P (d_ptracks d)"
  using assms
proof (cases rule: db_step.cases)
  case (step_add cast i tid e x)
  then have "d_ptracks d' = d_ptracks d \<or> (\<exists>p. pt_position p = 0 \<and> d_ptracks d' = d_ptracks d @ [p])"
    by (auto simp: op_defs insert_or_ignore_def Let_def split: option.splits if_splits)
  then show ?thesis using same added by blast
next
  case (step_del_playlist cast i owner e n)
  then show ?thesis by (auto elim!: del_playlist_shape intro: removed)
next
  case (step_remove cast i tid e x)
  then show ?thesis by (cases "cast i"; cases "cast tid") (auto simp: op_defs intro: removed)
qed (rule same, (drule frames)+, elim exE, simp)+

lemma step_unplaced: "db_step d d' \<Longrightarrow> unplaced d \<Longrightarrow> unplaced d'"
  by (erule ptracks_change) (auto simp: unplaced_def delete_where_def)

lemma reachable_unplaced: "reachable d \<Longrightarrow> unplaced d"
  unfolding reachable_def
  by (erule steps_invariant) (auto intro: step_unplaced, simp add: unplaced_def empty_db_def)

section \<open>The order of the entries\<close>

definition entries_of :: "db \<Rightarrow> uuid \<Rightarrow> playlist_track list" where
  "entries_of d u = filter (\<lambda>pt. pt_playlist pt = u) (d_ptracks d)"

lemma mem_map_filter: "x \<in> set (List.map_filter f ys) \<longleftrightarrow> (\<exists>y \<in> set ys. f y = Some x)"
  by (induction ys) (auto split: option.splits)

lemma join_sorted:
  "sorted_wrt R ys \<Longrightarrow> sorted_wrt (\<lambda>p q. R (fst p) (fst q)) (List.map_filter (\<lambda>y. map_option (Pair y) (f y)) ys)"
proof (induction ys)
  case (Cons y ys)
  then show ?case by (cases "f y") (auto simp: mem_map_filter)
qed simp

lemma entries_increasing:
  assumes "unplaced d" and "distinct (map pt_added (entries_of d u))"
  shows "sorted_wrt (\<lambda>p q. pt_added (fst p) < pt_added (fst q)) (playlist_entries d u)"
proof -
  let ?ys = "sort_key pt_added (entries_of d u)"
  have "map pt_position ?ys = replicate (length ?ys) 0"
    using assms(1) by (intro replicate_eqI) (auto simp: unplaced_def entries_of_def)
  then have "sort_key pt_position ?ys = ?ys" by (intro sort_key_id_if_sorted) simp
  moreover have "sorted_wrt (\<lambda>p q. pt_added p < pt_added q) ?ys"
  proof -
    have "distinct (map pt_added ?ys)"
      using assms(2) by (metis distinct_map distinct_sort set_sort)
    then have "sorted_wrt (<) (map pt_added ?ys)" by (simp add: strict_sorted_iff)
    then show ?thesis by (simp add: sorted_wrt_map)
  qed
  ultimately show ?thesis
    unfolding playlist_entries_def entries_of_def [symmetric]
    using join_sorted [of "\<lambda>p q. pt_added p < pt_added q" _ "\<lambda>pt. track_by_id d (pt_track pt)"] by simp
qed

lemma playlist_entriesD:
  "(pt, t) \<in> set (playlist_entries d u) \<Longrightarrow>
     pt \<in> set (d_ptracks d) \<and> pt_playlist pt = u \<and> tr_id t = pt_track pt \<and> t \<in> set (d_tracks d)"
  by (auto simp: playlist_entries_def mem_map_filter dest!: track_by_id_SomeD)

lemma cursor_of_entry:
  assumes "keys_ok d" and "(pt, t) \<in> set (playlist_entries d u)"
  shows "cursor_added d u (tr_id t) = Some (pt_added pt)"
proof -
  have pt: "pt \<in> set (d_ptracks d)" "pt_playlist pt = u" "tr_id t = pt_track pt"
    using playlist_entriesD [OF assms(2)] by auto
  have "find (\<lambda>p. pt_key p = pt_key pt) (d_ptracks d) = Some pt"
    using assms(1) pt(1) by (intro find_unique_key) (auto simp: keys_ok_def)
  then show ?thesis using pt(2,3) by (simp add: cursor_added_def pt_key_def)
qed

text \<open>After the cursor of a prefix comes the rest.\<close>

lemma entries_after_split:
  assumes "keys_ok d" and "sorted_wrt (\<lambda>p q. pt_added (fst p) < pt_added (fst q)) (playlist_entries d u)"
    and "playlist_entries d u = xs @ [(pt, t)] @ ys"
  shows "entries_after d u (tr_id t) = ys"
proof -
  have "cursor_added d u (tr_id t) = Some (pt_added pt)"
    using assms(3) by (intro cursor_of_entry [OF assms(1)]) simp
  moreover have "filter (\<lambda>p. pt_added pt < pt_added (fst p)) xs = []" "filter (\<lambda>p. pt_added pt < pt_added (fst p)) ys = ys"
    using assms(2) unfolding assms(3) by (fastforce simp: sorted_wrt_append filter_empty_conv filter_id_conv)+
  ultimately show ?thesis by (simp add: entries_after_def assms(3) case_prod_unfold)
qed

section \<open>A client that follows the cursors\<close>

fun read_pages :: "(string \<Rightarrow> uuid option) \<Rightarrow> pg_env \<Rightarrow> db \<Rightarrow> string \<Rightarrow> nat \<Rightarrow> string \<Rightarrow> trackRow list option" where
  "read_pages cast e d i 0 after = None"
| "read_pages cast e d i (Suc fuel) after =
     (case (if after = '''' then sel_first_page cast i (page_limit + 1) e d
            else sel_next_page cast i after (page_limit + 1) e d) of
        None \<Rightarrow> None
      | Some rows \<Rightarrow> (case page_of page_limit rows of (items, cursor, hasMore) \<Rightarrow>
          if hasMore then map_option ((@) items) (read_pages cast e d i fuel cursor) else Some items))"

abbreviation shown :: "(playlist_track \<times> track) list \<Rightarrow> trackRow list" where
  "shown es \<equiv> map (scan_track_no_status \<circ> snd) es"

lemma row_id_shown [simp]: "row_id (scan_track_no_status t) = tr_id t"
  by (simp add: scan_track_no_status_def scan_track_def)

lemma read_pages_rest:
  assumes "keys_ok d" and "sorted_wrt (\<lambda>p q. pt_added (fst p) < pt_added (fst q)) (playlist_entries d u)"
    and "cast i = Some u" and "\<And>t. t \<in> track_ids d \<Longrightarrow> cast t = Some t \<and> t \<noteq> ''''"
  shows "playlist_entries d u = xs @ ys \<Longrightarrow> length ys < fuel \<Longrightarrow>
     after = (if xs = [] then '''' else tr_id (snd (last xs))) \<Longrightarrow>
     read_pages cast e d i fuel after = Some (shown ys)"
proof (induction fuel arbitrary: xs ys after)
  case (Suc fuel)
  let ?E = "playlist_entries d u" and ?L = page_limit
  have rows: "(if after = '''' then sel_first_page cast i (?L + 1) e d else sel_next_page cast i after (?L + 1) e d) =
      Some (shown (take (?L + 1) ys))"
  proof (cases "xs = []")
    case True
    with Suc.prems assms(3) show ?thesis by (simp add: sel_first_page_def)
  next
    case False
    then obtain zs pt t where xs: "xs = zs @ [(pt, t)]" by (metis append_butlast_last_id surj_pair)
    then have "(pt, t) \<in> set ?E" using Suc.prems(1) by simp
    then have "tr_id t \<in> track_ids d" by (auto dest: playlist_entriesD)
    then have "cast (tr_id t) = Some (tr_id t)" "tr_id t \<noteq> ''''" using assms(4) by auto
    moreover have "entries_after d u (tr_id t) = ys"
      using Suc.prems(1) xs by (intro entries_after_split [OF assms(1,2)]) simp
    ultimately show ?thesis using Suc.prems(3) xs assms(3) by (simp add: sel_next_page_def)
  qed
  show ?case
  proof (cases "?L < length ys")
    case False
    then show ?thesis by (simp add: rows page_of_def Let_def)
  next
    case True
    let ?items = "take ?L ys"
    have ne: "?items \<noteq> []" using True by (auto simp: page_limit_def)
    have page: "page_of ?L (shown (take (?L + 1) ys)) = (shown ?items, tr_id (snd (last ?items)), True)"
      using True ne by (simp add: page_of_def Let_def take_map last_map)
    have "read_pages cast e d i fuel (tr_id (snd (last ?items))) = Some (shown (drop ?L ys))"
      using Suc.prems True ne
      by (intro Suc.IH [of "xs @ ?items"]) (auto simp: page_limit_def)
    then show ?thesis
      by (simp only: read_pages.simps rows option.case page prod.case if_True option.map map_append [symmetric]
          append_take_drop_id)
  qed
qed simp

text \<open>
  C19. A client that follows the cursors of \<open>ListTracks\<close> to the end, page by page of 50, reads every track
  of the playlist exactly once and in order, for every state of the tables that the program can
  produce, provided no two entries of the playlist were added at the same instant.
\<close>

theorem pages_cover_playlist:
  assumes "reachable d" and "distinct (map pt_added (entries_of d u))"
    and "cast i = Some u" and "\<And>t. t \<in> track_ids d \<Longrightarrow> cast t = Some t \<and> t \<noteq> ''''"
    and "length (playlist_entries d u) < fuel"
  shows "read_pages cast e d i fuel '''' = Some (shown (playlist_entries d u))"
proof -
  have "keys_ok d" using reachable_tables_ok [OF assms(1)] by (simp add: tables_ok_def db_ok_def)
  from read_pages_rest [OF this entries_increasing [OF reachable_unplaced [OF assms(1)] assms(2)] assms(3,4),
      of "[]" "playlist_entries d u" fuel "''''" e] assms(5)
  show ?thesis by simp
qed

text \<open>A playlist of two tracks, as the program's own statements build it.\<close>

definition lab_list_db :: db where
  "lab_list_db = empty_db\<lparr>
     d_artists := [\<lparr>ar_id = ''a'', ar_name = ''Ann'', ar_created = 0\<rparr>],
     d_tracks := map (\<lambda>i. \<lparr>tr_id = i, tr_title = ''Song'', tr_artist = ''a'', tr_duration = 0, tr_audio = ''k'',
        tr_release = None, tr_plays = 0, tr_created = 0, tr_status = ''pending''\<rparr>) [''t1'', ''t2''],
     d_playlists := [\<lparr>pl_id = ''p'', pl_name = ''List'', pl_owner = None, pl_created = 0\<rparr>],
     d_ptracks := [\<lparr>pt_playlist = ''p'', pt_track = ''t2'', pt_position = 0, pt_added = 1\<rparr>,
                   \<lparr>pt_playlist = ''p'', pt_track = ''t1'', pt_position = 0, pt_added = 2\<rparr>]\<rparr>"

lemma lab_list_reachable: "reachable lab_list_db"
proof -
  let ?e = "\<lambda>i n. (lab_env n)\<lparr>e_id := i, e_now := int n\<rparr>"
  let ?art = "\<lparr>ar_id = ''a'', ar_name = ''Ann'', ar_created = 0\<rparr>"
  let ?t = "\<lambda>i. \<lparr>tr_id = i, tr_title = ''Song'', tr_artist = ''a'', tr_duration = 0, tr_audio = ''k'',
        tr_release = None, tr_plays = 0, tr_created = 0, tr_status = ''pending''\<rparr>"
  let ?pl = "\<lparr>pl_id = ''p'', pl_name = ''List'', pl_owner = None, pl_created = 0\<rparr>"
  let ?d1 = "empty_db\<lparr>d_artists := [?art]\<rparr>"
  let ?d2 = "?d1\<lparr>d_tracks := [?t ''t1'']\<rparr>"
  let ?d3 = "?d2\<lparr>d_tracks := [?t ''t1'', ?t ''t2'']\<rparr>"
  let ?d4 = "?d3\<lparr>d_playlists := [?pl]\<rparr>"
  let ?d5 = "?d4\<lparr>d_ptracks := [\<lparr>pt_playlist = ''p'', pt_track = ''t2'', pt_position = 0, pt_added = 1\<rparr>]\<rparr>"
  have "db_step empty_db ?d1"
    by (rule step_artist [where name = "''Ann''" and e = "?e ''a'' 0" and a = ?art])
      (simp add: ins_artist_def insert_row_def empty_db_def Let_def)
  moreover have "db_step ?d1 ?d2"
    by (rule step_track [where cast = Some and i = "''t1''" and title = "''Song''" and art = "''a''" and audio = "''k''"
          and e = "?e ''x'' 0" and r = "scan_track (?t ''t1'')"])
      (simp add: ins_track_def insert_row_def empty_db_def Let_def)
  moreover have "db_step ?d2 ?d3"
    by (rule step_track [where cast = Some and i = "''t2''" and title = "''Song''" and art = "''a''" and audio = "''k''"
          and e = "?e ''x'' 0" and r = "scan_track (?t ''t2'')"])
      (simp add: ins_track_def insert_row_def empty_db_def Let_def)
  moreover have "db_step ?d3 ?d4"
    by (rule step_playlist [where name = "''List''" and e = "?e ''p'' 0" and p = ?pl])
      (simp add: ins_playlist_def insert_row_def empty_db_def Let_def)
  moreover have "db_step ?d4 ?d5"
    by (rule step_add [where cast = Some and i = "''p''" and tid = "''t2''" and e = "?e ''x'' 1" and x = "()"])
      (simp add: ins_playlist_track_def insert_or_ignore_def pt_key_def empty_db_def Let_def)
  moreover have "db_step ?d5 lab_list_db"
    by (rule step_add [where cast = Some and i = "''p''" and tid = "''t1''" and e = "?e ''x'' 2" and x = "()"])
      (simp add: ins_playlist_track_def insert_or_ignore_def pt_key_def empty_db_def lab_list_db_def Let_def)
  ultimately show ?thesis
    unfolding reachable_def by (meson rtranclp.rtrancl_into_rtrancl rtranclp.rtrancl_refl)
qed

theorem pages_cover_playlist_witness:
  "map_option (map row_id) (read_pages Some (lab_env 0) lab_list_db ''p'' 3 '''') = Some [''t2'', ''t1'']"
proof -
  have entries: "playlist_entries lab_list_db ''p'' = zip (d_ptracks lab_list_db) (rev (d_tracks lab_list_db))"
    by (simp add: playlist_entries_def track_by_id_def lab_list_db_def)
  have "read_pages Some (lab_env 0) lab_list_db ''p'' 3 '''' = Some (shown (playlist_entries lab_list_db ''p''))"
  proof (rule pages_cover_playlist [OF lab_list_reachable])
    show "distinct (map pt_added (entries_of lab_list_db ''p''))" by (simp add: entries_of_def lab_list_db_def)
    show "Some t = Some t \<and> t \<noteq> ''''" if "t \<in> track_ids lab_list_db" for t
      using that by (auto simp: lab_list_db_def)
    show "length (playlist_entries lab_list_db ''p'') < 3" unfolding entries by (simp add: lab_list_db_def)
  qed (rule refl)
  moreover have "map row_id (shown (playlist_entries lab_list_db ''p'')) = [''t2'', ''t1'']"
    unfolding entries by (simp add: lab_list_db_def)
  ultimately show ?thesis by (simp only: option.map)
qed

section \<open>bytesReader\<close>

text \<open>
  Reading from a \<open>bytesReader\<close> with a buffer of any positive size ends after at most one call more
  than there are bytes, and the pieces make up the data.
\<close>

theorem reader_delivers:
  assumes "0 < n"
  shows "br_read_all (Suc (length data)) (newBytesReader data) n = Some data"
  using br_read_all_drop [OF assms, of "newBytesReader data" "Suc (length data)"] by (simp add: newBytesReader_def)

theorem reader_delivers_witness: "br_read_all 6 (newBytesReader ''audio'') 2 = Some ''audio''"
  using reader_delivers [of 2 "''audio''"] by (simp add: eval_nat_numeral)

end
