(* ===== verification/Token_Buckets.thy ===== *)
theory Token_Buckets
  imports Rate_Limit
begin

text \<open>
  The two scripts as token buckets: a request runs the script on the stored hash and stores what it
  writes. Both satisfy the contract \<open>token_bucket\<close>, so the bound on admitted requests holds for
  both.
\<close>

definition bucket_step :: "script \<Rightarrow> (rat \<times> rat) option \<Rightarrow> bool \<times> (rat \<times> rat) option" where
  "bucket_step sc b = (let r = sc (map_option fst b, map_option snd b) in
     (hd (sc_reply r) = 1, case sc_write r of None \<Rightarrow> b | Some v \<Rightarrow> Some v))"

definition stream_admit :: "int \<Rightarrow> (rat \<times> rat) option \<Rightarrow> rat \<Rightarrow> bool \<times> (rat \<times> rat) option" where
  "stream_admit m b now = bucket_step (stream_script (of_int m) (of_int m / 3600) now 1) b"

definition demo_admit :: "int \<Rightarrow> int \<Rightarrow> int \<Rightarrow> (rat \<times> rat) option \<Rightarrow> rat \<Rightarrow> bool \<times> (rat \<times> rat) option" where
  "demo_admit m r c b now = bucket_step (demo_script (of_int m) (of_int r) now (of_int c)) b"

definition demo_ttl :: "int \<Rightarrow> int \<Rightarrow> rat" where
  "demo_ttl m r = of_int (\<lceil>(of_int m :: rat) / of_int r\<rceil> * 2)"

lemmas bucket_defs = bucket_step_def stream_script_def demo_script_def level_def stored_ok_def

section \<open>The stream limiter\<close>

lemma stream_admit_eq:
  assumes "stored_ok (of_int m) b now" and "0 < m"
  shows "stream_admit m b now =
     (let v = level (of_int m) (of_int m / 3600) b now
      in if 1 \<le> v then (True, Some (v - 1, now)) else (False, Some (v, now)))"
proof (cases b)
  case None
  with assms show ?thesis by (simp add: stream_admit_def bucket_defs Let_def)
next
  case (Some p)
  with assms show ?thesis
    by (cases p) (simp add: stream_admit_def bucket_defs Let_def)
qed

lemma stream_bucket: "0 < m \<Longrightarrow> token_bucket (of_int m) (of_int m / 3600) 1 3600 (stream_admit m)"
proof -
  assume m: "0 < m"
  have lev: "0 \<le> level (of_int m :: rat) (of_int m / 3600) b now" if "stored_ok (of_int m) b now" for b now
    using that m by (auto simp: level_def stored_ok_def split: option.splits)
  have cap: "level (of_int m :: rat) (of_int m / 3600) b now \<le> of_int m" for b now
    by (auto simp: level_def split: option.splits)
  have m1: "1 \<le> (of_int m :: rat)" using m by simp
  show ?thesis
  proof
    show "0 < (of_int m :: rat) / 3600" "(0::rat) \<le> 1" "0 \<le> (of_int m :: rat)"
      "(of_int m :: rat) \<le> 3600 * (of_int m / 3600)" using m by auto
  next
    fix b b' :: "(rat \<times> rat) option" and now :: rat
    assume ok: "stored_ok (of_int m) b now"
    let ?v = "level (of_int m :: rat) (of_int m / 3600) b now"
    show "stream_admit m b now = (True, b') \<Longrightarrow>
        1 \<le> ?v \<and> level (of_int m) (of_int m / 3600) b' now = ?v - 1"
      using cap [of b now] by (auto simp: stream_admit_eq [OF ok m] Let_def level_def split: if_splits)
    show "stream_admit m b now = (False, b') \<Longrightarrow>
        ?v < 1 \<and> level (of_int m) (of_int m / 3600) b' now = ?v"
      using m1 by (auto simp: stream_admit_eq [OF ok m] Let_def level_def split: if_splits)
    show "stream_admit m b now = (a, b') \<Longrightarrow> stored_ok (of_int m) b' now" for a
      using lev [OF ok] cap [of b now]
      by (auto simp: stream_admit_eq [OF ok m] Let_def stored_ok_def split: if_splits)
  qed
qed

text \<open>
  The limiter that \<open>main.go\<close> installs: 100 streams an hour. The bucket is full an hour after the last
  write, and the script lets the key live for two.
\<close>

interpretation api_stream: token_bucket 100 "100 / 3600" 1 3600 "stream_admit 100"
  using stream_bucket [of 100] by simp

section \<open>The demo\<close>

lemma demo_admit_eq:
  assumes "stored_ok (of_int m) b now"
  shows "demo_admit m r c b now =
     (let v = level (of_int m) (of_int r) b now
      in if v < of_int c then (False, b) else (True, Some (v - of_int c, now)))"
  using assms
  by (cases b) (auto simp: demo_admit_def bucket_defs Let_def)

lemma demo_bucket:
  assumes "0 \<le> m" "0 < r" "0 \<le> c"
  shows "token_bucket (of_int m) (of_int r) (of_int c) (demo_ttl m r) (demo_admit m r c)"
proof
  show "0 < (of_int r :: rat)" "0 \<le> (of_int c :: rat)" "0 \<le> (of_int m :: rat)"
    using assms by auto
  have "(of_int m :: rat) / of_int r \<le> of_int \<lceil>(of_int m :: rat) / of_int r\<rceil>" by (rule le_of_int_ceiling)
  moreover have "0 \<le> (of_int m :: rat) / of_int r" using assms by simp
  moreover have "demo_ttl m r = 2 * of_int \<lceil>(of_int m :: rat) / of_int r\<rceil>" by (simp add: demo_ttl_def)
  ultimately have "(of_int m :: rat) / of_int r \<le> demo_ttl m r" by linarith
  then show "(of_int m :: rat) \<le> demo_ttl m r * of_int r"
    using assms by (simp add: pos_divide_le_eq)
next
  fix b b' :: "(rat \<times> rat) option" and now :: rat
  assume ok: "stored_ok (of_int m) b now"
  let ?v = "level (of_int m :: rat) (of_int r) b now"
  have cap: "?v \<le> of_int m" by (auto simp: level_def split: option.splits)
  have c: "0 \<le> (of_int c :: rat)" using assms by simp
  show "demo_admit m r c b now = (True, b') \<Longrightarrow>
      of_int c \<le> ?v \<and> level (of_int m) (of_int r) b' now = ?v - of_int c"
    using cap c by (auto simp: demo_admit_eq [OF ok] Let_def level_def split: if_splits)
  show "demo_admit m r c b now = (False, b') \<Longrightarrow>
      ?v < of_int c \<and> level (of_int m) (of_int r) b' now = ?v"
    by (auto simp: demo_admit_eq [OF ok] Let_def split: if_splits)
  show "demo_admit m r c b now = (a, b') \<Longrightarrow> stored_ok (of_int m) b' now" for a
    using cap c ok by (auto simp: demo_admit_eq [OF ok] Let_def stored_ok_def split: if_splits)
qed

text \<open>The bucket of the demo's \<open>main\<close>: capacity 5, one token a second, cost 1.\<close>

interpretation demo_main: token_bucket "of_int 5" "of_int 1" "of_int 1" "demo_ttl 5 1" "demo_admit 5 1 1"
  by (rule demo_bucket) simp_all

end
