(* ===== verification/Stream_Limit.thy ===== *)
theory Stream_Limit
  imports Lab Token_Buckets
begin

text \<open>
  The limiter of the stream route at work: \<open>StreamRateLimit\<close> in front of \<open>Stream\<close>, against a Redis that
  keeps the hash of one address, and the number of requests that get through in a given time.
\<close>

section \<open>Redis\<close>

text \<open>
  \<open>bucket x\<close> is the hash under a key in the state \<open>x\<close> of the outside, \<open>time x\<close> the time in seconds. A step of
  the outside that is not the script on this key lets time pass and leaves the hash, or the key expires,
  two hours after the last write at the earliest (\<open>EXPIRE key 7200\<close>).
\<close>

definition passes :: "('x \<Rightarrow> (rat \<times> rat) option) \<Rightarrow> ('x \<Rightarrow> rat) \<Rightarrow> 'x \<Rightarrow> 'x \<Rightarrow> bool" where
  "passes bucket time x y \<longleftrightarrow> time x \<le> time y \<and>
     (bucket y = bucket x \<or> bucket y = None \<and> may_expire 7200 (bucket x) (time y))"

text \<open>
  The documented behaviour of what the route calls: the clock does not run backwards; a script sees
  the fields that are stored, answers what it computes and stores what it writes, and takes less than
  an hour (the client gives up after seconds); the database and the object store leave the key alone.
\<close>

definition script_runs :: "('x \<Rightarrow> (rat \<times> rat) option) \<Rightarrow> ('x \<Rightarrow> rat) \<Rightarrow> script \<Rightarrow> 'x \<Rightarrow> int list option \<Rightarrow> 'x \<Rightarrow> bool" where
  "script_runs bucket time sc x reply y \<longleftrightarrow> time x \<le> time y \<and> time y \<le> time x + 3600 \<and>
     (\<exists>b. (b = bucket x \<or> b = None \<and> may_expire 7200 (bucket x) (time y)) \<and>
        reply = Some (sc_reply (sc (map_option fst b, map_option snd b))) \<and>
        bucket y = (case sc_write (sc (map_option fst b, map_option snd b)) of None \<Rightarrow> b | Some v \<Rightarrow> Some v))"

definition redis_bucket :: "'x services \<Rightarrow> string \<Rightarrow> ('x \<Rightarrow> (rat \<times> rat) option) \<Rightarrow> ('x \<Rightarrow> rat) \<Rightarrow> bool" where
  "redis_bucket S key bucket time \<longleftrightarrow>
     (\<forall>x. case svc_clock S x of (t, y) \<Rightarrow> passes bucket time x y \<and> seconds_of t = time y) \<and>
     (\<forall>x sc. case svc_eval S x key sc of (reply, y) \<Rightarrow> script_runs bucket time sc x reply y) \<and>
     (\<forall>x. passes bucket time x (snd (svc_pg S x))) \<and>
     (\<forall>x n k t. passes bucket time x (snd (svc_presign S x n k t)))"

lemma redis_bucketD:
  assumes "redis_bucket S key bucket time"
  shows "svc_clock S x = (t, y) \<Longrightarrow> passes bucket time x y \<and> seconds_of t = time y"
    and "svc_pg S x = (e, y) \<Longrightarrow> passes bucket time x y"
    and "svc_presign S x n k m = (u, y) \<Longrightarrow> passes bucket time x y"
    and "svc_eval S x key sc = (reply, y) \<Longrightarrow> script_runs bucket time sc x reply y"
  using assms unfolding redis_bucket_def by (auto split: prod.splits dest: spec [of _ x]) (metis snd_conv)+

lemma passes_refl: "passes bucket time x x"
  by (simp add: passes_def)

lemma passes_trans: "passes bucket time x y \<Longrightarrow> passes bucket time y z \<Longrightarrow> passes bucket time x z"
  by (auto simp: passes_def may_expire_def split: option.splits)

section \<open>The level of the bucket\<close>

abbreviation tokens_at :: "(rat \<times> rat) option \<Rightarrow> rat \<Rightarrow> rat" where
  "tokens_at \<equiv> level 100 (100 / 3600)"

abbreviation sound_bucket :: "(rat \<times> rat) option \<Rightarrow> rat \<Rightarrow> bool" where
  "sound_bucket \<equiv> stored_ok 100"

lemma expire_hour: "may_expire 7200 b t \<Longrightarrow> t \<le> now + 3600 \<Longrightarrow> may_expire 3600 b now"
  by (auto simp: may_expire_def split: option.splits)

text \<open>Time fills the bucket at its rate, whether the key expires or not.\<close>

lemma passes_tokens:
  assumes "passes bucket time x y" and "sound_bucket (bucket x) (time x)"
  shows "sound_bucket (bucket y) (time y)"
    and "tokens_at (bucket y) (time y) \<le> tokens_at (bucket x) (time x) + (time y - time x) * (100 / 3600)"
proof -
  have le: "time x \<le> time y" using assms(1) by (simp add: passes_def)
  have later: "sound_bucket (bucket x) (time y)" by (rule api_stream.stored_ok_later [OF assms(2) le])
  define gone where "gone = (bucket y \<noteq> bucket x)"
  have y: "bucket y = (if gone then None else bucket x)" "gone \<longrightarrow> may_expire 3600 (bucket x) (time y)"
    using assms(1) expire_hour [of "bucket x" "time y" "time y"] by (auto simp: passes_def gone_def)
  from y(1) later show "sound_bucket (bucket y) (time y)" by (simp add: api_stream.stored_ok_None)
  have "tokens_at (bucket y) (time y) = tokens_at (bucket x) (time y)"
    unfolding y(1) by (rule api_stream.expiry_invisible [OF later y(2)])
  also have "\<dots> \<le> tokens_at (bucket x) (time x) + (time y - time x) * (100 / 3600)"
    by (rule api_stream.level_grows [OF le])
  finally show "tokens_at (bucket y) (time y) \<le> tokens_at (bucket x) (time x) + (time y - time x) * (100 / 3600)" .
qed

text \<open>The script of a request at \<open>time x\<close>: what it admits is taken from the bucket.\<close>

lemma script_tokens:
  assumes "redis_bucket S key bucket time" and "sound_bucket (bucket x) (time x)"
    and "svc_eval S x key (stream_script (of_int 100) (of_int 100 / 3600) (time x) 1) = (reply, y)"
  shows "\<exists>n. reply = Some [n] \<and> time x \<le> time y \<and> sound_bucket (bucket y) (time y) \<and>
     (if n = 0 then 0 else 1) + tokens_at (bucket y) (time y)
       \<le> tokens_at (bucket x) (time x) + (time y - time x) * (100 / 3600)"
proof -
  let ?sc = "stream_script (of_int 100) (of_int 100 / 3600) (time x) 1"
  obtain b where time: "time x \<le> time y" "time y \<le> time x + 3600"
    and b: "b = bucket x \<or> b = None \<and> may_expire 7200 (bucket x) (time y)"
    and r: "reply = Some (sc_reply (?sc (map_option fst b, map_option snd b)))"
      "bucket y = (case sc_write (?sc (map_option fst b, map_option snd b)) of None \<Rightarrow> b | Some v \<Rightarrow> Some v)"
    using redis_bucketD(4) [OF assms(1,3)] unfolding script_runs_def by blast
  define gone where "gone = (b \<noteq> bucket x)"
  have gone: "b = (if gone then None else bucket x)" "gone \<longrightarrow> may_expire 3600 (bucket x) (time x)"
    using b expire_hour [OF _ time(2)] by (auto simp: gone_def)
  have ok: "sound_bucket b (time x)" using gone(1) assms(2) by (simp add: api_stream.stored_ok_None)
  have same: "tokens_at b (time x) = tokens_at (bucket x) (time x)"
    unfolding gone(1) by (rule api_stream.expiry_invisible [OF assms(2) gone(2)])
  obtain n where n: "reply = Some [n]" "stream_admit 100 b (time x) = (n = 1, bucket y)" "n = 0 \<or> n = 1"
    using r by (auto simp: stream_admit_def bucket_step_def stream_script_def Let_def split: if_splits)
  have stored: "sound_bucket (bucket y) (time x)" by (rule api_stream.stored [OF ok n(2)])
  have "(if n = 0 then 0 else 1) + tokens_at (bucket y) (time x) = tokens_at b (time x)"
    using n(3) api_stream.admitted [OF ok, of "bucket y"] api_stream.denied [OF ok, of "bucket y"] n(2) by auto
  then have "(if n = 0 then 0 else 1) + tokens_at (bucket y) (time y)
      \<le> tokens_at (bucket x) (time x) + (time y - time x) * (100 / 3600)"
    using api_stream.level_grows [OF time(1), of "bucket y"] same by simp
  with n(1) time(1) api_stream.stored_ok_later [OF stored time(1)] show ?thesis by blast
qed

section \<open>Requests\<close>

text \<open>The handler leaves the hash alone and never answers 429 itself.\<close>

lemma stream_handler_passes:
  assumes "redis_bucket S key bucket time"
  shows "post (tracks_Stream S A cx) (\<lambda>r w'. passes bucket time (w_ext w) (w_ext w') \<and> (\<forall>b. r \<noteq> Reply 429 b)) w"
  by (auto simp: post_def tracks_Stream_def fail_with_def storage_PresignedURL_def run_sql Let_def
      dest!: redis_bucketD [OF assms] intro: passes_refl passes_trans split: option.splits prod.splits)

lemma stream_request:
  assumes "redis_bucket (sv_services sv) (stream_key (rq_ip (cx_req cx))) bucket time"
    and "rq_header (cx_req cx) ''X-User-ID'' = ''''"
    and "run_state (stream_chain sv cx) w = (out, w')" and "sound_bucket (bucket (w_ext w)) (time (w_ext w))"
  shows "sound_bucket (bucket (w_ext w')) (time (w_ext w')) \<and>
     (if \<exists>b. out_reply out = Reply 429 b then 0 else 1) + tokens_at (bucket (w_ext w')) (time (w_ext w'))
       \<le> tokens_at (bucket (w_ext w)) (time (w_ext w)) + (time (w_ext w') - time (w_ext w)) * (100 / 3600)"
proof -
  let ?S = "sv_services sv" and ?k = "stream_key (rq_ip (cx_req cx))"
  obtain t x where clock: "svc_clock ?S (w_ext w) = (t, x)" by fastforce
  note cl = redis_bucketD(1) [OF assms(1) clock]
  obtain reply y where ev: "svc_eval ?S x ?k (stream_script (of_int 100) (of_int 100 / 3600) (time x) 1) = (reply, y)" by fastforce
  note x = passes_tokens [OF conjunct1 [OF cl] assms(4)]
  obtain n where n: "reply = Some [n]" "time x \<le> time y" "sound_bucket (bucket y) (time y)"
    "(if n = 0 then 0 else 1) + tokens_at (bucket y) (time y) \<le> tokens_at (bucket x) (time x) + (time y - time x) * (100 / 3600)"
    using script_tokens [OF assms(1) x(1) ev] by blast
  show ?thesis
  proof (cases "n = 0")
    case True
    then have "\<exists>b. out_reply out = Reply 429 b" "w_ext w' = y"
      using assms(2,3) clock ev n(1) cl
      by (auto simp: stream_chain_def StreamRateLimit_def with_header_def abort_json_def abort_with_def)
    with True n(3,4) x(2) show ?thesis by (simp add: diff_divide_distrib)
  next
    case False
    define v where "v = w\<lparr>w_ext := y, w_counts := RateLimitDecisions ''allowed'' # w_counts w\<rparr>"
    obtain r u where h: "run_state (tracks_Stream ?S (sv_app sv) cx) v = (r, u)" by fastforce
    note handled = postD [OF stream_handler_passes [OF assms(1)] h]
    have out: "out_reply out = r" "w' = u"
      using assms(2,3) clock ev n(1) cl False h
      by (auto simp: stream_chain_def StreamRateLimit_def finish_def v_def)
    have "passes bucket time y (w_ext u)" using handled by (simp add: v_def)
    note u = passes_tokens [OF this n(3)]
    from handled have "\<nexists>b. out_reply out = Reply 429 b" by (simp add: out)
    with False n(4) x(2) u show ?thesis by (simp add: out diff_divide_distrib)
  qed
qed

section \<open>Histories\<close>

text \<open>
  Requests of one address without the header \<open>X-User-ID\<close>, one after the other; between them anything may
  happen to the world, as far as the hash is concerned time passes and the key may expire. The number is that
  of the requests that were not answered 429.
\<close>

inductive streams :: "'x server \<Rightarrow> string \<Rightarrow> ('x \<Rightarrow> (rat \<times> rat) option) \<Rightarrow> ('x \<Rightarrow> rat) \<Rightarrow> 'x world \<Rightarrow> nat \<Rightarrow> 'x world \<Rightarrow> bool"
  for sv ip bucket time
where
  streams_none: "streams sv ip bucket time w 0 w"
| streams_other: "streams sv ip bucket time w n v \<Longrightarrow> passes bucket time (w_ext v) (w_ext u) \<Longrightarrow> streams sv ip bucket time w n u"
| streams_request: "streams sv ip bucket time w n v \<Longrightarrow> rq_ip (cx_req cx) = ip \<Longrightarrow> rq_header (cx_req cx) ''X-User-ID'' = '''' \<Longrightarrow>
     run_state (stream_chain sv cx) v = (out, u) \<Longrightarrow>
     streams sv ip bucket time w (if \<exists>b. out_reply out = Reply 429 b then n else Suc n) u"

lemma streams_paid:
  assumes "streams sv ip bucket time w n w'" and "redis_bucket (sv_services sv) (stream_key ip) bucket time"
    and "sound_bucket (bucket (w_ext w)) (time (w_ext w))"
  shows "sound_bucket (bucket (w_ext w')) (time (w_ext w')) \<and>
     of_nat n + tokens_at (bucket (w_ext w')) (time (w_ext w'))
       \<le> tokens_at (bucket (w_ext w)) (time (w_ext w)) + (time (w_ext w') - time (w_ext w)) * (100 / 3600)"
  using assms(1,3)
proof (induction rule: streams.induct)
  case (streams_other w n v u)
  then have v: "sound_bucket (bucket (w_ext v)) (time (w_ext v))"
    "of_nat n + tokens_at (bucket (w_ext v)) (time (w_ext v))
       \<le> tokens_at (bucket (w_ext w)) (time (w_ext w)) + (time (w_ext v) - time (w_ext w)) * (100 / 3600)" by simp_all
  from passes_tokens [OF streams_other.hyps(2) v(1)] v(2) show ?case by (simp add: diff_divide_distrib)
next
  case (streams_request w n v cx out u)
  then have v: "sound_bucket (bucket (w_ext v)) (time (w_ext v))"
    "of_nat n + tokens_at (bucket (w_ext v)) (time (w_ext v))
       \<le> tokens_at (bucket (w_ext w)) (time (w_ext w)) + (time (w_ext v) - time (w_ext w)) * (100 / 3600)" by simp_all
  have "redis_bucket (sv_services sv) (stream_key (rq_ip (cx_req cx))) bucket time"
    using assms(2) streams_request.hyps(2) by simp
  from stream_request [OF this streams_request.hyps(3,4) v(1)] v(2) show ?case
    by (auto simp: diff_divide_distrib)
qed simp

section \<open>Results\<close>

text \<open>
  C26. Of the requests that one address sends to the stream route without the header \<open>X-User-ID\<close>, one after
  the other and with whatever else happening in between, at most 100 get through plus what an hourly rate
  of 100 refills in the time they take; all others are answered 429. That holds for a Redis that
  answers, keeps the hash of the address for its two hours, and a clock that does not run backwards.
\<close>

theorem stream_limit_bound:
  assumes "redis_bucket (sv_services sv) (stream_key ip) bucket time" and "stored_ok 100 (bucket (w_ext w)) (time (w_ext w))"
    and "streams sv ip bucket time w n w'"
  shows "of_nat n \<le> 100 + (time (w_ext w') - time (w_ext w)) * (100 / 3600)"
proof -
  note paid = streams_paid [OF assms(3,1,2)]
  have "0 \<le> tokens_at (bucket (w_ext w')) (time (w_ext w'))"
    by (rule api_stream.level_nonneg [OF conjunct1 [OF paid]])
  moreover have "tokens_at (bucket (w_ext w)) (time (w_ext w)) \<le> 100" by (rule api_stream.level_le_cap)
  ultimately show ?thesis using paid by linarith
qed

text \<open>
  A second passes with every reading of the clock, and Redis has one hash. The first request finds a full
  bucket and gets through; the second, on a bucket that was emptied in the same second, does not.
\<close>

definition hash_lab :: "(nat \<times> (rat \<times> rat) option) services" where
  "hash_lab = \<lparr>svc_pg = (\<lambda>x. (lab_env 0, x)), svc_cast = Some, svc_cast_int = (\<lambda>_. Some 128), svc_cast_inet = Some,
     svc_scan_inet = Some, svc_uuid_ok = (\<lambda>_. True), svc_uuid_new = (\<lambda>x. ('''', x)),
     svc_clock = (\<lambda>(n, b). (int (Suc n) * 10 ^ 9, (Suc n, b))),
     svc_cache_get = (\<lambda>x k. (None, x)), svc_cache_set = (\<lambda>x k v t. x),
     svc_eval = (\<lambda>(n, b) k sc. let r = sc (map_option fst b, map_option snd b) in
       (Some (sc_reply r), (n, case sc_write r of None \<Rightarrow> b | Some v \<Rightarrow> Some v))),
     svc_incr = (\<lambda>x k. (None, x)), svc_expire = (\<lambda>x k t. x), svc_ttl = (\<lambda>x k. (0, x)),
     svc_produce = (\<lambda>x t k v. (True, x)), svc_put = (\<lambda>x b k v c. (True, x)), svc_get = (\<lambda>x b k. (None, x)),
     svc_presign = (\<lambda>x b k t. (Some k, x)), svc_http = (\<lambda>x r. (None, x)), svc_collate = (\<lambda>_. 0),
     svc_match = (\<lambda>_ _. False), svc_rank = (\<lambda>_ _. 0), svc_late = (\<lambda>x. (lab_late, x))\<rparr>"

definition hash_server :: "(nat \<times> (rat \<times> rat) option) server" where
  "hash_server = \<lparr>sv_services = hash_lab,
     sv_crypto = \<lparr>bc_hash = (\<lambda>x pw. (Some pw, x)), bc_check = (\<lambda>h pw. h = pw), jw_sign = (\<lambda>cl secret. Some secret),
       jw_parse = (\<lambda>now tok kf ms. (None, True)), em_valid = (\<lambda>s. True)\<rparr>,
     sv_engine = \<lparr>en_recover = (\<lambda>out. out\<lparr>out_reply := recovered (out_reply out)\<rparr>), en_trace = (\<lambda>nxt. nxt),
       en_span = (\<lambda>cx. None), en_unrouted = (\<lambda>cx. abort_with cx (Reply 404 NoBody))\<rparr>,
     sv_app = \<lparr>app_store = Some \<lparr>st_bucket = ''b''\<rparr>, app_producer = True\<rparr>, sv_search = None,
     sv_secret = ''k'', sv_origins = ''''\<rparr>"

definition hash_world :: "(rat \<times> rat) option \<Rightarrow> (nat \<times> (rat \<times> rat) option) world" where
  "hash_world b = \<lparr>w_db = lab_db, w_ext = (0, b), w_counts = [], w_tasks = [], w_log = [], w_crashed = False\<rparr>"

definition hash_time :: "nat \<times> (rat \<times> rat) option \<Rightarrow> rat" where
  "hash_time x = of_nat (fst x)"

lemma hash_lab_redis: "redis_bucket (sv_services hash_server) key snd hash_time"
  by (auto simp: redis_bucket_def hash_server_def hash_lab_def passes_def script_runs_def hash_time_def seconds_of_def Let_def)

theorem stream_limit_bound_witness:
  "\<exists>n1 n2 w1 w2. streams hash_server ''10.0.0.1'' snd hash_time (hash_world None) n1 w1 \<and> n1 = 1 \<and>
     of_nat n1 \<le> 100 + (hash_time (w_ext w1) - 0) * (100 / 3600) \<and>
     streams hash_server ''10.0.0.1'' snd hash_time (hash_world (Some (0, 0))) n2 w2 \<and> n2 = 0"
proof -
  let ?cx = "lab_cx ((lab_request ''GET'' ''/v1/tracks/:id/stream'')\<lparr>rq_param := (\<lambda>_. ''t'')\<rparr>)"
  obtain o1 w1 where r1: "run_state (stream_chain hash_server ?cx) (hash_world None) = (o1, w1)" by fastforce
  obtain o2 w2 where r2: "run_state (stream_chain hash_server ?cx) (hash_world (Some (0, 0))) = (o2, w2)" by fastforce
  have o1: "\<exists>k. out_reply o1 = Reply 307 k"
    using r1 by (auto simp: stream_chain_def StreamRateLimit_def hash_server_def hash_lab_def hash_world_def stream_script_def
        lab_cx_def lab_request_def tracks_Stream_def finish_def run_sql exec_stmt_def default_query_def seconds_of_def
        sel_format_key_def sel_audio_key_def select_row_def lab_db_def lab_track_def track_by_id_def service_defs empty_db_def Let_def)
  have o2: "\<exists>b. out_reply o2 = Reply 429 b"
    using r2 by (auto simp: stream_chain_def StreamRateLimit_def hash_server_def hash_lab_def hash_world_def stream_script_def
        lab_cx_def lab_request_def with_header_def abort_json_def abort_with_def seconds_of_def Let_def)
  have cx: "rq_ip (cx_req ?cx) = ''10.0.0.1''" "rq_header (cx_req ?cx) ''X-User-ID'' = ''''"
    by (simp_all add: lab_cx_def lab_request_def)
  have s1: "streams hash_server ''10.0.0.1'' snd hash_time (hash_world None) 1 w1"
    using streams_request [where sv = hash_server and bucket = snd and time = hash_time, OF streams_none cx r1] o1 by auto
  have s2: "streams hash_server ''10.0.0.1'' snd hash_time (hash_world (Some (0, 0))) 0 w2"
    using streams_request [where sv = hash_server and bucket = snd and time = hash_time, OF streams_none cx r2] o2 by auto
  have "stored_ok 100 (snd (w_ext (hash_world None))) (hash_time (w_ext (hash_world None)))"
    by (simp add: stored_ok_def hash_world_def)
  from stream_limit_bound [OF hash_lab_redis this s1] have "of_nat 1 \<le> 100 + (hash_time (w_ext w1) - 0) * (100 / 3600)"
    by (simp add: hash_world_def hash_time_def)
  with s1 s2 show ?thesis by blast
qed

end
