(* ===== verification/Startup.thy ===== *)
theory Startup
  imports Lab Upload_Worker Analytics_Worker "HOL-Library.Sublist"
begin

text \<open>
  How both processes start: \<open>cmd/api/main.go\<close>, \<open>cmd/worker/main.go\<close>, \<open>db.Connect\<close> and \<open>db.Migrate\<close>,
  the constructors of \<open>internal/storage/s3.go\<close>, \<open>internal/cache/redis.go\<close> and
  \<open>internal/queue/kafka.go\<close>, \<open>telemetry.Init\<close> and \<open>logger.Init\<close>. A constructor of a library is a call
  with its arguments; whether it reports success is a parameter. The calls are kept in order with
  their answers. An error carries the texts it is wrapped in, outermost first; the library's own text
  is not kept. The DDL of the migrations changes no table that the model has from the start.
\<close>

section \<open>Library calls\<close>

datatype kgo_opt =
    SeedBrokers "string list" | RequiredAcks_LeaderAck | DisableIdempotentWrite | AllowAutoTopicCreation
  | ConsumerGroup string | ConsumeTopics string | AutoCommitMarks | SASL_ManagedStreamingIAM string | DialTLSConfig

record s3_client =
  s3_region :: string
  s3_creds :: "(string \<times> string) option"
  s3_endpoint :: "string option"
  s3_path_style :: bool

datatype sampler = AlwaysSample | ParentBased_TraceIDRatio rat

datatype lib_call =
    Pg_parse string | Pg_pool int int | Pg_ping | Pg_exec string | Pg_close
  | Aws_load string "(string \<times> string) option"
  | Head_bucket s3_client string | Create_bucket s3_client string
  | Redis_parse string | Redis_ping string
  | Kafka_client "kgo_opt list" | Kafka_close "kgo_opt list"
  | Otlp_exporter string | Otel_resource string string string
  | Otel_provider sampler | Otel_propagator "string list" | Otel_shutdown
  | Zap_build string string | Zap_sync

type_synonym 'x libs = "lib_call \<Rightarrow> 'x \<Rightarrow> bool \<times> 'x"
type_synonym trace = "(lib_call \<times> bool) list"
type_synonym boot_error = "string list"
type_synonym ('x, 'a) boot = "('x world \<times> trace, boot_error + 'a) state"

definition call :: "'x libs \<Rightarrow> lib_call \<Rightarrow> ('x world \<times> trace, bool) state" where
  "call L c = State (\<lambda>(w, tr). case L c (w_ext w) of (ok, x) \<Rightarrow> (ok, (w\<lparr>w_ext := x\<rparr>, tr @ [(c, ok)])))"

definition in_world :: "('x, 'a) run \<Rightarrow> ('x world \<times> trace, 'a) state" where
  "in_world m = State (\<lambda>(w, tr). case run_state m w of (a, w') \<Rightarrow> (a, (w', tr)))"

definition attempt :: "'x libs \<Rightarrow> lib_call \<Rightarrow> ('x, unit) boot" where
  "attempt L c = do { ok \<leftarrow> call L c; State_Monad.return (if ok then Inr () else Inl []) }"

text \<open>\<open>if err != nil { return err }\<close>, and \<open>fmt.Errorf("msg: %w", err)\<close>.\<close>

definition and_then :: "('x, 'a) boot \<Rightarrow> ('a \<Rightarrow> ('x, 'b) boot) \<Rightarrow> ('x, 'b) boot" where
  "and_then m k = do { r \<leftarrow> m; (case r of Inl err \<Rightarrow> State_Monad.return (Inl err) | Inr a \<Rightarrow> k a) }"

definition wrap :: "string \<Rightarrow> ('x, 'a) boot \<Rightarrow> ('x, 'a) boot" where
  "wrap msg m = do { r \<leftarrow> m; State_Monad.return (case r of Inl err \<Rightarrow> Inl (msg # err) | Inr a \<Rightarrow> Inr a) }"

definition done_with :: "'a \<Rightarrow> ('x, 'a) boot" where
  "done_with a = State_Monad.return (Inr a)"

section \<open>PostgreSQL and Redis\<close>

definition db_Connect :: "'x libs \<Rightarrow> string \<Rightarrow> ('x, unit) boot" where
  "db_Connect L dsn =
     and_then (wrap ''parse dsn'' (attempt L (Pg_parse dsn))) (\<lambda>_.
     and_then (wrap ''open pool'' (attempt L (Pg_pool 20 2))) (\<lambda>_.
     wrap ''ping'' (attempt L Pg_ping)))"

definition migrations :: "string list" where
  "migrations = [''migrationTracks'', ''migrationPlaylists'', ''migrationPlayEvents'', ''migrationTrackStatus'',
     ''migrationUsers'', ''migrationAuditLogs'', ''migrationRBACGDPR'', ''migrationFavorites'', ''migrationTrackFormats'']"

primrec migrate_all :: "'x libs \<Rightarrow> string list \<Rightarrow> ('x, unit) boot" where
  "migrate_all L [] = done_with ()"
| "migrate_all L (m # ms) = and_then (wrap ''migration'' (attempt L (Pg_exec m))) (\<lambda>_. migrate_all L ms)"

definition db_Migrate :: "'x libs \<Rightarrow> ('x, unit) boot" where
  "db_Migrate L = migrate_all L migrations"

definition cache_NewRedis :: "'x libs \<Rightarrow> string \<Rightarrow> ('x, unit) boot" where
  "cache_NewRedis L url = and_then (attempt L (Redis_parse url)) (\<lambda>_. attempt L (Redis_ping url))"

section \<open>The object store\<close>

record storage_config =
  sg_bucket :: string
  sg_region :: string
  sg_endpoint :: string
  sg_access :: string
  sg_secret :: string
  sg_presign :: string

record object_store = storage +
  ob_upload :: s3_client
  ob_presign :: s3_client

definition buildClient :: "'x libs \<Rightarrow> string \<Rightarrow> string \<Rightarrow> string \<Rightarrow> string \<Rightarrow> ('x, s3_client) boot" where
  "buildClient L region endpoint accessKey secretKey =
     (let creds = (if accessKey \<noteq> '''' then Some (accessKey, secretKey) else None) in
      and_then (wrap ''aws config'' (attempt L (Aws_load region creds))) (\<lambda>_. done_with
        \<lparr>s3_region = region, s3_creds = creds,
         s3_endpoint = (if endpoint \<noteq> '''' then Some endpoint else None), s3_path_style = (endpoint \<noteq> '''')\<rparr>))"

definition storage_New :: "'x libs \<Rightarrow> storage_config \<Rightarrow> ('x, object_store) boot" where
  "storage_New L cfg =
     and_then (wrap ''upload client'' (buildClient L (sg_region cfg) (sg_endpoint cfg) (sg_access cfg) (sg_secret cfg)))
     (\<lambda>upl. and_then
       (if sg_presign cfg \<noteq> '''' \<and> sg_presign cfg \<noteq> sg_endpoint cfg
        then wrap ''presign client'' (buildClient L (sg_region cfg) (sg_presign cfg) (sg_access cfg) (sg_secret cfg))
        else done_with upl)
     (\<lambda>pre. done_with \<lparr>st_bucket = sg_bucket cfg, ob_upload = upl, ob_presign = pre\<rparr>))"

definition EnsureBucket :: "'x libs \<Rightarrow> object_store \<Rightarrow> ('x, unit) boot" where
  "EnsureBucket L s = do {
     found \<leftarrow> call L (Head_bucket (ob_upload s) (st_bucket s));
     (if found then done_with () else attempt L (Create_bucket (ob_upload s) (st_bucket s)))
   }"

section \<open>Kafka\<close>

definition mskIAMMechanism :: "'x libs \<Rightarrow> string \<Rightarrow> ('x, kgo_opt) boot" where
  "mskIAMMechanism L region =
     and_then (wrap ''aws config for MSK IAM'' (attempt L (Aws_load region None)))
       (\<lambda>_. done_with (SASL_ManagedStreamingIAM region))"

definition sasl_opts :: "kgo_opt option \<Rightarrow> kgo_opt list" where
  "sasl_opts mech = (case mech of None \<Rightarrow> [] | Some m \<Rightarrow> [m, DialTLSConfig])"

text \<open>A client is what it was created with.\<close>

definition newProducer :: "'x libs \<Rightarrow> string \<Rightarrow> kgo_opt option \<Rightarrow> ('x, kgo_opt list) boot" where
  "newProducer L brokerList saslMechanism =
     (let opts = [SeedBrokers (split_on CHR '','' brokerList), RequiredAcks_LeaderAck, DisableIdempotentWrite,
                  AllowAutoTopicCreation] @ sasl_opts saslMechanism in
      and_then (wrap ''kafka producer'' (attempt L (Kafka_client opts))) (\<lambda>_. done_with opts))"

definition queue_NewProducer :: "'x libs \<Rightarrow> string \<Rightarrow> ('x, kgo_opt list) boot" where
  "queue_NewProducer L brokerList = newProducer L brokerList None"

definition queue_NewProducerIAM :: "'x libs \<Rightarrow> string \<Rightarrow> string \<Rightarrow> ('x, kgo_opt list) boot" where
  "queue_NewProducerIAM L brokerList region =
     and_then (mskIAMMechanism L region) (\<lambda>m. newProducer L brokerList (Some m))"

definition newConsumer :: "'x libs \<Rightarrow> string \<Rightarrow> string \<Rightarrow> string \<Rightarrow> kgo_opt option \<Rightarrow> ('x, kgo_opt list) boot" where
  "newConsumer L brokerList grp topic saslMechanism =
     (let opts = [SeedBrokers (split_on CHR '','' brokerList), ConsumerGroup grp, ConsumeTopics topic,
                  AutoCommitMarks] @ sasl_opts saslMechanism in
      and_then (wrap ''kafka consumer'' (attempt L (Kafka_client opts))) (\<lambda>_. done_with opts))"

definition queue_NewConsumer :: "'x libs \<Rightarrow> string \<Rightarrow> string \<Rightarrow> string \<Rightarrow> ('x, kgo_opt list) boot" where
  "queue_NewConsumer L brokerList grp topic = newConsumer L brokerList grp topic None"

definition queue_NewConsumerIAM ::
    "'x libs \<Rightarrow> string \<Rightarrow> string \<Rightarrow> string \<Rightarrow> string \<Rightarrow> ('x, kgo_opt list) boot" where
  "queue_NewConsumerIAM L brokerList region grp topic =
     and_then (mskIAMMechanism L region) (\<lambda>m. newConsumer L brokerList grp topic (Some m))"

definition NewUploadWorker :: "'x libs \<Rightarrow> string \<Rightarrow> string \<Rightarrow> string \<Rightarrow> ('x, kgo_opt list) boot" where
  "NewUploadWorker L brokers kafkaAuth awsRegion = wrap ''upload worker consumer''
     (if kafkaAuth = ''iam'' then queue_NewConsumerIAM L brokers awsRegion ''upload-workers'' ''track.uploads''
      else queue_NewConsumer L brokers ''upload-workers'' ''track.uploads'')"

definition NewAnalyticsWorker :: "'x libs \<Rightarrow> string \<Rightarrow> string \<Rightarrow> string \<Rightarrow> ('x, kgo_opt list) boot" where
  "NewAnalyticsWorker L brokers kafkaAuth awsRegion = wrap ''analytics worker consumer''
     (if kafkaAuth = ''iam'' then queue_NewConsumerIAM L brokers awsRegion ''analytics-workers'' ''play.events''
      else queue_NewConsumer L brokers ''analytics-workers'' ''play.events'')"

section \<open>Logs and traces\<close>

record zap_logger =
  zl_json :: bool
  zl_level :: string
  zl_service :: string

text \<open>
  \<open>parse\<close> is \<open>zapcore.Level.UnmarshalText\<close>: the level it sets, or \<^term>\<open>None\<close> when it reports an error
  and leaves the level alone. \<open>once\<close> is what \<open>sync.Once\<close> has left in \<open>global\<close>.
\<close>

definition logger_Init ::
    "'x libs \<Rightarrow> (string \<Rightarrow> string option) \<Rightarrow> (string \<Rightarrow> string) \<Rightarrow> zap_logger option \<Rightarrow> ('x, zap_logger) boot" where
  "logger_Init L parse env once = (case once of
      Some global \<Rightarrow> done_with global
    | None \<Rightarrow>
        (let l = env ''LOG_LEVEL'';
             level = (if l = '''' then ''info'' else case parse (to_lower l) of None \<Rightarrow> ''info'' | Some v \<Rightarrow> v);
             json = (env ''LOG_FORMAT'' = ''json'')
         in and_then (wrap ''failed to initialise logger: '' (attempt L (Zap_build (if json then ''json'' else ''console'') level)))
              (\<lambda>_. done_with \<lparr>zl_json = json, zl_level = level, zl_service = ''beatstream-api''\<rparr>)))"

text \<open>\<open>L\<close> before \<open>Init\<close> is a logger that drops everything; \<open>Sync\<close> flushes the global one if there is one.\<close>

datatype log_sink = Nop | Zap zap_logger

definition logger_L :: "zap_logger option \<Rightarrow> log_sink" where
  "logger_L global = (case global of None \<Rightarrow> Nop | Some l \<Rightarrow> Zap l)"

definition logger_Sync :: "'x libs \<Rightarrow> zap_logger option \<Rightarrow> ('x world \<times> trace, unit) state" where
  "logger_Sync L global = (case global of None \<Rightarrow> State_Monad.return ()
     | Some l \<Rightarrow> do { _ \<leftarrow> call L Zap_sync; State_Monad.return () })"

text \<open>\<open>sync.Once\<close>: a second \<open>Init\<close> builds nothing and answers the first logger, which \<open>L\<close> hands out.\<close>

lemma logger_Init_once:
  "run_state (logger_Init L parse env (Some l)) v = (Inr l, v)" "logger_L (Some l) = Zap l"
  by (simp_all add: logger_Init_def logger_L_def done_with_def)

definition samplerFromEnv :: "(string \<Rightarrow> string) \<Rightarrow> sampler" where
  "samplerFromEnv env =
     (if env ''APP_ENV'' = ''production'' then ParentBased_TraceIDRatio (1 / 10) else AlwaysSample)"

definition telemetry_Init :: "'x libs \<Rightarrow> (string \<Rightarrow> string) \<Rightarrow> ('x, sampler) boot" where
  "telemetry_Init L env =
     (let endpoint = (if env ''OTEL_EXPORTER_OTLP_ENDPOINT'' = '''' then ''http://localhost:4318''
                      else env ''OTEL_EXPORTER_OTLP_ENDPOINT'');
          serviceName = (if env ''OTEL_SERVICE_NAME'' = '''' then ''beatstream-api'' else env ''OTEL_SERVICE_NAME'')
      in and_then (attempt L (Otlp_exporter endpoint)) (\<lambda>_.
         and_then (attempt L (Otel_resource serviceName (env ''APP_VERSION'') (env ''APP_ENV''))) (\<lambda>_. do {
           _ \<leftarrow> call L (Otel_provider (samplerFromEnv env));
           _ \<leftarrow> call L (Otel_propagator [''TraceContext'', ''Baggage'']);
           done_with (samplerFromEnv env)
         })))"

section \<open>The API server\<close>

definition need_env :: "(string \<Rightarrow> string) \<Rightarrow> string \<Rightarrow> ('x, string) boot" where
  "need_env env key = (case mustEnv env key of
      None \<Rightarrow> State_Monad.return (Inl [''required env var not set'', key]) | Some v \<Rightarrow> done_with v)"

definition connect_search :: "'x services \<Rightarrow> (string \<Rightarrow> string) \<Rightarrow> ('x, os_client option) boot" where
  "connect_search S env = (let osURL = env ''OPENSEARCH_URL'' in
     if osURL = '''' then done_with None
     else do {
       r \<leftarrow> in_world (os_EnsureIndex S (os_New osURL));
       done_with (case r of Inl _ \<Rightarrow> None | Inr _ \<Rightarrow> Some (os_New osURL))
     })"

definition api_storage :: "'x libs \<Rightarrow> (string \<Rightarrow> string) \<Rightarrow> ('x, object_store option) boot" where
  "api_storage L env = (let bucket = env ''S3_BUCKET'' in
     if bucket = '''' then done_with None
     else and_then (wrap ''storage init'' (storage_New L
         \<lparr>sg_bucket = bucket, sg_region = getEnv env ''AWS_REGION'' ''us-east-1'', sg_endpoint = env ''S3_ENDPOINT'',
          sg_access = env ''S3_ACCESS_KEY'', sg_secret = env ''S3_SECRET_KEY'', sg_presign = env ''S3_PRESIGN_ENDPOINT''\<rparr>))
       (\<lambda>s. if env ''S3_ENDPOINT'' = '''' then done_with (Some s)
            else and_then (wrap ''ensure bucket'' (EnsureBucket L s)) (\<lambda>_. done_with (Some s))))"

definition api_producer :: "'x libs \<Rightarrow> (string \<Rightarrow> string) \<Rightarrow> ('x, kgo_opt list option) boot" where
  "api_producer L env = (let brokers = env ''KAFKA_BROKERS'' in
     if brokers = '''' then done_with None
     else and_then
       (if env ''KAFKA_AUTH'' = ''iam''
        then and_then (need_env env ''AWS_REGION'') (\<lambda>region. wrap ''kafka producer'' (queue_NewProducerIAM L brokers region))
        else wrap ''kafka producer'' (queue_NewProducer L brokers))
       (\<lambda>opts. done_with (Some opts)))"

text \<open>What \<open>main\<close> has when it starts to listen. The error of \<open>telemetry.Init\<close> is only logged.\<close>

record 'x api_process =
  ap_server :: "'x server"
  ap_store :: "object_store option"
  ap_producer :: "kgo_opt list option"
  ap_mode :: string
  ap_addr :: string
  ap_metrics :: string

definition api_main ::
    "'x libs \<Rightarrow> (string \<Rightarrow> string option) \<Rightarrow> 'x services \<Rightarrow> 'x crypto \<Rightarrow> 'x engine \<Rightarrow> (string \<Rightarrow> string) \<Rightarrow>
     ('x, 'x api_process) boot" where
  "api_main L parse S C E env =
     and_then (logger_Init L parse env None) (\<lambda>_. do {
       _ \<leftarrow> telemetry_Init L env;
       and_then (need_env env ''DATABASE_URL'') (\<lambda>dsn.
       and_then (wrap ''db connect'' (db_Connect L dsn)) (\<lambda>_.
       and_then (wrap ''db migrate'' (db_Migrate L)) (\<lambda>_.
       and_then (api_storage L env) (\<lambda>store.
       and_then (need_env env ''REDIS_URL'') (\<lambda>url.
       and_then (wrap ''redis connect'' (cache_NewRedis L url)) (\<lambda>_.
       and_then (api_producer L env) (\<lambda>producer.
       and_then (connect_search S env) (\<lambda>osClient.
       done_with
         \<lparr>ap_server = \<lparr>sv_services = S, sv_crypto = C, sv_engine = E,
            sv_app = \<lparr>app_store = map_option storage.truncate store, app_producer = (producer \<noteq> None)\<rparr>,
            sv_search = osClient, sv_secret = getEnv env ''JWT_SECRET'' dev_secret, sv_origins = env ''ALLOWED_ORIGINS''\<rparr>,
          ap_store = store, ap_producer = producer, ap_mode = getEnv env ''GIN_MODE'' ''debug'',
          ap_addr = CHR '':'' # getEnv env ''PORT'' ''8080'', ap_metrics = CHR '':'' # getEnv env ''METRICS_PORT'' ''9090''\<rparr>))))))))
     })"

section \<open>The worker process\<close>

definition worker_storage :: "'x libs \<Rightarrow> (string \<Rightarrow> string) \<Rightarrow> string \<Rightarrow> ('x, object_store option) boot" where
  "worker_storage L env awsRegion = (let bucket = env ''S3_BUCKET'' in
     if bucket = '''' then done_with None
     else and_then (wrap ''storage init'' (storage_New L
         \<lparr>sg_bucket = bucket, sg_region = awsRegion, sg_endpoint = env ''S3_ENDPOINT'',
          sg_access = env ''S3_ACCESS_KEY'', sg_secret = env ''S3_SECRET_KEY'', sg_presign = ''''\<rparr>))
       (\<lambda>s. done_with (Some s)))"

record worker_process =
  wp_store :: "object_store option"
  wp_search :: "os_client option"
  wp_uploads :: "kgo_opt list"
  wp_plays :: "kgo_opt list"

definition worker_main :: "'x libs \<Rightarrow> 'x services \<Rightarrow> (string \<Rightarrow> string) \<Rightarrow> ('x, worker_process) boot" where
  "worker_main L S env =
     and_then (need_env env ''KAFKA_BROKERS'') (\<lambda>brokers.
     and_then (need_env env ''DATABASE_URL'') (\<lambda>dbURL.
     (let kafkaAuth = getEnv env ''KAFKA_AUTH'' ''plain''; awsRegion = getEnv env ''AWS_REGION'' ''us-east-1'' in
     and_then (wrap ''db connect'' (db_Connect L dbURL)) (\<lambda>_.
     and_then (wrap ''db migrate'' (db_Migrate L)) (\<lambda>_.
     and_then (worker_storage L env awsRegion) (\<lambda>store.
     and_then (connect_search S env) (\<lambda>osClient.
     and_then (wrap ''upload worker'' (NewUploadWorker L brokers kafkaAuth awsRegion)) (\<lambda>uploads.
     and_then (wrap ''analytics worker'' (NewAnalyticsWorker L brokers kafkaAuth awsRegion)) (\<lambda>plays.
     done_with \<lparr>wp_store = store, wp_search = osClient, wp_uploads = uploads, wp_plays = plays\<rparr>)))))))))"

section \<open>What the returns of \<open>main\<close> close\<close>

text \<open>
  The deferred calls, last deferred first. \<open>log.Fatal\<close> does not run them. \<open>traced\<close> says whether
  \<open>telemetry.Init\<close> has succeeded.
\<close>

primrec call_all :: "'x libs \<Rightarrow> lib_call list \<Rightarrow> ('x world \<times> trace, unit) state" where
  "call_all L [] = State_Monad.return ()"
| "call_all L (c # cs) = do { _ \<leftarrow> call L c; call_all L cs }"

definition api_defers :: "'x libs \<Rightarrow> 'x api_process \<Rightarrow> bool \<Rightarrow> zap_logger option \<Rightarrow> ('x world \<times> trace, unit) state" where
  "api_defers L p traced global = do {
     call_all L (case ap_producer p of None \<Rightarrow> [] | Some opts \<Rightarrow> [Kafka_close opts]);
     call_all L (Pg_close # (if traced then [Otel_shutdown] else []));
     logger_Sync L global
   }"

definition worker_defers :: "'x libs \<Rightarrow> worker_process \<Rightarrow> ('x world \<times> trace, unit) state" where
  "worker_defers L p = call_all L [Kafka_close (wp_plays p), Kafka_close (wp_uploads p), Pg_close]"

lemma call_all_trace: "map fst (snd (snd (run_state (call_all L cs) (w, tr)))) = map fst tr @ cs"
  by (induction cs arbitrary: w tr) (auto simp: call_def split: prod.splits)

text \<open>The upload consumer is closed while its loop may still run, and before the pool it writes through.\<close>

lemma worker_closes: "map fst (snd (snd (run_state (worker_defers L p) (w, [])))) = [Kafka_close (wp_plays p), Kafka_close (wp_uploads p), Pg_close]"
  unfolding worker_defers_def by (simp only: call_all_trace) simp

section \<open>What a start leaves in the trace\<close>

text \<open>
  Calls whose failure the code itself handles: the bucket is created when its \<open>HEAD\<close> fails, and
  without tracing the server starts all the same.
\<close>

fun tolerated :: "lib_call \<Rightarrow> bool" where
  "tolerated (Head_bucket c b) = True"
| "tolerated (Otlp_exporter endpoint) = True"
| "tolerated (Otel_resource name version env) = True"
| "tolerated (Otel_provider s) = True"
| "tolerated (Otel_propagator ps) = True"
| "tolerated Otel_shutdown = True"
| "tolerated Zap_sync = True"
| "tolerated c = False"

fun_cases toleratedE: "tolerated c"

fun fine :: "lib_call \<times> bool \<Rightarrow> bool" where
  "fine (c, ok) \<longleftrightarrow> ok \<or> tolerated c"

fun executed :: "trace \<Rightarrow> string list" where
  "executed [] = []"
| "executed ((Pg_exec m, ok) # tr) = m # executed tr"
| "executed (e # tr) = executed tr"

lemma executed_append [simp]: "executed (tr @ tr') = executed tr @ executed tr'"
  by (induction tr rule: executed.induct) auto

text \<open>
  A start that succeeds has run exactly the migrations \<open>ms\<close> and no call failed that mattered. One
  that ends in an error has run a part of them, in order, and made no call after the one that failed;
  without a failed call a variable is missing.
\<close>

definition stopped_at :: "boot_error \<Rightarrow> trace \<Rightarrow> bool" where
  "stopped_at err tr \<longleftrightarrow> tr \<noteq> [] \<and> \<not> snd (last tr) \<or> (\<exists>key. suffix [''required env var not set'', key] err)"

definition ok_trace :: "string list \<Rightarrow> boot_error + 'a \<Rightarrow> trace \<Rightarrow> bool" where
  "ok_trace ms r tr \<longleftrightarrow> (case r of
      Inr _ \<Rightarrow> executed tr = ms \<and> list_all fine tr
    | Inl err \<Rightarrow> prefix (executed tr) ms \<and> list_all fine (butlast tr) \<and> stopped_at err tr)"

definition careful :: "string list \<Rightarrow> ('x, 'a) boot \<Rightarrow> bool" where
  "careful ms m \<longleftrightarrow> (\<forall>w tr. \<exists>r w' new. run_state m (w, tr) = (r, (w', tr @ new)) \<and> ok_trace ms r new)"

lemma carefulD:
  assumes "careful ms m"
  obtains r w' new where "run_state m (w, tr) = (r, (w', tr @ new))" "ok_trace ms r new"
  using assms unfolding careful_def by blast

lemma carefulI:
  assumes "\<And>w tr. \<exists>r w' new. run_state m (w, tr) = (r, (w', tr @ new)) \<and> ok_trace ms r new"
  shows "careful ms m"
  using assms by (simp add: careful_def)

lemma careful_trace: "careful ms m \<Longrightarrow> run_state m (w, []) = (r, (w', tr)) \<Longrightarrow> ok_trace ms r tr"
  by (erule carefulD [where w = w and tr = "[]"]) simp

lemma careful_done: "careful [] (done_with a)"
  by (auto simp: careful_def done_with_def ok_trace_def)

lemma run_attempt:
  "run_state (attempt L c) (w, tr) =
     (case L c (w_ext w) of (ok, x) \<Rightarrow> (if ok then Inr () else Inl [], (w\<lparr>w_ext := x\<rparr>, tr @ [(c, ok)])))"
  by (simp add: attempt_def call_def split: prod.splits)

lemma careful_attempt: "executed [(c, True)] = ms \<Longrightarrow> careful ms (attempt L c)"
  by (rule carefulI, case_tac "L c (w_ext w)", cases c) (auto simp: run_attempt ok_trace_def stopped_at_def)

lemma careful_need: "careful [] (need_env env key)"
  by (auto simp: careful_def need_env_def done_with_def ok_trace_def stopped_at_def split: option.split)

lemma careful_wrap: "careful ms m \<Longrightarrow> careful ms (wrap msg m)"
proof (rule carefulI)
  fix w tr assume "careful ms m"
  then obtain r w' new where "run_state m (w, tr) = (r, (w', tr @ new))" "ok_trace ms r new" by (rule carefulD)
  then show "\<exists>r w' new. run_state (wrap msg m) (w, tr) = (r, (w', tr @ new)) \<and> ok_trace ms r new"
    by (cases r) (auto simp: wrap_def ok_trace_def stopped_at_def intro: suffix_ConsI)
qed

lemma ok_trace_append:
  assumes "executed new = ms" and "list_all fine new" and "ok_trace ms' r new'"
  shows "ok_trace (ms @ ms') r (new @ new')"
  using assms by (auto simp: ok_trace_def stopped_at_def butlast_append list_all_iff dest: in_set_butlastD split: sum.splits)

lemma careful_then:
  assumes "careful ms m" and "\<And>a. careful ms' (k a)" and "ms @ ms' = all"
  shows "careful all (and_then m k)"
proof (rule carefulI)
  fix w tr
  obtain r w' new where m: "run_state m (w, tr) = (r, (w', tr @ new))" "ok_trace ms r new"
    using assms(1) by (rule carefulD)
  show "\<exists>r w' new. run_state (and_then m k) (w, tr) = (r, (w', tr @ new)) \<and> ok_trace all r new"
  proof (cases r)
    case (Inl err)
    with m show ?thesis using assms(3) by (auto simp: and_then_def ok_trace_def)
  next
    case (Inr a)
    obtain r' w'' new' where k: "run_state (k a) (w', tr @ new) = (r', (w'', (tr @ new) @ new'))" "ok_trace ms' r' new'"
      using assms(2) by (rule carefulD)
    have "ok_trace all r' (new @ new')"
      using m(2) k(2) Inr unfolding assms(3) [symmetric] by (intro ok_trace_append) (auto simp: ok_trace_def)
    with m(1) k(1) Inr show ?thesis by (auto simp: and_then_def)
  qed
qed

lemma careful_if: "careful ms a \<Longrightarrow> careful ms b \<Longrightarrow> careful ms (if c then a else b)"
  by simp

text \<open>A step whose failures are all handled.\<close>

definition harmless :: "('x world \<times> trace, 'a) state \<Rightarrow> bool" where
  "harmless m \<longleftrightarrow> (\<forall>w tr. \<exists>a w' new. run_state m (w, tr) = (a, (w', tr @ new)) \<and> executed new = [] \<and> list_all fine new)"

lemma careful_after:
  assumes "harmless m" and "\<And>a. careful ms (k a)"
  shows "careful ms (State_Monad.bind m k)"
proof (rule carefulI)
  fix w tr
  obtain a w' new where m: "run_state m (w, tr) = (a, (w', tr @ new))" "executed new = []" "list_all fine new"
    using assms(1) unfolding harmless_def by blast
  obtain r w'' new' where k: "run_state (k a) (w', tr @ new) = (r, (w'', (tr @ new) @ new'))" "ok_trace ms r new'"
    using assms(2) by (rule carefulD)
  have "ok_trace ([] @ ms) r (new @ new')" by (rule ok_trace_append [OF m(2,3) k(2)])
  with m(1) k(1) show "\<exists>r w' new. run_state (State_Monad.bind m k) (w, tr) = (r, (w', tr @ new)) \<and> ok_trace ms r new"
    by auto
qed

lemma harmless_in_world: "harmless (in_world m)"
  by (auto simp: harmless_def in_world_def split: prod.splits)

lemma harmless_call: "tolerated c \<Longrightarrow> harmless (call L c)"
  by (erule toleratedE) (auto simp: harmless_def call_def split: prod.splits)

lemma harmless_telemetry: "harmless (telemetry_Init L env)"
  unfolding harmless_def
  by (auto simp: telemetry_Init_def Let_def and_then_def run_attempt done_with_def call_def split: prod.splits)

lemma careful_migrate_all: "careful ms (migrate_all L ms)"
proof (induction ms)
  case (Cons m ms)
  have "careful [m] (attempt L (Pg_exec m))" for L :: "'a libs" by (rule careful_attempt) simp
  with Cons show ?case by (auto intro!: careful_then careful_wrap)
qed (simp add: careful_done)

text \<open>The rules that follow a start call by call, and what they give for each constructor.\<close>

lemmas careful_rules = careful_done careful_need careful_wrap careful_if careful_attempt
  careful_after harmless_in_world harmless_call careful_then [where ms = "[]" and ms' = "[]"]

lemmas constructors = db_Connect_def cache_NewRedis_def buildClient_def storage_New_def EnsureBucket_def
  mskIAMMechanism_def newProducer_def queue_NewProducer_def queue_NewProducerIAM_def
  newConsumer_def queue_NewConsumer_def queue_NewConsumerIAM_def NewUploadWorker_def NewAnalyticsWorker_def
  logger_Init_def connect_search_def api_storage_def api_producer_def worker_storage_def

lemma careful_constructors:
  "careful [] (db_Connect L dsn)" "careful [] (cache_NewRedis L url)" "careful [] (connect_search S env)"
  "careful [] (api_storage L env)" "careful [] (api_producer L env)" "careful [] (worker_storage L env region)"
  "careful [] (NewUploadWorker L brokers auth region)" "careful [] (NewAnalyticsWorker L brokers auth region)"
  "careful [] (logger_Init L parse env None)"
  unfolding constructors Let_def option.case by (intro careful_rules; simp)+

lemma careful_api: "careful migrations (api_main L parse S C E env)"
  unfolding api_main_def db_Migrate_def
  by (intro careful_then [where ms = "[]" and ms' = migrations] careful_after [OF harmless_telemetry]
      careful_constructors careful_need careful_wrap
      careful_then [where ms = migrations and ms' = "[]", OF careful_wrap [OF careful_migrate_all]]
      careful_rules; simp)

lemma careful_worker: "careful migrations (worker_main L S env)"
  unfolding worker_main_def db_Migrate_def Let_def
  by (intro careful_then [where ms = "[]" and ms' = migrations]
      careful_constructors careful_need careful_wrap
      careful_then [where ms = migrations and ms' = "[]", OF careful_wrap [OF careful_migrate_all]]
      careful_rules; simp)

section \<open>What the clients are configured with\<close>

lemma run_done [simp]: "run_state (done_with a) s = (Inr a, s)"
  by (simp add: done_with_def)

lemma and_then_InrE:
  assumes "run_state (and_then m k) s = (Inr b, s')"
  obtains a t where "run_state m s = (Inr a, t)" "run_state (k a) t = (Inr b, s')"
  using assms by (auto simp: and_then_def split: sum.splits prod.splits)

lemma wrap_InrE:
  assumes "run_state (wrap msg m) s = (Inr b, s')"
  obtains "run_state m s = (Inr b, s')"
  using assms by (auto simp: wrap_def split: sum.splits prod.splits)

lemmas boot_elims = and_then_InrE wrap_InrE

lemma attempt_Inr: "run_state (attempt L c) (w, tr) = (Inr u, (w', tr')) \<Longrightarrow> tr' = tr @ [(c, True)]"
  by (auto simp: run_attempt split: prod.splits if_splits)

definition client_at :: "storage_config \<Rightarrow> string \<Rightarrow> s3_client" where
  "client_at cfg endpoint =
     \<lparr>s3_region = sg_region cfg,
      s3_creds = (if sg_access cfg = '''' then None else Some (sg_access cfg, sg_secret cfg)),
      s3_endpoint = (if endpoint = '''' then None else Some endpoint), s3_path_style = (endpoint \<noteq> '''')\<rparr>"

lemma buildClient_Inr:
  assumes "run_state (buildClient L (sg_region cfg) endpoint (sg_access cfg) (sg_secret cfg)) (w, tr) = (Inr c, (w', tr'))"
  shows "c = client_at cfg endpoint \<and> tr' = tr @ [(Aws_load (sg_region cfg) (s3_creds (client_at cfg endpoint)), True)]"
  using assms
  by (auto simp: buildClient_def client_at_def Let_def dest!: attempt_Inr elim!: boot_elims)

lemma newConsumer_Inr:
  "run_state (newConsumer L brokers grp topic mech) s = (Inr opts, s') \<Longrightarrow>
     opts = [SeedBrokers (split_on CHR '','' brokers), ConsumerGroup grp, ConsumeTopics topic, AutoCommitMarks] @ sasl_opts mech"
  by (auto simp: newConsumer_def Let_def elim!: boot_elims)

lemma consumers_Inr:
  assumes "run_state (if auth = ''iam'' then queue_NewConsumerIAM L brokers region grp topic
      else queue_NewConsumer L brokers grp topic) s = (Inr opts, s')"
  shows "opts = [SeedBrokers (split_on CHR '','' brokers), ConsumerGroup grp, ConsumeTopics topic, AutoCommitMarks] @
      (if auth = ''iam'' then [SASL_ManagedStreamingIAM region, DialTLSConfig] else [])"
  using assms
  by (auto simp: queue_NewConsumerIAM_def queue_NewConsumer_def mskIAMMechanism_def sasl_opts_def
      dest!: newConsumer_Inr elim!: boot_elims split: if_splits)

section \<open>Results\<close>

text \<open>
  C34. Both processes start completely or not at all: one that starts has executed all nine migrations
  in order and every library call whose failure matters succeeded; one that stops has executed some
  first part of them, called no library after the call that failed, and without a failed call lacks a
  variable of its environment.
\<close>

theorem startup_fails_fast:
  assumes "run_state (api_main L parse S C E env) (w, []) = (r, (w', tr))"
    and "run_state (worker_main L' S' env') (v, []) = (q, (v', ts))"
  shows "ok_trace migrations r tr \<and> ok_trace migrations q ts"
  using careful_trace [OF careful_api assms(1)] careful_trace [OF careful_worker assms(2)] by blast

text \<open>
  The store that \<open>New\<close> builds uploads to the configured endpoint, and signs its URLs for the address
  that browsers can reach when one is configured, with the same region and credentials; a second
  client is built exactly when the two addresses differ.
\<close>

theorem storage_clients:
  assumes "run_state (storage_New L cfg) (w, []) = (Inr s, (w', tr))"
  shows "st_bucket s = sg_bucket cfg \<and> ob_upload s = client_at cfg (sg_endpoint cfg) \<and>
     ob_presign s = client_at cfg (if sg_presign cfg = '''' then sg_endpoint cfg else sg_presign cfg) \<and>
     length tr = (if sg_presign cfg \<in> {'''', sg_endpoint cfg} then 1 else 2)"
  using assms unfolding storage_New_def
  by (auto dest!: buildClient_Inr elim!: boot_elims split: if_splits)

text \<open>
  A worker process that starts consumes the two topics that the handlers publish to, each with its
  own group, commits only what its loop marks, speaks TLS exactly when it authenticates with IAM, and
  has a store exactly when a bucket is configured.
\<close>

theorem worker_clients:
  assumes "run_state (worker_main L S env) s = (Inr p, s')"
  shows "{ConsumerGroup ''upload-workers'', ConsumeTopics ''track.uploads'', AutoCommitMarks} \<subseteq> set (wp_uploads p) \<and>
     {ConsumerGroup ''analytics-workers'', ConsumeTopics ''play.events'', AutoCommitMarks} \<subseteq> set (wp_plays p) \<and>
     (DialTLSConfig \<in> set (wp_uploads p) \<inter> set (wp_plays p) \<longleftrightarrow> env ''KAFKA_AUTH'' = ''iam'') \<and>
     (wp_store p = None \<longleftrightarrow> env ''S3_BUCKET'' = '''')"
proof -
  let ?auth = "getEnv env ''KAFKA_AUTH'' ''plain''"
  obtain brokers region t1 t2 t3 t4 t5 t6 where
    stored: "run_state (worker_storage L env region) t1 = (Inr (wp_store p), t2)" and
    uploads: "run_state (NewUploadWorker L brokers ?auth region) t3 = (Inr (wp_uploads p), t4)" and
    plays: "run_state (NewAnalyticsWorker L brokers ?auth region) t5 = (Inr (wp_plays p), t6)"
    using assms unfolding worker_main_def Let_def by (elim boot_elims) fastforce
  have "wp_store p = None \<longleftrightarrow> env ''S3_BUCKET'' = ''''"
    using stored unfolding worker_storage_def Let_def by (cases "env ''S3_BUCKET'' = ''''") (auto elim!: boot_elims dest: sym)
  moreover have "?auth = ''iam'' \<longleftrightarrow> env ''KAFKA_AUTH'' = ''iam''" by (auto simp: getEnv_def)
  ultimately show ?thesis
    using uploads plays unfolding NewUploadWorker_def NewAnalyticsWorker_def
    by (auto elim!: wrap_InrE dest!: consumers_Inr)
qed

section \<open>A concrete start\<close>

text \<open>An environment with a bucket behind a local endpoint, and libraries that fail on one migration.\<close>

definition boot_env :: "string \<Rightarrow> string" where
  "boot_env key = (if key \<in> {''DATABASE_URL'', ''REDIS_URL'', ''KAFKA_BROKERS''} then ''x''
     else if key = ''KAFKA_AUTH'' then ''iam'' else '''')"

definition boot_libs :: "lib_call set \<Rightarrow> nat libs" where
  "boot_libs bad c n = (c \<notin> bad, n)"

definition boot_config :: storage_config where
  "boot_config = \<lparr>sg_bucket = ''b'', sg_region = ''r'', sg_endpoint = ''http://minio:9000'', sg_access = ''k'',
     sg_secret = ''s'', sg_presign = ''http://localhost:9000''\<rparr>"

lemmas boot_run = and_then_def wrap_def attempt_def call_def boot_libs_def need_env_def mustEnv_def getEnv_def
  boot_env_def db_Migrate_def migrations_def

lemma boot_worker:
  "\<exists>p ts. run_state (worker_main (boot_libs {}) lab boot_env) (lab_world empty_db, []) = (Inr p, (lab_world empty_db, ts)) \<and>
     executed ts = migrations"
  by (simp add: boot_run worker_main_def Let_def constructors lab_world_def)

theorem startup_fails_fast_witness:
  "\<exists>r w' tr p v' ts. run_state (api_main (boot_libs {Pg_exec ''migrationUsers''}) Some lab lab_crypto lab_engine boot_env)
       (lab_world empty_db, []) = (r, (w', tr)) \<and> ok_trace migrations r tr \<and>
     run_state (worker_main (boot_libs {}) lab boot_env) (lab_world empty_db, []) = (Inr p, (v', ts)) \<and> executed ts = migrations"
proof -
  obtain p ts where run: "run_state (worker_main (boot_libs {}) lab boot_env) (lab_world empty_db, []) = (Inr p, (lab_world empty_db, ts))"
    using boot_worker by blast
  obtain r w' tr where api: "run_state (api_main (boot_libs {Pg_exec ''migrationUsers''}) Some lab lab_crypto lab_engine boot_env)
      (lab_world empty_db, []) = (r, (w', tr))" by (metis prod.exhaust)
  from startup_fails_fast [OF api run] run api show ?thesis by (auto simp: ok_trace_def)
qed

theorem storage_clients_witness:
  "\<exists>s w' tr. run_state (storage_New (boot_libs {}) boot_config) (lab_world empty_db, []) = (Inr s, (w', tr)) \<and>
     s3_endpoint (ob_presign s) = Some ''http://localhost:9000'' \<and> length tr = 2"
proof -
  obtain s w' tr where run: "run_state (storage_New (boot_libs {}) boot_config) (lab_world empty_db, []) = (Inr s, (w', tr))"
    by (simp add: boot_run storage_New_def buildClient_def boot_config_def Let_def lab_world_def)
  from storage_clients [OF run] run show ?thesis by (auto simp: boot_config_def client_at_def)
qed

theorem worker_clients_witness:
  "\<exists>p s'. run_state (worker_main (boot_libs {}) lab boot_env) (lab_world empty_db, []) = (Inr p, s') \<and>
     DialTLSConfig \<in> set (wp_uploads p) \<and> wp_store p = None"
proof -
  obtain p ts where run: "run_state (worker_main (boot_libs {}) lab boot_env) (lab_world empty_db, []) = (Inr p, (lab_world empty_db, ts))"
    using boot_worker by blast
  from worker_clients [OF run] run show ?thesis by (auto simp: boot_env_def)
qed

end
