(* ===== verification/Consistent_Hashing.thy ===== *)
theory Consistent_Hashing
  imports Go_Strings "HOL-Library.Word" "HOL-Library.AList"
begin

text \<open>
  \<open>interview-prep/consistent-hashing/main.go\<close>: the ring with virtual nodes over CRC-32. Positions
  are 32-bit words; the Go map from position to node is an association list with distinct keys.
  \<open>crc32.ChecksumIEEE\<close> and \<open>sort.Search\<close> are those of Go's standard library.
\<close>

unbundle bit_operations_syntax

section \<open>CRC-32\<close>

definition crc_bit :: "32 word \<Rightarrow> 32 word" where
  "crc_bit c = (if bit c 0 then drop_bit 1 c XOR 0xEDB88320 else drop_bit 1 c)"

definition crc_byte :: "32 word \<Rightarrow> char \<Rightarrow> 32 word" where
  "crc_byte c b = (crc_bit ^^ 8) (c XOR of_nat (of_char b))"

definition crc_state :: "string \<Rightarrow> 32 word" where
  "crc_state s = foldl crc_byte 0xFFFFFFFF s"

definition hash :: "string \<Rightarrow> 32 word" where
  "hash s = crc_state s XOR 0xFFFFFFFF"

lemma funpow_8: "(f ^^ 8) x = f (f (f (f (f (f (f (f x)))))))"
  by (simp add: eval_nat_numeral)

lemmas crc_eval = hash_def crc_state_def crc_byte_def funpow_8 crc_bit_def

text \<open>Texts of equal CRC stay equal when the same suffix is appended.\<close>

lemma hash_append: "hash a = hash b \<Longrightarrow> hash (a @ s) = hash (b @ s)"
proof -
  assume "hash a = hash b"
  then have "hash a XOR 0xFFFFFFFF = hash b XOR 0xFFFFFFFF" by simp
  then have "crc_state a = crc_state b" by (simp add: hash_def xor.assoc)
  then show ?thesis by (simp add: hash_def crc_state_def)
qed

section \<open>Binary search\<close>

text \<open>\<open>sort.Search\<close>: the loop on the half-open interval \<open>[i, j)\<close>.\<close>

function search_from :: "(nat \<Rightarrow> bool) \<Rightarrow> nat \<Rightarrow> nat \<Rightarrow> nat" where
  "search_from f i j =
     (if i < j then (let h = (i + j) div 2 in if f h then search_from f i h else search_from f (h + 1) j) else i)"
  by auto
termination by (relation "measure (\<lambda>(f, i, j). j - i)") auto

declare search_from.simps [simp del]

definition sort_Search :: "nat \<Rightarrow> (nat \<Rightarrow> bool) \<Rightarrow> nat" where
  "sort_Search n f = search_from f 0 n"

lemma search_from_least:
  assumes "i \<le> j" and "\<And>a b. a \<le> b \<Longrightarrow> b < n \<Longrightarrow> f a \<Longrightarrow> f b" and "\<And>k. k < i \<Longrightarrow> \<not> f k"
    and "j < n \<Longrightarrow> f j" and "j \<le> n"
  shows "search_from f i j \<le> n \<and> (\<forall>k < search_from f i j. \<not> f k) \<and> (search_from f i j < n \<longrightarrow> f (search_from f i j))"
  using assms
proof (induction f i j rule: search_from.induct)
  case (1 f i j)
  let ?h = "(i + j) div 2"
  consider "\<not> i < j" | "i < j" "f ?h" | "i < j" "\<not> f ?h" by blast
  then show ?case
  proof cases
    case 1
    have eq: "search_from f i j = i" using 1 by (subst search_from.simps) simp
    have "i = j" using 1 "1.prems"(1) by simp
    then show ?thesis unfolding eq using "1.prems"(3-5) by blast
  next
    case 2
    have eq: "search_from f i j = search_from f i ?h" using 2 by (subst search_from.simps) simp
    have "i \<le> ?h" "?h < j" "?h \<le> n" using 2(1) "1.prems"(5) by auto
    then show ?thesis unfolding eq
      by - (rule "1.IH"(1) [OF 2(1) refl 2(2) _ "1.prems"(2,3)], simp_all add: 2)
  next
    case 3
    have eq: "search_from f i j = search_from f (?h + 1) j" using 3 by (subst search_from.simps) simp
    have inside: "?h < n" using 3(1) "1.prems"(5) by auto
    have low: "\<not> f k" if "k < ?h + 1" for k using "1.prems"(2) [of k ?h] inside 3(2) that by auto
    have "?h + 1 \<le> j" using 3(1) by auto
    then show ?thesis unfolding eq by (rule "1.IH"(2) [OF 3(1) refl 3(2) _ "1.prems"(2) low "1.prems"(4,5)])
  qed
qed

section \<open>The ring\<close>

record ring =
  rg_nodes :: "(32 word \<times> string) list"
  rg_sorted :: "32 word list"
  rg_vnodes :: int

definition NewRing :: "int \<Rightarrow> ring" where
  "NewRing v = \<lparr>rg_nodes = [], rg_sorted = [], rg_vnodes = v\<rparr>"

definition vnode_key :: "string \<Rightarrow> nat \<Rightarrow> string" where
  "vnode_key node i = node @ ''-v'' @ itoa (int i)"

definition positions :: "int \<Rightarrow> string \<Rightarrow> 32 word list" where
  "positions v node = map (\<lambda>i. hash (vnode_key node i)) [0..<nat v]"

definition ring_Add :: "string \<Rightarrow> ring \<Rightarrow> ring" where
  "ring_Add node r = (let hs = positions (rg_vnodes r) node in
     r\<lparr>rg_nodes := foldl (\<lambda>ns h. AList.update h node ns) (rg_nodes r) hs,
       rg_sorted := sort (rg_sorted r @ hs)\<rparr>)"

definition ring_Remove :: "string \<Rightarrow> ring \<Rightarrow> ring" where
  "ring_Remove node r = (let hs = positions (rg_vnodes r) node;
       ns = foldl (\<lambda>ns h. AList.delete h ns) (rg_nodes r) hs
     in r\<lparr>rg_nodes := ns, rg_sorted := sort (map fst ns)\<rparr>)"

text \<open>The search is over the list's own length, so the index is in range; a missing map key gives \<open>""\<close>.\<close>

definition ring_Get :: "ring \<Rightarrow> string \<Rightarrow> string" where
  "ring_Get r key =
     (if rg_sorted r = [] then ''''
      else let h = hash key; n = length (rg_sorted r);
               idx = sort_Search n (\<lambda>i. h \<le> rg_sorted r ! i);
               idx' = (if idx = n then 0 else idx)
           in case map_of (rg_nodes r) (rg_sorted r ! idx') of None \<Rightarrow> '''' | Some node \<Rightarrow> node)"

section \<open>The invariant\<close>

text \<open>
  The sorted list holds the positions of the map, and each position is one of its node's own.
\<close>

definition ring_ok :: "ring \<Rightarrow> bool" where
  "ring_ok r \<longleftrightarrow> sorted (rg_sorted r) \<and> set (rg_sorted r) = fst ` set (rg_nodes r) \<and> distinct (map fst (rg_nodes r)) \<and>
     (\<forall>p node. map_of (rg_nodes r) p = Some node \<longrightarrow> p \<in> set (positions (rg_vnodes r) node))"

lemma foldl_update:
  "map_of (foldl (\<lambda>ns h. AList.update h node ns) ns hs) p = (if p \<in> set hs then Some node else map_of ns p)"
  by (induction hs arbitrary: ns) (auto simp: update_conv')

lemma foldl_update_distinct:
  "distinct (map fst ns) \<Longrightarrow> distinct (map fst (foldl (\<lambda>ns h. AList.update h node ns) ns hs))"
  by (induction hs arbitrary: ns) (auto simp: distinct_update)

lemma foldl_delete:
  "map_of (foldl (\<lambda>ns h. AList.delete h ns) ns hs) p = (if p \<in> set hs then None else map_of ns p)"
  by (induction hs arbitrary: ns) (auto simp: delete_conv')

lemma foldl_delete_distinct:
  "distinct (map fst ns) \<Longrightarrow> distinct (map fst (foldl (\<lambda>ns h. AList.delete h ns) ns hs))"
  by (induction hs arbitrary: ns) (auto simp: distinct_delete)

lemma keys_dom: "fst ` set ns = dom (map_of ns)"
  by (rule dom_map_of_conv_image_fst [symmetric])

lemma map_of_Add:
  "map_of (rg_nodes (ring_Add node r)) p =
     (if p \<in> set (positions (rg_vnodes r) node) then Some node else map_of (rg_nodes r) p)"
  by (simp add: ring_Add_def Let_def foldl_update)

lemma map_of_Remove:
  "map_of (rg_nodes (ring_Remove node r)) p =
     (if p \<in> set (positions (rg_vnodes r) node) then None else map_of (rg_nodes r) p)"
  by (simp add: ring_Remove_def Let_def foldl_delete)

lemma vnodes_same [simp]: "rg_vnodes (ring_Add node r) = rg_vnodes r" "rg_vnodes (ring_Remove node r) = rg_vnodes r"
  by (simp_all add: ring_Add_def ring_Remove_def Let_def)

lemma ring_ok_New: "ring_ok (NewRing v)"
  by (simp add: ring_ok_def NewRing_def)

lemma ring_ok_Add: "ring_ok r \<Longrightarrow> ring_ok (ring_Add node r)"
proof -
  assume ok: "ring_ok r"
  have "distinct (map fst (rg_nodes (ring_Add node r)))" "sorted (rg_sorted (ring_Add node r))"
    using ok by (simp_all add: ring_ok_def ring_Add_def Let_def foldl_update_distinct)
  moreover have "set (rg_sorted (ring_Add node r)) = fst ` set (rg_nodes (ring_Add node r))"
    using ok unfolding keys_dom by (auto simp: ring_ok_def keys_dom map_of_Add dom_def ring_Add_def Let_def foldl_update)
  ultimately show ?thesis using ok by (simp add: ring_ok_def map_of_Add)
qed

lemma ring_ok_Remove: "ring_ok r \<Longrightarrow> ring_ok (ring_Remove node r)"
proof -
  assume ok: "ring_ok r"
  then have "distinct (map fst (rg_nodes (ring_Remove node r)))" "sorted (rg_sorted (ring_Remove node r))"
    "set (rg_sorted (ring_Remove node r)) = fst ` set (rg_nodes (ring_Remove node r))"
    by (simp_all add: ring_ok_def ring_Remove_def Let_def foldl_delete_distinct)
  with ok show ?thesis by (simp add: ring_ok_def map_of_Remove)
qed

datatype ring_event = Add string | Remove string

definition ring_step :: "ring \<Rightarrow> ring_event \<Rightarrow> ring option" where
  "ring_step r e = Some (case e of Add node \<Rightarrow> ring_Add node r | Remove node \<Rightarrow> ring_Remove node r)"

interpretation rings: transition_system "NewRing v" ring_step ring_ok for v
  by unfold_locales (auto simp: ring_step_def ring_ok_New ring_ok_Add ring_ok_Remove split: ring_event.splits)

section \<open>The owner of a key\<close>

text \<open>
  The specification: a map from positions to nodes, and the first position clockwise from a hash.
\<close>

definition clockwise :: "32 word set \<Rightarrow> 32 word \<Rightarrow> 32 word" where
  "clockwise P h = (if \<exists>p \<in> P. h \<le> p then Min {p \<in> P. h \<le> p} else Min P)"

definition owner :: "(32 word \<rightharpoonup> string) \<Rightarrow> string \<Rightarrow> string" where
  "owner m key = (case m (clockwise (dom m) (hash key)) of None \<Rightarrow> '''' | Some node \<Rightarrow> node)"

lemma clockwise_in:
  assumes "finite P" and "P \<noteq> {}"
  shows "clockwise P h \<in> P"
proof (cases "\<exists>p \<in> P. h \<le> p")
  case True
  then have "Min {p \<in> P. h \<le> p} \<in> {p \<in> P. h \<le> p}" using assms by (intro Min_in) auto
  with True show ?thesis by (simp add: clockwise_def)
next
  case False
  with assms show ?thesis by (simp add: clockwise_def)
qed

text \<open>A position that is the answer among many is the answer among fewer.\<close>

lemma clockwise_subset:
  assumes "finite Q" and "P \<subseteq> Q" and "clockwise Q h \<in> P"
  shows "clockwise P h = clockwise Q h"
proof (cases "\<exists>p \<in> Q. h \<le> p")
  case True
  let ?c = "Min {p \<in> Q. h \<le> p}"
  have c: "clockwise Q h = ?c" using True by (simp add: clockwise_def)
  have "?c \<in> {p \<in> Q. h \<le> p}" using True assms(1) by (intro Min_in) auto
  then have "h \<le> ?c" by simp
  moreover have "Min {p \<in> P. h \<le> p} = ?c"
    using assms \<open>h \<le> ?c\<close> c finite_subset [OF assms(2,1)] by (intro Min_eqI) (auto intro: Min_le)
  ultimately show ?thesis using c assms(3) by (auto simp: clockwise_def)
next
  case False
  then have c: "clockwise Q h = Min Q" by (simp add: clockwise_def)
  have "Min P = Min Q"
    using assms c finite_subset [OF assms(2,1)] by (intro Min_eqI) (auto intro: Min_le)
  with False c assms(2) show ?thesis by (auto simp: clockwise_def)
qed

text \<open>The index that the binary search finds, with the wrap to the start.\<close>

lemma search_clockwise:
  fixes h :: "32 word"
  assumes "sorted xs" and "xs \<noteq> []"
  defines "idx \<equiv> sort_Search (length xs) (\<lambda>i. h \<le> xs ! i)"
  shows "xs ! (if idx = length xs then 0 else idx) = clockwise (set xs) h"
proof -
  let ?n = "length xs" and ?f = "\<lambda>i. h \<le> xs ! i"
  have least: "idx \<le> ?n" "\<And>k. k < idx \<Longrightarrow> \<not> ?f k" "idx < ?n \<Longrightarrow> ?f idx"
    unfolding idx_def sort_Search_def
    using search_from_least [of 0 ?n ?n ?f] sorted_nth_mono [OF assms(1)] by (auto intro: order_trans)
  show ?thesis
  proof (cases "idx = ?n")
    case True
    then have below: "\<not> h \<le> p" if "p \<in> set xs" for p using least(2) that by (auto simp: in_set_conv_nth)
    have "Min (set xs) = xs ! 0"
      using assms(2) sorted_nth_mono [OF assms(1), of 0] by (intro Min_eqI) (auto simp: in_set_conv_nth)
    with True below show ?thesis by (auto simp: clockwise_def)
  next
    case False
    with least have idx: "idx < ?n" "?f idx" by auto
    have "Min {p \<in> set xs. h \<le> p} = xs ! idx"
    proof (rule Min_eqI)
      fix p assume "p \<in> {p \<in> set xs. h \<le> p}"
      then obtain k where k: "k < ?n" "p = xs ! k" "?f k" by (auto simp: in_set_conv_nth)
      then have "idx \<le> k" using least(2) by (meson not_less)
      with k show "xs ! idx \<le> p" using sorted_nth_mono [OF assms(1)] by simp
    qed (use idx in auto)
    with False idx show ?thesis by (auto simp: clockwise_def)
  qed
qed

lemma Get_owner: "ring_ok r \<Longrightarrow> ring_Get r key = owner (map_of (rg_nodes r)) key"
proof (cases "rg_sorted r = []")
  case True
  assume "ring_ok r"
  with True have "rg_nodes r = []" by (simp add: ring_ok_def)
  with True show ?thesis by (simp add: ring_Get_def owner_def)
next
  case False
  assume ok: "ring_ok r"
  then have "set (rg_sorted r) = dom (map_of (rg_nodes r))" by (simp add: ring_ok_def keys_dom)
  moreover have "sorted (rg_sorted r)" using ok by (simp add: ring_ok_def)
  ultimately show ?thesis
    using search_clockwise [of "rg_sorted r" "hash key"] False by (simp add: ring_Get_def owner_def Let_def)
qed

lemma owner_Add:
  assumes "finite (dom m)" and "finite P"
  shows "owner (\<lambda>p. if p \<in> P then Some node else m p) key \<in> {node, owner m key}"
proof -
  let ?m = "\<lambda>p. if p \<in> P then Some node else m p" and ?h = "hash key"
  have dom: "dom ?m = P \<union> dom m" by (auto simp: dom_def)
  show ?thesis
  proof (cases "clockwise (dom ?m) ?h \<in> P")
    case True
    then show ?thesis by (simp add: owner_def)
  next
    case out: False
    show ?thesis
    proof (cases "P \<union> dom m = {}")
      case True
      then have "?m = m" by auto
      then show ?thesis by simp
    next
      case False
      then have "clockwise (dom ?m) ?h \<in> P \<union> dom m" unfolding dom using assms by (intro clockwise_in) auto
      with out have "clockwise (dom ?m) ?h \<in> dom m" by blast
      then have "clockwise (dom m) ?h = clockwise (dom ?m) ?h"
        using assms by (intro clockwise_subset) (auto simp: dom)
      with out show ?thesis by (simp add: owner_def)
    qed
  qed
qed

lemma owner_Remove:
  assumes "finite (dom m)" and "\<And>p. p \<in> P \<Longrightarrow> m p \<in> {None, Some node}" and "owner m key \<noteq> node"
  shows "owner (\<lambda>p. if p \<in> P then None else m p) key = owner m key"
proof (cases "dom m = {}")
  case True
  then have "(\<lambda>p. if p \<in> P then None else m p) = m" by auto
  then show ?thesis by simp
next
  case False
  let ?m = "\<lambda>p. if p \<in> P then None else m p" and ?c = "clockwise (dom m) (hash key)"
  have c: "?c \<in> dom m" using assms(1) False by (rule clockwise_in)
  moreover have "?c \<notin> P" using assms(2) [of ?c] assms(3) c by (auto simp: owner_def)
  ultimately have "?c \<in> dom ?m" by auto
  then have "clockwise (dom ?m) (hash key) = ?c"
    using assms(1) by (intro clockwise_subset) (auto split: if_splits)
  with \<open>?c \<notin> P\<close> show ?thesis by (simp add: owner_def)
qed

lemma owner_in: "finite (dom m) \<Longrightarrow> owner m key \<noteq> '''' \<Longrightarrow> owner m key \<in> ran m"
  by (auto simp: owner_def ran_def split: option.splits)

section \<open>Results\<close>

text \<open>
  C35. Whatever the order of additions and removals, \<open>Get\<close> answers the node that owns the first
  position at or after the key's hash, the first of all when there is none: the binary search over the
  sorted slice, with its wrap, is the lookup in the map of positions.
\<close>

theorem get_is_clockwise_owner:
  assumes "rings.run (NewRing v) es = Some r"
  shows "ring_Get r key = owner (map_of (rg_nodes r)) key"
  by (rule Get_owner [OF rings.run_inv [OF assms]])

theorem get_is_clockwise_owner_witness:
  "\<exists>r. rings.run (NewRing 2) [Add ''a'', Add ''b'', Remove ''a''] = Some r \<and>
     ring_Get r ''key'' = owner (map_of (rg_nodes r)) ''key''"
  using get_is_clockwise_owner [of 2 "[Add ''a'', Add ''b'', Remove ''a'']"] by (simp add: ring_step_def)

text \<open>
  C36. Adding a node moves keys only to that node: every other key keeps the node it had.
\<close>

theorem add_moves_only_to_new:
  assumes "rings.run (NewRing v) es = Some r"
  shows "ring_Get (ring_Add node r) key \<in> {node, ring_Get r key}"
proof -
  have ok: "ring_ok r" by (rule rings.run_inv [OF assms])
  show ?thesis
    unfolding Get_owner [OF ok] Get_owner [OF ring_ok_Add [OF ok]] map_of_Add
    by (rule owner_Add) (simp_all add: finite_dom_map_of)
qed

theorem add_moves_only_to_new_witness:
  "\<exists>r. rings.run (NewRing 2) [Add ''a''] = Some r \<and> ring_Get (ring_Add ''b'' r) ''key'' \<in> {''b'', ring_Get r ''key''}"
  using add_moves_only_to_new [of 2 "[Add ''a'']"] by (simp add: ring_step_def)

text \<open>
  C37. Removing a node moves only that node's keys, and moves all of them, provided its virtual nodes
  share no position with another node's.
\<close>

theorem remove_moves_only_its_keys:
  assumes "rings.run (NewRing v) es = Some r"
    and "\<forall>p \<in> set (positions (rg_vnodes r) node). map_of (rg_nodes r) p \<in> {None, Some node}"
  shows "(ring_Get r key \<noteq> node \<longrightarrow> ring_Get (ring_Remove node r) key = ring_Get r key) \<and>
     (node \<noteq> '''' \<longrightarrow> ring_Get (ring_Remove node r) key \<noteq> node)"
proof -
  have ok: "ring_ok r" by (rule rings.run_inv [OF assms(1)])
  let ?m = "map_of (rg_nodes (ring_Remove node r))"
  have "node \<notin> ran ?m" using ok by (auto simp: ran_def map_of_Remove ring_ok_def split: if_splits)
  then have "node \<noteq> '''' \<longrightarrow> owner ?m key \<noteq> node" using owner_in [of ?m key] by (auto simp: finite_dom_map_of)
  moreover have "owner (map_of (rg_nodes r)) key \<noteq> node \<longrightarrow> owner ?m key = owner (map_of (rg_nodes r)) key"
    unfolding map_of_Remove using assms(2) by (intro impI owner_Remove) (auto simp: finite_dom_map_of)
  ultimately show ?thesis unfolding Get_owner [OF ok] Get_owner [OF ring_ok_Remove [OF ok]] by blast
qed

lemma positions_ab: "positions 1 ''a'' = [0xCDF77415]" "positions 1 ''b'' = [0xDF42DBFB]"
  by (simp_all add: positions_def vnode_key_def itoa_def nat_digits.simps crc_eval)

theorem remove_moves_only_its_keys_witness:
  "\<exists>r. rings.run (NewRing 1) [Add ''a'', Add ''b''] = Some r \<and>
     (ring_Get r ''key'' \<noteq> ''b'' \<longrightarrow> ring_Get (ring_Remove ''b'' r) ''key'' = ring_Get r ''key'') \<and>
     ring_Get (ring_Remove ''b'' r) ''key'' \<noteq> ''b''"
proof -
  obtain r where r: "rings.run (NewRing 1) [Add ''a'', Add ''b''] = Some r" "r = ring_Add ''b'' (ring_Add ''a'' (NewRing 1))"
    by (simp add: ring_step_def)
  have v: "rg_vnodes (NewRing 1) = 1" "rg_nodes (NewRing 1) = []" by (simp_all add: NewRing_def)
  have "\<forall>p \<in> set (positions (rg_vnodes r) ''b''). map_of (rg_nodes r) p \<in> {None, Some ''b''}"
    unfolding r(2) by (simp add: map_of_Add v positions_ab)
  from remove_moves_only_its_keys [OF r(1) this, of "''key''"] r(1) show ?thesis by auto
qed

text \<open>
  A node that is added and removed again, with no position in common with the others, leaves no
  trace: every key is where it was.
\<close>

theorem add_remove_roundtrip:
  assumes "rings.run (NewRing v) es = Some r"
    and "\<forall>p \<in> set (positions (rg_vnodes r) node). map_of (rg_nodes r) p = None"
  shows "ring_Get (ring_Remove node (ring_Add node r)) key = ring_Get r key"
proof -
  have ok: "ring_ok r" by (rule rings.run_inv [OF assms(1)])
  have "map_of (rg_nodes (ring_Remove node (ring_Add node r))) = map_of (rg_nodes r)"
    using assms(2) by (auto simp: fun_eq_iff map_of_Add map_of_Remove)
  then show ?thesis unfolding Get_owner [OF ok] Get_owner [OF ring_ok_Remove [OF ring_ok_Add [OF ok]]] by simp
qed

theorem add_remove_roundtrip_witness:
  "\<exists>r. rings.run (NewRing 1) [Add ''a''] = Some r \<and>
     ring_Get (ring_Remove ''b'' (ring_Add ''b'' r)) ''key'' = ring_Get r ''key''"
proof -
  obtain r where r: "rings.run (NewRing 1) [Add ''a''] = Some r" "r = ring_Add ''a'' (NewRing 1)"
    by (simp add: ring_step_def)
  have v: "rg_vnodes (NewRing 1) = 1" "rg_nodes (NewRing 1) = []" by (simp_all add: NewRing_def)
  have "\<forall>p \<in> set (positions (rg_vnodes r) ''b''). map_of (rg_nodes r) p = None"
    unfolding r(2) by (simp add: map_of_Add v positions_ab)
  from add_remove_roundtrip [OF r(1) this, of "''key''"] r(1) show ?thesis by blast
qed

text \<open>
  Two names of equal CRC-32: all their virtual nodes collide.
\<close>

lemma hash_plumless: "hash ''plumless'' = hash ''buckeroo''"
  by (simp add: crc_eval)

lemma positions_plumless: "positions v ''plumless'' = positions v ''buckeroo''"
  using hash_append [OF hash_plumless] by (simp add: positions_def vnode_key_def)

text \<open>
  The condition on collisions is needed: after adding \<open>plumless\<close> and \<open>buckeroo\<close> and removing
  \<open>buckeroo\<close>, whatever the number of virtual nodes, no key has a node although \<open>plumless\<close> was
  never removed.
\<close>

theorem collision_loses_node:
  "map_option (\<lambda>r. ring_Get r key) (rings.run (NewRing v) [Add ''plumless'', Add ''buckeroo'', Remove ''buckeroo'']) =
     Some ''''"
proof -
  let ?r = "ring_Remove ''buckeroo'' (ring_Add ''buckeroo'' (ring_Add ''plumless'' (NewRing v)))"
  have "map_of (rg_nodes ?r) = Map.empty"
    by (auto simp: fun_eq_iff map_of_Add map_of_Remove positions_plumless NewRing_def)
  then have "ring_Get ?r key = ''''"
    by (simp add: Get_owner [OF ring_ok_Remove [OF ring_ok_Add [OF ring_ok_Add [OF ring_ok_New]]]] owner_def)
  then show ?thesis by (simp add: ring_step_def)
qed

end
