(* ===== verification/Timeline.thy ===== *)
theory Timeline
  imports Prelude "HOL-Library.Word"
begin

text \<open>
  \<open>interview-prep/twitter-timeline/main.go\<close>: the in-memory store with fan-out on write, against
  the specification by fan-out on read. Ids are 64-bit words (\<open>nextID++\<close> wraps); a missing key of
  the maps of slices gives the empty slice. Every operation holds the mutex, so concurrent callers are
  some sequence of operations.
\<close>

section \<open>The store\<close>

record tweet =
  tw_id :: "64 word"
  tw_author :: "64 word"
  tw_text :: string
  tw_created :: int

record tstore =
  ts_tweets :: "64 word \<rightharpoonup> tweet"
  ts_followers :: "64 word \<Rightarrow> 64 word list"
  ts_timelines :: "64 word \<Rightarrow> 64 word list"   \<comment> \<open>newest first\<close>
  ts_next :: "64 word"

definition NewStore :: tstore where
  "NewStore = \<lparr>ts_tweets = Map.empty, ts_followers = (\<lambda>_. []), ts_timelines = (\<lambda>_. []), ts_next = 0\<rparr>"

definition Follow :: "64 word \<Rightarrow> 64 word \<Rightarrow> tstore \<Rightarrow> tstore" where
  "Follow followerID followeeID s =
     s\<lparr>ts_followers := (ts_followers s)(followeeID := ts_followers s followeeID @ [followerID])\<rparr>"

definition prepend :: "64 word list \<Rightarrow> 64 word \<Rightarrow> nat \<Rightarrow> 64 word list" where
  "prepend ids i maxLen = (let ids' = i # ids in if length ids' > maxLen then take maxLen ids' else ids')"

definition fan_out :: "64 word \<Rightarrow> 64 word list \<Rightarrow> (64 word \<Rightarrow> 64 word list) \<Rightarrow> 64 word \<Rightarrow> 64 word list" where
  "fan_out i fs tls = foldl (\<lambda>tl f. tl(f := prepend (tl f) i 200)) tls fs"

definition PostTweet :: "64 word \<Rightarrow> string \<Rightarrow> int \<Rightarrow> tstore \<Rightarrow> tweet \<times> tstore" where
  "PostTweet authorID text now s =
     (let i = ts_next s + 1;
          t = \<lparr>tw_id = i, tw_author = authorID, tw_text = text, tw_created = now\<rparr>
      in (t, s\<lparr>ts_next := i, ts_tweets := (ts_tweets s)(i \<mapsto> t),
               ts_timelines := fan_out i (ts_followers s authorID) (ts_timelines s)\<rparr>))"

text \<open>A negative limit makes the slice expression panic (\<^term>\<open>None\<close>).\<close>

definition GetTimeline :: "64 word \<Rightarrow> int \<Rightarrow> tstore \<Rightarrow> tweet list option" where
  "GetTimeline userID limit s =
     (let ids = ts_timelines s userID in
      if int (length ids) > limit
      then (if limit < 0 then None else Some (List.map_filter (ts_tweets s) (take (nat limit) ids)))
      else Some (List.map_filter (ts_tweets s) ids))"

section \<open>Histories\<close>

datatype tl_event = Follows "64 word" "64 word" | Posts "64 word" string int

definition tl_apply :: "tstore \<Rightarrow> tl_event \<Rightarrow> tstore" where
  "tl_apply s e = (case e of Follows a b \<Rightarrow> Follow a b s | Posts a msg now \<Rightarrow> snd (PostTweet a msg now s))"

definition store_after :: "tl_event list \<Rightarrow> tstore" where
  "store_after es = foldl tl_apply NewStore es"

lemma store_after_Nil: "store_after [] = NewStore"
  by (simp add: store_after_def)

lemma store_after_snoc: "store_after (es @ [e]) = tl_apply (store_after es) e"
  by (simp add: store_after_def)

section \<open>Fan-out on read\<close>

text \<open>
  The specification keeps nothing but the history, newest event first. A user's feed is computed when
  it is read: the posts of the authors the user followed before each post, once per follow.
\<close>

definition follow_count :: "tl_event list \<Rightarrow> 64 word \<Rightarrow> 64 word \<Rightarrow> nat" where
  "follow_count es u a = length (filter (\<lambda>e. e = Follows u a) es)"

primrec post_count :: "tl_event list \<Rightarrow> nat" where
  "post_count [] = 0"
| "post_count (e # es) = (case e of Follows _ _ \<Rightarrow> 0 | Posts _ _ _ \<Rightarrow> 1) + post_count es"

primrec feed :: "64 word \<Rightarrow> tl_event list \<Rightarrow> tweet list" where
  "feed u [] = []"
| "feed u (e # es) = (case e of
     Follows _ _ \<Rightarrow> feed u es
   | Posts a msg now \<Rightarrow>
       replicate (follow_count es u a)
         \<lparr>tw_id = of_nat (Suc (post_count es)), tw_author = a, tw_text = msg, tw_created = now\<rparr> @ feed u es)"

primrec all_tweets :: "tl_event list \<Rightarrow> tweet list" where
  "all_tweets [] = []"
| "all_tweets (e # es) = (case e of
     Follows _ _ \<Rightarrow> all_tweets es
   | Posts a msg now \<Rightarrow>
       \<lparr>tw_id = of_nat (Suc (post_count es)), tw_author = a, tw_text = msg, tw_created = now\<rparr> # all_tweets es)"

section \<open>The fan-out\<close>

lemma prepend_take: "prepend ids i n = take n (i # ids)"
  by (simp add: prepend_def Let_def)

lemma fan_out_eq:
  assumes "\<And>u. tls u = take 200 (rest u)"
  shows "fan_out i fs tls u = take 200 (replicate (count_list fs u) i @ rest u)"
  using assms
proof (induction fs arbitrary: tls rest)
  case Nil
  then show ?case by (simp add: fan_out_def)
next
  case (Cons f fs)
  let ?tls = "tls(f := prepend (tls f) i 200)"
  let ?rest = "rest(f := i # rest f)"
  have "?tls v = take 200 (?rest v)" for v
    using Cons.prems by (simp add: prepend_take take_Cons' )
  from Cons.IH [of ?tls ?rest, OF this]
  have "fan_out i fs ?tls u = take 200 (replicate (count_list fs u) i @ ?rest u)" .
  moreover have "fan_out i (f # fs) tls = fan_out i fs ?tls" by (simp add: fan_out_def)
  moreover have "replicate n i @ i # xs = replicate (Suc n) i @ xs" for n xs
    by (simp add: replicate_app_Cons_same)
  ultimately show ?case by (cases "u = f") simp_all
qed

section \<open>The abstraction\<close>

lemma followers_after:
  "count_list (ts_followers (store_after es) a) u = follow_count (rev es) u a"
proof (induction es rule: rev_induct)
  case (snoc e es)
  then show ?case
    by (cases e) (auto simp: store_after_snoc tl_apply_def Follow_def PostTweet_def Let_def follow_count_def)
qed (simp add: store_after_Nil NewStore_def follow_count_def)

lemma next_after: "ts_next (store_after es) = of_nat (post_count (rev es))"
proof (induction es rule: rev_induct)
  case (snoc e es)
  then show ?case
    by (cases e) (simp_all add: store_after_snoc tl_apply_def Follow_def PostTweet_def Let_def)
qed (simp add: store_after_Nil NewStore_def)

lemma timelines_after:
  "ts_timelines (store_after es) u = take 200 (map tw_id (feed u (rev es)))"
proof (induction es arbitrary: u rule: rev_induct)
  case (snoc e es)
  show ?case
  proof (cases e)
    case (Follows a b)
    with snoc show ?thesis by (simp add: store_after_snoc tl_apply_def Follow_def)
  next
    case (Posts a msg now)
    have "ts_timelines (store_after (es @ [e])) u =
        fan_out (ts_next (store_after es) + 1) (ts_followers (store_after es) a) (ts_timelines (store_after es)) u"
      using Posts by (simp add: store_after_snoc tl_apply_def PostTweet_def Let_def)
    also have "\<dots> = take 200 (replicate (follow_count (rev es) u a) (ts_next (store_after es) + 1) @ map tw_id (feed u (rev es)))"
      using fan_out_eq [of "ts_timelines (store_after es)" "\<lambda>u. map tw_id (feed u (rev es))"] snoc
      by (simp add: followers_after)
    finally show ?thesis using Posts by (simp add: next_after add.commute)
  qed
qed (simp add: store_after_Nil NewStore_def)

text \<open>Ids below the wrap are distinct, so each id leads to the tweet that was posted under it.\<close>

lemma post_count_ids: "t \<in> set (all_tweets es) \<Longrightarrow> \<exists>k \<le> post_count es. tw_id t = of_nat k"
proof (induction es)
  case (Cons e es)
  then show ?case by (cases e) (auto intro: le_SucI)
qed simp

lemma tweets_after:
  assumes "post_count (rev es) < 2 ^ 64" and "t \<in> set (all_tweets (rev es))"
  shows "ts_tweets (store_after es) (tw_id t) = Some t"
  using assms
proof (induction es rule: rev_induct)
  case (snoc e es)
  show ?case
  proof (cases e)
    case (Follows a b)
    with snoc show ?thesis by (simp add: store_after_snoc tl_apply_def Follow_def)
  next
    case (Posts a msg now)
    let ?n = "post_count (rev es)"
    let ?t = "\<lparr>tw_id = of_nat (Suc ?n), tw_author = a, tw_text = msg, tw_created = now\<rparr>"
    have tw: "ts_tweets (store_after (es @ [e])) = (ts_tweets (store_after es))(of_nat (Suc ?n) \<mapsto> ?t)"
      using Posts by (simp add: store_after_snoc tl_apply_def PostTweet_def Let_def next_after add.commute)
    have small: "Suc ?n < 2 ^ 64" using snoc.prems(1) Posts by simp
    consider "t = ?t" | "t \<in> set (all_tweets (rev es))" using snoc.prems(2) Posts by auto
    then show ?thesis
    proof cases
      case 1
      then show ?thesis unfolding tw by simp
    next
      case 2
      then obtain k where k: "k \<le> ?n" "tw_id t = of_nat k" using post_count_ids by blast
      have "(of_nat k :: 64 word) \<noteq> of_nat (Suc ?n)"
        using k(1) small by (simp add: word_of_nat_eq_iff take_bit_nat_eq_self del: of_nat_Suc)
      then have "tw_id t \<noteq> of_nat (Suc ?n)" using k(2) by simp
      moreover have "ts_tweets (store_after es) (tw_id t) = Some t" using 2 small snoc.IH by simp
      ultimately show ?thesis unfolding tw by (simp del: of_nat_Suc)
    qed
  qed
qed simp

lemma feed_tweets: "set (feed u es) \<subseteq> set (all_tweets es)"
  by (induction es) (auto split: tl_event.splits)

lemma map_filter_Some: "(\<And>x. x \<in> set xs \<Longrightarrow> f (g x) = Some x) \<Longrightarrow> List.map_filter f (map g xs) = xs"
  by (induction xs) auto

section \<open>The invariant\<close>

definition tl_inv :: "tstore \<Rightarrow> bool" where
  "tl_inv s \<longleftrightarrow> (\<forall>u. length (ts_timelines s u) \<le> 200 \<and> set (ts_timelines s u) \<subseteq> dom (ts_tweets s))"

definition tl_step :: "tstore \<Rightarrow> tl_event \<Rightarrow> tstore option" where
  "tl_step s e = Some (tl_apply s e)"

lemma fan_out_bounded:
  "(\<And>u. length (tls u) \<le> 200 \<and> set (tls u) \<subseteq> D) \<Longrightarrow> i \<in> D \<Longrightarrow>
     length (fan_out i fs tls u) \<le> 200 \<and> set (fan_out i fs tls u) \<subseteq> D"
proof (induction fs arbitrary: tls)
  case (Cons f fs)
  have "set (take 200 (i # tls f)) \<subseteq> D" using Cons.prems set_take_subset [of 200 "i # tls f"] by auto
  with Cons show ?case by (simp add: fan_out_def prepend_take)
qed (simp add: fan_out_def)

lemma tl_inv_apply:
  assumes "tl_inv s"
  shows "tl_inv (tl_apply s e)"
proof (cases e)
  case (Follows a b)
  with assms show ?thesis by (simp add: tl_inv_def tl_apply_def Follow_def)
next
  case (Posts a msg now)
  have old: "\<And>u. length (ts_timelines s u) \<le> 200 \<and> set (ts_timelines s u) \<subseteq> insert (ts_next s + 1) (dom (ts_tweets s))"
    using assms unfolding tl_inv_def by blast
  from Posts fan_out_bounded [OF old, of "ts_next s + 1" "ts_followers s a"] show ?thesis
    by (simp add: tl_inv_def tl_apply_def PostTweet_def Let_def)
qed

interpretation timelines: transition_system NewStore tl_step tl_inv
  by unfold_locales (auto simp: tl_step_def tl_inv_apply, simp add: tl_inv_def NewStore_def)

lemma run_store_after: "timelines.run s es = Some (foldl tl_apply s es)"
  by (induction es arbitrary: s) (simp_all add: tl_step_def)

lemma tl_inv_after: "tl_inv (store_after es)"
  unfolding store_after_def by (rule timelines.run_inv [OF run_store_after])

lemma map_filter_length: "set xs \<subseteq> dom f \<Longrightarrow> length (List.map_filter f xs) = length xs"
  by (induction xs) auto

lemma feed_old_ids: "t \<in> set (feed u es) \<Longrightarrow> \<exists>k \<le> post_count es. tw_id t = of_nat k"
  using feed_tweets post_count_ids by blast

text \<open>Without repeated follows of its reader a feed has each tweet once.\<close>

lemma feed_distinct:
  assumes "post_count es < 2 ^ 64" and "\<And>a. follow_count es u a \<le> 1"
  shows "distinct (feed u es)"
  using assms
proof (induction es)
  case (Cons e es)
  have once: "follow_count es u a \<le> 1" for a
    using Cons.prems(2) [of a] by (cases "e = Follows u a") (auto simp: follow_count_def)
  have few: "post_count es < 2 ^ 64" using Cons.prems(1) by (cases e) auto
  have IH: "distinct (feed u es)" by (rule Cons.IH [OF few once])
  show ?case
  proof (cases e)
    case (Posts a msg now)
    let ?t = "\<lparr>tw_id = of_nat (Suc (post_count es)), tw_author = a, tw_text = msg, tw_created = now\<rparr>"
    have "?t \<notin> set (feed u es)"
    proof
      assume "?t \<in> set (feed u es)"
      then obtain k where k: "k \<le> post_count es" "(of_nat (Suc (post_count es)) :: 64 word) = of_nat k"
        using feed_old_ids by fastforce
      moreover have "Suc (post_count es) < 2 ^ 64" using Cons.prems(1) Posts by simp
      ultimately show False by (simp add: word_of_nat_eq_iff take_bit_nat_eq_self del: of_nat_Suc)
    qed
    moreover have "follow_count es u a = 0 \<or> follow_count es u a = 1" using once [of a] by auto
    ultimately show ?thesis using IH Posts by auto
  qed (use IH in simp)
qed simp

section \<open>Results\<close>

text \<open>
  C38. Fan-out on write refines fan-out on read: after any history of follows and posts (fewer than
  2^64 of them), reading a timeline gives the newest tweets of the feed computed from the history, at
  most \<open>limit\<close> and at most 200 of them; a negative limit panics.
\<close>

theorem timeline_is_feed:
  assumes "post_count (rev es) < 2 ^ 64"
  shows "GetTimeline u limit (store_after es) =
     (if limit < 0 then None else Some (take (nat limit) (take 200 (feed u (rev es)))))"
proof -
  let ?feed = "take 200 (feed u (rev es))"
  have read: "List.map_filter (ts_tweets (store_after es)) (map tw_id ts) = ts" if "set ts \<subseteq> set (feed u (rev es))" for ts
    using that feed_tweets [of u "rev es"] tweets_after [OF assms] by (intro map_filter_Some) auto
  have ids: "ts_timelines (store_after es) u = map tw_id ?feed" by (simp add: timelines_after take_map)
  have "set (take n ?feed) \<subseteq> set (feed u (rev es))" for n
    by (meson order_trans set_take_subset)
  then have "List.map_filter (ts_tweets (store_after es)) (take n (map tw_id ?feed)) = take n ?feed" for n
    unfolding take_map by (rule read)
  from this [of "nat limit"] this [of 200] show ?thesis
    by (auto simp: GetTimeline_def ids Let_def)
qed

theorem timeline_is_feed_witness:
  "GetTimeline 2 10 (store_after [Follows 2 1, Posts 1 ''first'' 5, Posts 3 ''other'' 6, Posts 1 ''second'' 7]) =
     Some [\<lparr>tw_id = 3, tw_author = 1, tw_text = ''second'', tw_created = 7\<rparr>,
           \<lparr>tw_id = 1, tw_author = 1, tw_text = ''first'', tw_created = 5\<rparr>]"
  using timeline_is_feed [of "[Follows 2 1, Posts 1 ''first'' 5, Posts 3 ''other'' 6, Posts 1 ''second'' 7]" 2 10]
  by (simp add: follow_count_def)

text \<open>
  Whatever the history, also past the wrap of the ids, a timeline holds at most 200 ids, each of
  them leads to a stored tweet, and so a read returns exactly \<open>limit\<close> tweets or all there are.
\<close>

theorem timeline_bounded:
  "length (ts_timelines (store_after es) u) \<le> 200 \<and>
   set (ts_timelines (store_after es) u) \<subseteq> dom (ts_tweets (store_after es)) \<and>
   map_option length (GetTimeline u (int n) (store_after es)) = Some (min n (length (ts_timelines (store_after es) u)))"
proof -
  let ?ids = "ts_timelines (store_after es) u"
  have inv: "length ?ids \<le> 200" "set ?ids \<subseteq> dom (ts_tweets (store_after es))"
    using tl_inv_after [of es] unfolding tl_inv_def by blast+
  then have "set (take n ?ids) \<subseteq> dom (ts_tweets (store_after es))" by (meson order_trans set_take_subset)
  with inv map_filter_length show ?thesis by (auto simp: GetTimeline_def Let_def)
qed

text \<open>
  C39. A reader who follows nobody twice, whatever the others do, sees no tweet twice, as long as fewer
  than 2^64 tweets have been posted and no id has come round again. (A second follow of the same author is
  recorded as a second follower, and each of the author's later tweets is delivered twice.)
\<close>

theorem no_duplicate_tweets:
  assumes "post_count (rev es) < 2 ^ 64" and "\<forall>a. follow_count (rev es) u a \<le> 1"
    and "GetTimeline u limit (store_after es) = Some ts"
  shows "distinct ts"
proof -
  have "distinct (feed u (rev es))" using assms(1,2) by (intro feed_distinct) auto
  moreover have "ts_timelines (store_after es) u = map tw_id (take 200 (feed u (rev es)))"
    by (simp add: timelines_after take_map)
  moreover have "List.map_filter (ts_tweets (store_after es)) (map tw_id xs) = xs" if "set xs \<subseteq> set (feed u (rev es))" for xs
    using that feed_tweets [of u "rev es"] tweets_after [OF assms(1)] by (intro map_filter_Some) auto
  ultimately show ?thesis
    using assms(3) set_take_subset [of _ "feed u (rev es)"]
    by (auto simp: GetTimeline_def Let_def take_map split: if_splits)
qed

theorem no_duplicate_tweets_witness:
  "\<exists>ts. GetTimeline 2 10 (store_after [Follows 3 1, Follows 3 1, Follows 2 1, Posts 1 ''first'' 5, Posts 1 ''second'' 7]) = Some ts \<and>
     distinct ts \<and> length ts = 2"
proof -
  let ?es = "[Follows 3 1, Follows 3 1, Follows 2 1, Posts 1 ''first'' 5, Posts 1 ''second'' 7]"
  obtain ts where ts: "GetTimeline 2 10 (store_after ?es) = Some ts" "length ts = 2"
    by (simp add: store_after_def tl_apply_def Follow_def PostTweet_def NewStore_def GetTimeline_def fan_out_def
        prepend_def Let_def)
  from no_duplicate_tweets [OF _ _ ts(1)] ts show ?thesis by (simp add: follow_count_def)
qed

end
