(* ===== verification/Demos.thy ===== *)
theory Demos
  imports Lab Token_Buckets Consistent_Hashing Timeline
begin

text \<open>
  The \<open>main\<close> functions of three of the exercises under \<open>interview-prep\<close>, without their printing: what
  each of them shows about its data structure.
\<close>

section \<open>Consistent hashing\<close>

definition ring_of :: "int \<Rightarrow> string list \<Rightarrow> ring" where
  "ring_of v ns = foldl (\<lambda>r n. ring_Add n r) (NewRing v) ns"

definition cache_nodes :: "string list" where
  "cache_nodes = [''cache-1'', ''cache-2'', ''cache-3'', ''cache-4'', ''cache-5'']"

definition demo_keys :: "string list" where
  "demo_keys = map (\<lambda>i. ''track:'' @ itoa (int i)) [0..<1000]"

definition distribution :: "ring \<Rightarrow> string \<Rightarrow> nat" where
  "distribution r n = length (filter (\<lambda>k. ring_Get r k = n) demo_keys)"

definition remapped :: "ring \<Rightarrow> ring \<Rightarrow> nat" where
  "remapped before r = length (filter (\<lambda>k. ring_Get r k \<noteq> ring_Get before k) demo_keys)"

definition ring_main :: "nat list \<times> nat" where
  "ring_main = (let r = ring_of 150 cache_nodes in
     (map (distribution r) cache_nodes, remapped r (ring_Add ''cache-6'' r)))"

lemma ring_of_snoc: "ring_of v (ns @ [n]) = ring_Add n (ring_of v ns)"
  by (simp add: ring_of_def)

lemma vnodes_ring_of [simp]: "rg_vnodes (ring_of v ns) = v"
  by (induction ns rule: rev_induct) (simp_all add: ring_of_snoc, simp_all add: ring_of_def NewRing_def ring_Add_def Let_def)

lemma ring_ok_of: "ring_ok (ring_of v ns)"
  by (induction ns rule: rev_induct) (simp_all add: ring_of_snoc ring_ok_Add, simp add: ring_of_def ring_ok_New)

lemma ran_ring_of: "ran (map_of (rg_nodes (ring_of v ns))) \<subseteq> set ns"
  by (induction ns rule: rev_induct)
    (auto simp: ring_of_snoc map_of_Add ran_def split: if_splits, simp add: ring_of_def NewRing_def)

lemma Get_ring_of:
  assumes "0 < v" and "ns \<noteq> []"
  shows "ring_Get (ring_of v ns) key \<in> set ns"
proof -
  let ?m = "map_of (rg_nodes (ring_of v ns))"
  obtain ms n where ns: "ns = ms @ [n]" using assms(2) by (metis rev_exhaust)
  have "positions v n \<noteq> []" using assms(1) by (simp add: positions_def)
  then obtain p where "p \<in> set (positions v n)" by (metis list.set_intros(1) list.exhaust)
  then have "?m p = Some n" by (simp add: ns ring_of_snoc map_of_Add)
  then have "dom ?m \<noteq> {}" by auto
  then have "clockwise (dom ?m) (hash key) \<in> dom ?m" by (intro clockwise_in) (simp add: finite_dom_map_of)
  then have "owner ?m key \<in> ran ?m" by (auto simp: owner_def ran_def split: option.split)
  then show ?thesis using ran_ring_of by (auto simp: Get_owner [OF ring_ok_of])
qed

lemma length_demo_keys [simp]: "length demo_keys = 1000"
  by (simp add: demo_keys_def)

text \<open>
  Every key has a node, so the counts add up to the thousand keys, and the keys that the sixth cache
  remaps are exactly the ones it holds.
\<close>

theorem ring_main_counts:
  "sum_list (fst ring_main) = 1000 \<and> snd ring_main = distribution (ring_Add ''cache-6'' (ring_of 150 cache_nodes)) ''cache-6''"
proof -
  let ?r = "ring_of 150 cache_nodes" and ?six = "''cache-6''"
  have old: "ring_Get ?r k \<in> set cache_nodes" for k by (rule Get_ring_of) (simp_all add: cache_nodes_def)
  have six: "ring_Get (ring_Add ?six ?r) k \<in> {?six, ring_Get ?r k}" for k
    unfolding Get_owner [OF ring_ok_of] Get_owner [OF ring_ok_Add [OF ring_ok_of]] map_of_Add
    by (rule owner_Add) (simp_all add: finite_dom_map_of)
  have "ring_Get (ring_Add ?six ?r) k \<noteq> ring_Get ?r k \<longleftrightarrow> ring_Get (ring_Add ?six ?r) k = ?six" for k
    using old [of k] six [of k] by (auto simp: cache_nodes_def)
  then have "remapped ?r (ring_Add ?six ?r) = distribution (ring_Add ?six ?r) ?six"
    by (simp add: remapped_def distribution_def)
  moreover have "sum_list (map (\<lambda>n. length (filter (\<lambda>k. ring_Get ?r k = n) ks)) cache_nodes) = length ks" for ks
  proof (induction ks)
    case (Cons k ks)
    then show ?case using old [of k] by (auto simp: cache_nodes_def)
  qed simp
  then have "sum_list (map (distribution ?r) cache_nodes) = 1000"
    unfolding distribution_def by simp
  ultimately show ?thesis by (simp add: ring_main_def Let_def)
qed

section \<open>The timeline\<close>

definition timeline_events :: "int \<Rightarrow> int \<Rightarrow> int \<Rightarrow> tl_event list" where
  "timeline_events t1 t2 t3 = [Follows 2 1, Follows 3 1, Follows 4 1, Follows 2 3,
     Posts 1 ''Hello from user 1!'' t1, Posts 3 ''Hello from user 3!'' t2, Posts 1 ''Second tweet from user 1'' t3]"

definition timeline_main :: "int \<Rightarrow> int \<Rightarrow> int \<Rightarrow> tweet list option list" where
  "timeline_main t1 t2 t3 = map (\<lambda>u. GetTimeline u 10 (store_after (timeline_events t1 t2 t3))) [2, 3, 4]"

theorem timeline_main_shows:
  "map (map_option (map tw_id)) (timeline_main t1 t2 t3) = [Some [3, 2, 1], Some [3, 1], Some [3, 1]]"
  by (simp add: timeline_main_def timeline_events_def store_after_def tl_apply_def Follow_def PostTweet_def NewStore_def
      GetTimeline_def fan_out_def prepend_def Let_def)

section \<open>The rate limiter\<close>

primrec limiter_requests :: "'x services \<Rightarrow> nat \<Rightarrow> ('x, allow_result option list) run" where
  "limiter_requests S 0 = State_Monad.return []"
| "limiter_requests S (Suc n) = do {
     r \<leftarrow> demo_Allow S ''rate_limit:user:demo:stream'' 5 1 1;
     rs \<leftarrow> limiter_requests S n;
     State_Monad.return (r # rs)
   }"

text \<open>The pauses show in the clock only.\<close>

definition limiter_main :: "'x services \<Rightarrow> ('x, allow_result option list) run" where
  "limiter_main S = do {
     first \<leftarrow> limiter_requests S 10;
     second \<leftarrow> limiter_requests S 5;
     State_Monad.return (first @ second)
   }"

text \<open>
  A world with nothing but a clock, whose readings are given, and a Redis with one hash on which it
  runs the scripts.
\<close>

definition one_hash :: "(instant list \<times> (rat \<times> rat) option) services" where
  "one_hash = \<lparr>svc_pg = (\<lambda>x. (lab_env 0, x)), svc_cast = Some, svc_cast_int = (\<lambda>_. None), svc_cast_inet = Some,
     svc_scan_inet = Some, svc_uuid_ok = (\<lambda>_. True), svc_uuid_new = (\<lambda>x. ('''', x)),
     svc_clock = (\<lambda>(ts, b). (hd ts, (tl ts, b))),
     svc_cache_get = (\<lambda>x k. (None, x)), svc_cache_set = (\<lambda>x k v t. x),
     svc_eval = (\<lambda>(ts, b) k sc. let r = sc (map_option fst b, map_option snd b) in
       (Some (sc_reply r), (ts, case sc_write r of None \<Rightarrow> b | Some v \<Rightarrow> Some v))),
     svc_incr = (\<lambda>x k. (None, x)), svc_expire = (\<lambda>x k t. x), svc_ttl = (\<lambda>x k. (0, x)),
     svc_produce = (\<lambda>x t k v. (False, x)), svc_put = (\<lambda>x b k v c. (False, x)), svc_get = (\<lambda>x b k. (None, x)),
     svc_presign = (\<lambda>x b k t. (None, x)), svc_http = (\<lambda>x r. (None, x)), svc_collate = (\<lambda>_. 0),
     svc_match = (\<lambda>_ _. False), svc_rank = (\<lambda>_ _. 0), svc_late = (\<lambda>x. (lab_late, x))\<rparr>"

text \<open>
  Ten requests every 100 ms and five more after three seconds of rest: the burst of five passes, the
  next five are told to come back after a second, and of the last five the four that the rest has paid
  for pass.
\<close>

definition limiter_clock :: "instant list" where
  "limiter_clock = map (\<lambda>i. int i * 10 ^ 8) [0..<10] @ replicate 5 (40 * 10 ^ 8)"

theorem limiter_main_shows:
  "map (map_option (\<lambda>r. (al_allowed r, al_retry r)))
     (fst (run_state (limiter_main one_hash) 
       \<lparr>w_db = empty_db, w_ext = (limiter_clock, None), w_counts = [], w_tasks = [], w_log = [], w_crashed = False\<rparr>)) =
   replicate 5 (Some (True, 0)) @ replicate 5 (Some (False, 10 ^ 9)) @ replicate 4 (Some (True, 0)) @ [Some (False, 10 ^ 9)]"
  by code_simp

end
