(* ===== verification/Url_Shortener.thy ===== *)
theory Url_Shortener
  imports Go_Strings
begin

text \<open>
  \<open>interview-prep/url-shortener/main.go\<close>: the store of short codes and the two handlers of the
  server. The bytes that \<open>crypto/rand\<close> delivers are an argument; \<open>base64.URLEncoding\<close> is that of
  Go's standard library. An answer is the call a handler makes on its \<open>ResponseWriter\<close>. Both store
  operations hold the mutex, so concurrent requests are some sequence of them.
\<close>

section \<open>URL-safe base64\<close>

definition b64_alphabet :: string where
  "b64_alphabet = ''ABCDEFGHIJKLMNOPQRSTUVWXYZabcdefghijklmnopqrstuvwxyz0123456789-_''"

definition b64_char :: "nat \<Rightarrow> char" where
  "b64_char n = b64_alphabet ! n"

text \<open>\<open>EncodeToString\<close>: three bytes give four characters, a shorter rest is padded with \<open>=\<close>.\<close>

fun b64_encode :: "string \<Rightarrow> string" where
  "b64_encode [] = []"
| "b64_encode [a] = (let x = of_char a in [b64_char (x div 4), b64_char (x mod 4 * 16), CHR ''='', CHR ''=''])"
| "b64_encode [a, b] = (let x = of_char a; y = of_char b in
     [b64_char (x div 4), b64_char (x mod 4 * 16 + y div 16), b64_char (y mod 16 * 4), CHR ''=''])"
| "b64_encode (a # b # c # rest) = (let x = of_char a; y = of_char b; z = of_char c in
     [b64_char (x div 4), b64_char (x mod 4 * 16 + y div 16), b64_char (y mod 16 * 4 + z div 64), b64_char (z mod 64)]
       @ b64_encode rest)"

text \<open>The slice \<open>[:8]\<close> of the encoding of six bytes.\<close>

definition shortCode :: "string \<Rightarrow> string" where
  "shortCode bytes = take 8 (b64_encode bytes)"

text \<open>A decoder, as the inverse that makes codes of different bytes different.\<close>

definition b64_value :: "char \<Rightarrow> nat" where
  "b64_value c = length (takeWhile (\<lambda>x. x \<noteq> c) b64_alphabet)"

fun b64_decode :: "string \<Rightarrow> string" where
  "b64_decode (p # q # r # s # rest) =
     (let w = b64_value p; x = b64_value q; y = b64_value r; z = b64_value s in
       [char_of (w * 4 + x div 16), char_of (x mod 16 * 16 + y div 4), char_of (y mod 4 * 64 + z)] @ b64_decode rest)"
| "b64_decode _ = []"

lemma b64_alphabet_length: "length b64_alphabet = 64"
  by (simp add: b64_alphabet_def)

lemma b64_table: "list_all (\<lambda>n. b64_value (b64_char n) = n) [0..<64]"
  by code_simp

lemma b64_value_char [simp]: "n < 64 \<Longrightarrow> b64_value (b64_char n) = n"
  using b64_table by (simp add: list_all_iff)

lemma b64_char_in: "n < 64 \<Longrightarrow> b64_char n \<in> set b64_alphabet"
  by (simp add: b64_char_def b64_alphabet_length)

lemma byte_less [simp]: "(of_char (c :: char) :: nat) < 256"
  using nat_of_char_less_256 [of c] by simp

lemma sextets:
  fixes x y z :: nat
  assumes "x < 256" "y < 256" "z < 256"
  shows "x div 4 < 64" "x mod 4 * 16 + y div 16 < 64" "y mod 16 * 4 + z div 64 < 64" "z mod 64 < 64"
  using assms by auto

lemma bytes_again:
  fixes x y z :: nat
  assumes "x < 256" "y < 256" "z < 256"
  shows "x div 4 * 4 + (x mod 4 * 16 + y div 16) div 16 = x"
    and "(x mod 4 * 16 + y div 16) mod 16 * 16 + (y mod 16 * 4 + z div 64) div 4 = y"
    and "(y mod 16 * 4 + z div 64) mod 4 * 64 + z mod 64 = z"
proof -
  have y: "y div 16 < 16" and z: "z div 64 < 4" using assms by auto
  have "(x mod 4 * 16 + y div 16) div 16 = x mod 4" using y by simp
  then show "x div 4 * 4 + (x mod 4 * 16 + y div 16) div 16 = x" by simp
  have "(x mod 4 * 16 + y div 16) mod 16 = y div 16" "(y mod 16 * 4 + z div 64) div 4 = y mod 16"
    using y z by simp_all
  then show "(x mod 4 * 16 + y div 16) mod 16 * 16 + (y mod 16 * 4 + z div 64) div 4 = y" by simp
  have "(y mod 16 * 4 + z div 64) mod 4 = z div 64" using z by simp
  then show "(y mod 16 * 4 + z div 64) mod 4 * 64 + z mod 64 = z" by simp
qed

lemma encode_group:
  "b64_decode (b64_encode (a # b # c # rest)) = a # b # c # b64_decode (b64_encode rest)"
  "set (b64_encode (a # b # c # rest)) \<subseteq> set b64_alphabet \<union> set (b64_encode rest)"
  "length (b64_encode (a # b # c # rest)) = 4 + length (b64_encode rest)"
proof -
  note less = byte_less [of a] byte_less [of b] byte_less [of c]
  note small = sextets [OF less] and again = bytes_again [OF less]
  show "b64_decode (b64_encode (a # b # c # rest)) = a # b # c # b64_decode (b64_encode rest)"
    by (simp only: Let_def b64_encode.simps b64_decode.simps append.simps small [THEN b64_value_char] again char_of_char)
  show "set (b64_encode (a # b # c # rest)) \<subseteq> set b64_alphabet \<union> set (b64_encode rest)"
    using small [THEN b64_char_in] by (simp add: Let_def)
qed (simp add: Let_def)

lemma six_bytes:
  assumes "length bs = 6"
  obtains a b c d e f where "bs = [a, b, c, d, e, f]"
  using assms by (auto simp: numeral_eq_Suc length_Suc_conv)

section \<open>The store\<close>

text \<open>What a client of a map from keys to values relies on.\<close>

locale key_value =
  fixes put :: "'k \<Rightarrow> 'v \<Rightarrow> 's \<Rightarrow> 's"
    and get :: "'s \<Rightarrow> 'k \<Rightarrow> 'v option"
  assumes get_put: "get (put k v s) k' = (if k' = k then Some v else get s k')"
begin

text \<open>After any sequence of insertions a lookup gives the last value inserted under its key.\<close>

lemma get_puts:
  "get (fold (\<lambda>(k, v). put k v) kvs s) k = (case map_of (rev kvs) k of Some v \<Rightarrow> Some v | None \<Rightarrow> get s k)"
  by (induction kvs arbitrary: s) (auto simp: get_put map_add_Some_iff split: option.splits)

end

record store =
  codes :: "string \<rightharpoonup> string"

definition new_store :: store where
  "new_store = \<lparr>codes = Map.empty\<rparr>"

definition save :: "string \<Rightarrow> string \<Rightarrow> store \<Rightarrow> store" where
  "save code url s = s\<lparr>codes := (codes s)(code \<mapsto> url)\<rparr>"

definition lookup :: "store \<Rightarrow> string \<Rightarrow> string option" where
  "lookup s code = codes s code"

interpretation links: key_value save lookup
  by unfold_locales (simp add: save_def lookup_def)

section \<open>The handlers\<close>

text \<open>
  A request to \<open>POST /shorten\<close> carries the value of the form field \<open>url\<close> (\<^term>\<open>None\<close> when
  \<open>ParseForm\<close> fails, empty when absent) and the six bytes the generator gives to it.
\<close>

datatype link_request = Shorten "string option" string | Visit string

datatype link_answer = Http_error nat string | Written string | NotFound | Redirect nat string

definition shorten :: "string option \<Rightarrow> string \<Rightarrow> store \<Rightarrow> link_answer \<times> store" where
  "shorten form bytes s = (case form of
     None \<Rightarrow> (Http_error 400 ''bad request'', s)
   | Some original \<Rightarrow>
       if original = '''' then (Http_error 400 ''url is required'', s)
       else (let code = shortCode bytes in
         (Written (''http://localhost:8080/'' @ code @ [char_of (10 :: nat)]), save code original s)))"

definition visit :: "string \<Rightarrow> store \<Rightarrow> link_answer" where
  "visit code s = (case lookup s code of None \<Rightarrow> NotFound | Some url \<Rightarrow> Redirect 302 url)"

definition handle_link :: "link_request \<Rightarrow> store \<Rightarrow> link_answer \<times> store" where
  "handle_link rq s = (case rq of Shorten form bytes \<Rightarrow> shorten form bytes s | Visit code \<Rightarrow> (visit code s, s))"

primrec serve_links :: "link_request list \<Rightarrow> store \<Rightarrow> store" where
  "serve_links [] s = s"
| "serve_links (rq # rqs) s = serve_links rqs (snd (handle_link rq s))"

text \<open>The links that a sequence of requests creates, in order.\<close>

primrec shortened :: "link_request list \<Rightarrow> (string \<times> string) list" where
  "shortened [] = []"
| "shortened (rq # rqs) = (case rq of
     Shorten (Some url) bytes \<Rightarrow> (if url = '''' then [] else [(shortCode bytes, url)])
   | _ \<Rightarrow> []) @ shortened rqs"

lemma serve_links_puts: "serve_links rqs s = fold (\<lambda>(k, v). save k v) (shortened rqs) s"
  by (induction rqs arbitrary: s)
    (auto simp: handle_link_def shorten_def Let_def split: link_request.split option.split)

lemma lookup_new [simp]: "lookup new_store code = None"
  by (simp add: lookup_def new_store_def)

lemma lookup_served: "lookup (serve_links rqs new_store) code = map_of (rev (shortened rqs)) code"
  by (simp add: serve_links_puts links.get_puts split: option.split)

section \<open>Results\<close>

text \<open>
  A short code has eight characters of the URL-safe alphabet, none of them padding, and determines
  the six random bytes: different bytes give different codes.
\<close>

theorem short_code_roundtrip:
  assumes "length bytes = 6"
  shows "length (shortCode bytes) = 8 \<and> set (shortCode bytes) \<subseteq> set b64_alphabet \<and>
     b64_decode (shortCode bytes) = bytes"
proof -
  obtain a b c d e f where "bytes = [a, b, c, d, e, f]" using assms by (rule six_bytes)
  moreover have "length (b64_encode [a, b, c, d, e, f]) = 8"
    by (simp add: encode_group(3) del: b64_encode.simps(4))
  moreover have "set (b64_encode [a, b, c, d, e, f]) \<subseteq> set b64_alphabet"
    using encode_group(2) [of a b c "[d, e, f]"] encode_group(2) [of d e f "[]"] by auto
  ultimately show ?thesis by (simp add: shortCode_def encode_group del: b64_encode.simps(4))
qed

theorem short_code_roundtrip_witness:
  "b64_decode (shortCode ''random'') = ''random'' \<and> length (shortCode ''random'') = 8"
  using short_code_roundtrip [of "''random''"] by simp

text \<open>
  Visiting a code redirects (302) to the last URL that was shortened to that code, and answers 404
  exactly when none was, after any requests in any order; refused requests and visits change nothing.
\<close>

theorem visit_answers_last:
  "visit code (serve_links rqs new_store) =
     (case map_of (rev (shortened rqs)) code of None \<Rightarrow> NotFound | Some url \<Rightarrow> Redirect 302 url)"
  by (simp add: visit_def lookup_served split: option.split)

text \<open>The random bytes behind the links that a sequence of requests creates.\<close>

primrec link_bytes :: "link_request list \<Rightarrow> string list" where
  "link_bytes [] = []"
| "link_bytes (rq # rqs) = (case rq of
     Shorten (Some url) bytes \<Rightarrow> (if url = '''' then [] else [bytes])
   | _ \<Rightarrow> []) @ link_bytes rqs"

lemma keys_shortened: "map fst (shortened rqs) = map shortCode (link_bytes rqs)"
  by (induction rqs) (auto split: link_request.split option.split)

lemma shortened_in: "Shorten (Some url) bytes \<in> set rqs \<Longrightarrow> url \<noteq> '''' \<Longrightarrow> (shortCode bytes, url) \<in> set (shortened rqs)"
  by (induction rqs) (auto split: link_request.split option.split)

lemma shortCode_inj:
  assumes "\<forall>b \<in> set bss. length b = 6"
  shows "inj_on shortCode (set bss)"
proof (rule inj_on_inverseI)
  fix b assume "b \<in> set bss"
  with assms obtain x1 x2 x3 x4 x5 x6 where "b = [x1, x2, x3, x4, x5, x6]" by (meson six_bytes)
  moreover have "length (b64_encode [x1, x2, x3, x4, x5, x6]) = 8"
    by (simp add: encode_group(3) del: b64_encode.simps(4))
  ultimately show "b64_decode (shortCode b) = b"
    by (simp add: shortCode_def encode_group(1) del: b64_encode.simps(4))
qed

text \<open>
  C40. When the generator repeats no six bytes, every accepted URL stays reachable under the code it
  was answered with, whatever else is requested before or after.
\<close>

theorem links_stay_reachable:
  assumes "distinct (link_bytes rqs)" and "\<forall>b \<in> set (link_bytes rqs). length b = 6"
    and "Shorten (Some url) bytes \<in> set rqs" and "url \<noteq> ''''"
  shows "visit (shortCode bytes) (serve_links rqs new_store) = Redirect 302 url"
proof -
  have "distinct (map fst (shortened rqs))"
    unfolding keys_shortened using assms(1) shortCode_inj [OF assms(2)] by (simp add: distinct_map)
  then have "distinct (map fst (rev (shortened rqs)))" by (simp add: rev_map [symmetric])
  then have "map_of (rev (shortened rqs)) (shortCode bytes) = Some url"
    using shortened_in [OF assms(3,4)] by simp
  then show ?thesis by (simp add: visit_def lookup_served)
qed

theorem links_stay_reachable_witness:
  "visit (shortCode ''abcdef'') (serve_links [Shorten (Some ''http://a'') ''abcdef'', Shorten (Some ''http://b'') ''ghijkl'']
     new_store) = Redirect 302 ''http://a''"
  by (rule links_stay_reachable) simp_all

end
