(* ===== verification/Spec2Isabelle.thy ===== *)
theory Spec2Isabelle
  imports Accounts Monitoring Lifecycle Catalog Paging Stream_Limit Startup Demos Url_Shortener
begin

text \<open>
  \<^bold>\<open>beatstream and its companion exercises: a verification library.\<close>

  \<^bold>\<open>The program.\<close> \<open>src/beatstream\<close> is a music service of two processes. The API server (\<open>cmd/api\<close>)
  answers HTTP requests through a stack of middlewares; its handlers keep everything in PostgreSQL,
  cache in Redis, put audio into an object store, search through OpenSearch and publish two kinds of
  events to Kafka. The worker (\<open>cmd/worker\<close>) consumes them: an upload event makes it download the audio,
  transcode it at three bitrates, store the results and set the track ready; a play event makes it
  record the play and count it, in one transaction. \<open>src/interview-prep\<close> holds four small programs: a
  consistent-hash ring, a token bucket in Redis, a URL shortener and a timeline with fan-out on write.

  \<^bold>\<open>How the code is modelled.\<close> What is in the repository is a definition, what is not is a parameter.
  \<^item> The tables that \<open>internal/db/postgres.go\<close> creates are lists of records, one record type per table,
    in \<^typ>\<open>db\<close> (\<open>Schema\<close>). Each SQL text of the code is a definition on them (\<open>sel_\<close>, \<open>ins_\<close>, \<open>upd_\<close>,
    \<open>del_\<close>, next to the handler that sends it), with its keys, references, conflicts and conversions.
    Tables are lists in insertion order; what PostgreSQL leaves open about the order of rows is that
    order.
  \<^item> PostgreSQL's failures, generated ids and clock, Redis, Kafka, the object store, OpenSearch's answers,
    the clock and the UUID library are fields of \<^typ>\<open>'x services\<close>, functions of an arbitrary outside state
    \<open>'x\<close> (\<open>Services\<close>); bcrypt and the JWT library are \<^typ>\<open>'x crypto\<close> (\<open>Jwt\<close>), ffmpeg and the file system
    \<^typ>\<open>'x tools\<close> (\<open>Transcode\<close>), gin's recovery and tracing \<^typ>\<open>'x engine\<close> (\<open>Observe\<close>), the constructors of
    the client libraries \<^typ>\<open>'x libs\<close> (\<open>Startup\<close>). Every call may fail whenever the parameter says so: a
    statement can be refused, or take effect and lose its acknowledgement, a row stream can be cut.
  \<^item> A handler or worker step is a run in the state monad over \<^typ>\<open>'x world\<close>: the tables, the outside, the
    metrics, the request log, the goroutines that were started and not yet run, and whether a panic has
    ended the process. A goroutine carries what its closure captured; what it reads from gin's context it
    reads when it runs, and by then the context may be another request's (\<^const>\<open>svc_late\<close>, arbitrary). Errors are values: a status and a body for a handler, \<^typ>\<open>upload_error\<close> and
    \<^typ>\<open>play_error\<close> for the workers, \<open>Panicked\<close> for a nil pointer, \<^term>\<open>None\<close> for a driver's error.
  \<^item> Machine integers are kept where the code meets their bounds: 64-, 32- and 16-bit columns and JSON
    numbers are integers with an explicit range check, the ids of the timeline and the positions of the ring are
    words. Floats of the token buckets are exact rationals.

  \<^bold>\<open>Theories.\<close>
  \<^item> \<open>Prelude\<close>: hints, list facts, the locale of transition systems. \<open>Go_Strings\<close>: the functions of
    \<open>strings\<close> and \<open>strconv\<close> that the code uses. \<open>Json\<close>, \<open>Track_Json\<close>: \<open>encoding/json\<close> on the code's structs.
  \<^item> \<open>Tables\<close>, \<open>Schema\<close>: SQL's effects on lists of rows, the tables and their constraints.
  \<^item> \<open>Services\<close>, \<open>Http\<close>: the world, runs, the locale of relations that every run guarantees, the rules of
    postconditions, requests and replies.
  \<^item> \<open>Tracks\<close>, \<open>Playlists\<close>, \<open>Library_Handlers\<close> (artists, favorites, admin), \<open>Discovery\<close> (search and
    recommendations), \<open>Auth_Handler\<close>: the handlers of \<open>internal/handler\<close>.
  \<^item> \<open>Jwt\<close>, \<open>Rate_Limit\<close>, \<open>Audit_Log\<close>, \<open>Observe\<close> (request id, log, metrics, headers): \<open>internal/middleware\<close>.
  \<^item> \<open>Opensearch\<close>, \<open>Queue\<close>, \<open>Transcode\<close>, \<open>Upload_Worker\<close>, \<open>Analytics_Worker\<close>: the packages of these names.
  \<^item> \<open>Routes\<close>: the route table of \<open>cmd/api/main.go\<close> with the chain of every route. \<open>Startup\<close>: what both
    \<open>main\<close> functions do before they serve and what their deferred calls close. \<open>Lifecycle\<close>: the processes
    from then on, with the signal, the context of the worker's loops and \<open>Shutdown\<close>.
  \<^item> \<open>System\<close>, \<open>Integrity\<close>, \<open>Column_Types\<close>, \<open>Program\<close>: the whole program as a transition system, its
    invariants. \<open>Stack\<close>: a request through the middlewares. \<open>Access\<close>, \<open>Monitoring\<close>, \<open>Accounts\<close>, \<open>Pipeline\<close>, \<open>Progress\<close>, \<open>Catalog\<close>, \<open>Paging\<close>, \<open>Token_Buckets\<close>,
    \<open>Stream_Limit\<close>: the properties of the service.
  \<^item> \<open>Consistent_Hashing\<close>, \<open>Timeline\<close>, \<open>Url_Shortener\<close>, \<open>Demos\<close>: the exercises.
  \<^item> \<open>Lab\<close>: one concrete world, on which the results are evaluated.

  \<^bold>\<open>Results.\<close>
  \<^item> Integrity. \<open>db_step\<close> lists the statements the program can send, \<open>reachable\<close> the tables that any
    interleaving of them reaches from empty ones. They keep keys unique, references resolved, play
    counters equal to the number of play events and statuses within the four of the pipeline. The
    locales \<open>db_relation\<close>, \<open>api_contract\<close> and \<open>table_contract\<close> carry a relation that the statements guarantee
    through every handler, middleware, route, goroutine and worker, whichever calls fail; they are
    interpreted for the refinement (each entry point is a sequence of statements), the invariant, the
    types of the columns, the growth of the trails and the progress of the tracks.
  \<^item> Types. Every numeric column holds a value of its SQL type, and the rows read from them fit the Go
    fields and survive the cache.
  \<^item> Processes. Any number of servers and workers keep all of this, however they end; a signalled worker
    stops within the work it has fetched and commits nothing it had not finished; an upload whose tools the
    signal interrupts stays in \<open>processing\<close>; a server that drains answers what it accepted and forgets its goroutines.
  \<^item> Access. Who reaches a protected or an admin route, what is audited, what every answer carries, and
    what a request leaves in the metrics and in the log.
  \<^item> Pipeline. What success, failure, redelivery and a missing store leave of an upload, and that an
    upload completes when every call succeeds; the play transaction; which records Kafka delivers again.
  \<^item> Accounts, catalogue, paging. What a token proves, registration followed by login, erasure; accepted
    uploads, stream redirects, the cache; the pages of a playlist add up to it.
  \<^item> Limits. Both token buckets meet one contract; on the stream route at most a hundred requests of an
    address, plus the refill of the time they take, are not answered 429, when they come one after the other,
    carry no \<open>X-User-ID\<close> and Redis answers; the login limiter passes the first five attempts of a window.
  \<^item> Start. Both processes start completely or stop at the first failure that matters.
  \<^item> Exercises. The ring's lookup is the clockwise owner, and which keys move; the timeline equals the feed
    computed on read; links stay reachable while codes are distinct.

  \<^bold>\<open>Runs and interleavings.\<close> A transition of \<open>Program\<close> is a complete run of a request, goroutine or
  message. Statements of other runs may come between two statements of a run: what holds of all
  interleavings is stated over \<open>reachable\<close>, to which every run is refined. A statement is one step,
  and so is the transaction of the analytics worker. In \<open>Lifecycle\<close> a step of a process is one request,
  goroutine or record; a handler that the end of its process cuts off has sent a first part of its
  statements, which \<open>reachable\<close> covers as well. PostgreSQL's refusal of text that is not valid UTF-8 is
  one of the failures a statement may always have.

  \<^bold>\<open>Hypotheses.\<close> Results that need documented behaviour of a library name it: \<open>jwt_sound\<close> (a token that
  parses was verified), \<open>engine_ok\<close> (gin's recovery answers 500), \<open>autocommit_law\<close> (what is committed of a
  partition is what some of the run's first marks amount to), \<open>counts_attempts\<close> (\<open>INCR\<close> counts),
  \<open>redis_bucket\<close> (scripts, expiry and clock), \<open>pg_always\<close> (the database answers), \<open>all_up\<close> (so does
  everything else, and generated ids are new), \<open>signal_in_tools\<close> (the signal arrives while a tool or a file
  operation runs, not during a call over the network). Each of them holds in the world of a witness. Two are built in: a call that is given a cancelled context reports its error and does
  nothing (\<open>under_ctx\<close>), and \<open>Shutdown\<close> returns when no request is active or its deadline has passed.

  \<^bold>\<open>Bounds and fuel.\<close> \<open>read_pages\<close> and \<open>br_read_all\<close> take fuel; the theorems show that as many calls as
  there are entries, or one more than there are bytes, are enough. The binary search of the ring
  terminates by a measure. The feed of the timeline is exact below \<open>2 ^ 64\<close> posts, where ids wrap; the
  bounds on its lengths hold beyond.

  \<^bold>\<open>Not modelled.\<close> The sockets that the servers listen on and the page of the metrics endpoint, which is the
  Prometheus library's; gin's matching of paths (a request carries the route it matched) and its own
  redirects of paths with a slash too many or too few, which pass no middleware; the text of
  JSON (values are trees, with the rules of Go's decoder for names, types and ranges); the wire formats
  of the drivers; the DDL as a process (the tables are there from the start; \<open>Startup\<close> keeps the order
  of the migrations); rounding of floats, and of the texts \<open>strconv.ParseFloat\<close> reads all but
  the plain decimals that ffprobe prints; the order of rows that SQL leaves open; log lines other than
  the request log; the context of a single request, whose cancellation is a failing call. The frontend,
  Terraform, Kubernetes and load-test files are not Go and not modelled.
\<close>

end
